(* ===== verification/Prelude.thy ===== *)
theory Prelude
  imports Main "HOL-Library.Word" "HOL-Library.Monad_Syntax"
begin

text \<open>
  Shared vocabulary of the development: Rust's fixed-width integers and the integer methods the
  program calls, results with an error or a panic, and the lemma collections the component
  theories rewrite with. Nothing here is specific to the exchange.
\<close>

section \<open>Lemma collections\<close>

named_theorems res_simps \<open>success of a chain of fallible steps, step by step\<close>
named_theorems checked_simps \<open>success of Rust's checked integer methods, on natural numbers\<close>

section \<open>Integers\<close>

type_synonym u8 = "8 word"
type_synonym u16 = "16 word"
type_synonym u32 = "32 word"
type_synonym u64 = "64 word"
type_synonym u128 = "128 word"

text \<open>
  The checked methods return \<^const>\<open>None\<close> where the exact result does not fit the type. The plain
  operators \<open>+\<close>, \<open>-\<close> and \<open>*\<close> of the source are the word operators: the crate sets no
  \<open>overflow-checks\<close>, so its release build wraps.
\<close>

definition checked_add :: "'a::len word \<Rightarrow> 'a word \<Rightarrow> 'a word option" where
  "checked_add a b = (if unat a + unat b < 2 ^ LENGTH('a) then Some (a + b) else None)"

definition checked_sub :: "'a::len word \<Rightarrow> 'a word \<Rightarrow> 'a word option" where
  "checked_sub a b = (if b \<le> a then Some (a - b) else None)"

definition checked_mul :: "'a::len word \<Rightarrow> 'a word \<Rightarrow> 'a word option" where
  "checked_mul a b = (if unat a * unat b < 2 ^ LENGTH('a) then Some (a * b) else None)"

definition checked_div :: "'a::len word \<Rightarrow> 'a word \<Rightarrow> 'a word option" where
  "checked_div a b = (if b = 0 then None else Some (a div b))"

definition saturating_sub :: "'a::len word \<Rightarrow> 'a word \<Rightarrow> 'a word" where
  "saturating_sub a b = (if b \<le> a then a - b else 0)"

section \<open>Results\<close>

text \<open>
  A Rust function that returns \<open>Result\<close> can return its error or panic. A panic aborts the
  instruction and cannot be caught by the caller, so it is kept apart from the error value.
\<close>

datatype 'e failure = Err 'e | Panic

type_synonym ('e, 'a) result = "'e failure + 'a"

definition and_then :: "('e, 'a) result \<Rightarrow> ('a \<Rightarrow> ('e, 'b) result) \<Rightarrow> ('e, 'b) result" where
  "and_then m f = (case m of Inl e \<Rightarrow> Inl e | Inr x \<Rightarrow> f x)"

definition unwrap :: "'a option \<Rightarrow> ('e, 'a) result" where
  "unwrap x = (case x of None \<Rightarrow> Inl Panic | Some y \<Rightarrow> Inr y)"

definition unwrap_result :: "('d, 'a) result \<Rightarrow> ('e, 'a) result" where
  "unwrap_result m = (case m of Inl _ \<Rightarrow> Inl Panic | Inr x \<Rightarrow> Inr x)"

definition ok_or :: "'a option \<Rightarrow> 'e \<Rightarrow> ('e, 'a) result" where
  "ok_or x e = (case x of None \<Rightarrow> Inl (Err e) | Some y \<Rightarrow> Inr y)"

definition map_err :: "('d \<Rightarrow> 'e) \<Rightarrow> ('d, 'a) result \<Rightarrow> ('e, 'a) result" where
  "map_err g m = (case m of Inl (Err d) \<Rightarrow> Inl (Err (g d)) | Inl Panic \<Rightarrow> Inl Panic | Inr x \<Rightarrow> Inr x)"

definition ensure :: "bool \<Rightarrow> 'e failure \<Rightarrow> ('e, unit) result" where
  "ensure b e = (if b then Inr () else Inl e)"

text \<open>Indexing a slice panics out of range.\<close>

definition index_slice :: "'a list \<Rightarrow> nat \<Rightarrow> ('e, 'a) result" where
  "index_slice xs i = (if i < length xs then Inr (xs ! i) else Inl Panic)"

text \<open>Integer division panics on a zero divisor.\<close>

definition div_or_panic :: "'a::len word \<Rightarrow> 'a word \<Rightarrow> ('e, 'a word) result" where
  "div_or_panic a b = unwrap (checked_div a b)"

section \<open>Success of a chain of steps\<close>

lemma and_then_simps [simp]:
  "and_then (Inr x) f = f x"
  "and_then (Inl e) f = Inl e"
  by (simp_all add: and_then_def)

lemma and_then_eq_Inr [res_simps]:
  "and_then m f = Inr y \<longleftrightarrow> (\<exists>x. m = Inr x \<and> f x = Inr y)"
  by (cases m) simp_all

lemma and_then_eq_Inl:
  "and_then m f = Inl e \<longleftrightarrow> m = Inl e \<or> (\<exists>x. m = Inr x \<and> f x = Inl e)"
  by (cases m) simp_all

lemma and_then_InrE:
  assumes "and_then m f = Inr y"
  obtains x where "m = Inr x" and "f x = Inr y"
  using assms by (auto simp: and_then_eq_Inr)

lemma unwrap_simps [simp]:
  "unwrap (Some y) = Inr y"
  "unwrap None = Inl Panic"
  by (simp_all add: unwrap_def)

lemma unwrap_eq_Inr [res_simps]: "unwrap x = Inr y \<longleftrightarrow> x = Some y"
  by (cases x) (simp_all add: unwrap_def)

lemma unwrap_result_simps [simp]:
  "unwrap_result (Inr y) = Inr y"
  "unwrap_result (Inl e) = Inl Panic"
  by (simp_all add: unwrap_result_def)

lemma unwrap_result_eq_Inr [res_simps]: "unwrap_result m = Inr y \<longleftrightarrow> m = Inr y"
  by (cases m) (simp_all add: unwrap_result_def)

lemma unwrap_result_not_Err [simp]: "unwrap_result m \<noteq> Inl (Err e)"
  by (cases m) (simp_all add: unwrap_result_def)

lemma unwrap_not_Err [simp]: "unwrap x \<noteq> Inl (Err e)"
  by (cases x) simp_all

lemma ok_or_simps [simp]:
  "ok_or (Some y) e = Inr y"
  "ok_or None e = Inl (Err e)"
  by (simp_all add: ok_or_def)

lemma ok_or_eq_Inr [res_simps]: "ok_or x e = Inr y \<longleftrightarrow> x = Some y"
  by (cases x) (simp_all add: ok_or_def)

lemma map_err_simps [simp]:
  "map_err g (Inr y) = Inr y"
  "map_err g (Inl Panic) = Inl Panic"
  "map_err g (Inl (Err d)) = Inl (Err (g d))"
  by (simp_all add: map_err_def)

lemma map_err_eq_Inr [res_simps]: "map_err g m = Inr y \<longleftrightarrow> m = Inr y"
  by (auto simp: map_err_def split: sum.splits failure.splits)

lemma ensure_simps [simp]:
  "ensure True e = Inr ()"
  "ensure False e = Inl e"
  by (simp_all add: ensure_def)

lemma ensure_eq_Inr [res_simps]: "ensure b e = Inr y \<longleftrightarrow> b"
  by (cases b) simp_all

lemma if_Inl_eq_Inr [res_simps]:
  "(if b then Inl e else m) = Inr y \<longleftrightarrow> \<not> b \<and> m = Inr y"
  "(if b then m else Inl e) = Inr y \<longleftrightarrow> b \<and> m = Inr y"
  by (cases b; simp)+

lemma index_slice_eq_Inr [res_simps]:
  "index_slice xs i = Inr y \<longleftrightarrow> i < length xs \<and> y = xs ! i"
  by (auto simp: index_slice_def)

lemma div_or_panic_eq_Inr [res_simps]:
  "div_or_panic a b = Inr c \<longleftrightarrow> b \<noteq> 0 \<and> c = a div b"
  by (auto simp: div_or_panic_def checked_div_def res_simps)

section \<open>Checked integer methods on natural numbers\<close>

lemma unat_lt_size: "unat (a :: 'a::len word) < 2 ^ LENGTH('a)"
  by (rule unsigned_less)

lemma unat_u64: "unat (a :: u64) < 18446744073709551616"
  using unsigned_less [of a, where ?'a = nat] by simp

lemma checked_add_SomeD:
  "checked_add a b = Some c \<Longrightarrow> unat c = unat a + unat b"
  by (auto simp: checked_add_def unat_add_lem split: if_splits)

lemma checked_sub_SomeD:
  "checked_sub a b = Some c \<Longrightarrow> unat c + unat b = unat a"
  by (auto simp: checked_sub_def unat_sub word_le_nat_alt split: if_splits)

lemma checked_mul_SomeD:
  "checked_mul a b = Some c \<Longrightarrow> unat c = unat a * unat b"
  by (auto simp: checked_mul_def unat_mult_lem split: if_splits)

lemma checked_add_iff [checked_simps]:
  "checked_add a b = Some (c :: 'a::len word) \<longleftrightarrow> unat c = unat a + unat b"
  by (metis checked_add_SomeD checked_add_def unat_lt_size word_unat_eq_iff)

lemma checked_sub_iff [checked_simps]:
  "checked_sub a b = Some (c :: 'a::len word) \<longleftrightarrow> unat c + unat b = unat a"
proof
  assume "unat c + unat b = unat a"
  then have "b \<le> a" and "unat (a - b) = unat c"
    by (simp_all add: word_le_nat_alt unat_sub)
  then show "checked_sub a b = Some c"
    by (simp add: checked_sub_def word_unat_eq_iff)
qed (rule checked_sub_SomeD)

lemma checked_mul_iff [checked_simps]:
  "checked_mul a b = Some (c :: 'a::len word) \<longleftrightarrow> unat c = unat a * unat b"
  by (metis checked_mul_SomeD checked_mul_def unat_lt_size word_unat_eq_iff)

lemma checked_sub_add_SomeD:
  assumes "Option.bind (checked_sub a b) (\<lambda>n. checked_add n c) = Some d"
  shows "unat b \<le> unat a" and "unat d = unat a - unat b + unat c"
  using assms by (auto simp: bind_eq_Some_conv checked_simps)

lemma unat_saturating_sub: "unat (saturating_sub a b) = unat a - unat b"
  by (auto simp: saturating_sub_def unat_sub word_le_nat_alt)

lemma unat_add_exact:
  "unat (a :: 'a::len word) + unat b < 2 ^ LENGTH('a) \<Longrightarrow> unat (a + b) = unat a + unat b"
  by (simp add: unat_add_lem)

lemma unat_sub_exact: "unat b \<le> unat a \<Longrightarrow> unat (a - b) = unat a - unat b"
  by (simp add: unat_sub word_le_nat_alt)

lemma unat_add_wrap: "unat (a + b :: u64) = (unat a + unat b) mod 2 ^ 64"
  by (simp add: unat_word_ariths)

lemma unat_sub_wrap: "unat (a - b :: u64) = (unat a + 2 ^ 64 - unat b) mod 2 ^ 64"
proof (cases "unat b \<le> unat a")
  case True
  then have "unat a + 2 ^ 64 - unat b = (unat a - unat b) + 2 ^ 64" by simp
  then have "(unat a + 2 ^ 64 - unat b) mod 2 ^ 64 = (unat a - unat b) mod 2 ^ 64"
    by (simp only: mod_add_self2)
  also have "\<dots> = unat a - unat b"
    using unat_u64 [of a] by simp
  finally show ?thesis
    using True by (simp only: unat_sub_exact)
next
  case False
  then show ?thesis
    using unat_u64 [of b] by (simp add: unat_sub_if_size word_size word_le_nat_alt)
qed

lemma unat_ucast_widen:
  "LENGTH('a::len) \<le> LENGTH('b::len) \<Longrightarrow> unat (ucast (x :: 'a word) :: 'b word) = unat x"
proof -
  assume "LENGTH('a) \<le> LENGTH('b)"
  then have "(2 :: nat) ^ LENGTH('a) \<le> 2 ^ LENGTH('b)"
    by (simp add: power_increasing)
  with unsigned_less [of x, where ?'a = nat] have "unat x < 2 ^ LENGTH('b)"
    by (rule less_le_trans)
  then show ?thesis
    by (simp add: unsigned_ucast_eq take_bit_nat_eq_self_iff)
qed

end
