(* ===== verification/Errors.thy ===== *)
theory Errors
  imports Prelude
begin

text \<open>
  The program's error type (\<^verbatim>\<open>src/program/src/error.rs\<close>) and its conversion into the error type
  of the Solana runtime, which every handler returns.
\<close>

section \<open>DexError\<close>

datatype dex_error =
    InvalidOrderIndex
  | UserAccountFull
  | TransactionAborted
  | MissingUserAccount
  | OrderNotFound
  | NoOp
  | OutofFunds
  | UserAccountStillActive
  | MarketStillActive
  | InvalidMarketSignerAccount
  | InvalidOrderbookAccount
  | InvalidAobProgramAccount
  | InvalidMarketAdminAccount
  | InvalidBaseVaultAccount
  | InvalidQuoteVaultAccount
  | InvalidSystemProgramAccount
  | InvalidSplTokenProgram
  | InvalidStateAccountOwner
  | AOBError
  | InvalidSweepAuthority
  | NumericalOverflow
  | InvalidMetadataOwner
  | InvalidMetadataKey
  | EventQueueMustBeEmpty
  | EventQueueMismatch

text \<open>The discriminant \<open>e as u32\<close>: the position of the variant in the enumeration.\<close>

definition dex_error_variants :: "dex_error list" where
  "dex_error_variants =
     [InvalidOrderIndex, UserAccountFull, TransactionAborted, MissingUserAccount, OrderNotFound,
      NoOp, OutofFunds, UserAccountStillActive, MarketStillActive, InvalidMarketSignerAccount,
      InvalidOrderbookAccount, InvalidAobProgramAccount, InvalidMarketAdminAccount,
      InvalidBaseVaultAccount, InvalidQuoteVaultAccount, InvalidSystemProgramAccount,
      InvalidSplTokenProgram, InvalidStateAccountOwner, AOBError, InvalidSweepAuthority,
      NumericalOverflow, InvalidMetadataOwner, InvalidMetadataKey, EventQueueMustBeEmpty,
      EventQueueMismatch]"

fun variant_index :: "'a \<Rightarrow> 'a list \<Rightarrow> nat" where
  "variant_index x [] = 0"
| "variant_index x (y # ys) = (if x = y then 0 else Suc (variant_index x ys))"

definition dex_error_code :: "dex_error \<Rightarrow> u32" where
  "dex_error_code e = of_nat (variant_index e dex_error_variants)"

text \<open>\<open>FromPrimitive\<close> of the error type: the variant with a given discriminant.\<close>

definition dex_error_from_u32 :: "u32 \<Rightarrow> dex_error option" where
  "dex_error_from_u32 n =
     (if unat n < length dex_error_variants then Some (dex_error_variants ! unat n) else None)"

section \<open>ProgramError\<close>

text \<open>The error type of the runtime; the program itself raises the first seven.\<close>

datatype program_error =
    Custom u32
  | InvalidArgument
  | InvalidInstructionData
  | InvalidAccountData
  | MissingRequiredSignature
  | NotEnoughAccountKeys
  | InvalidSeeds
  | AccountDataTooSmall
  | InsufficientFunds
  | IncorrectProgramId
  | AccountAlreadyInitialized
  | UninitializedAccount
  | AccountBorrowFailed
  | MaxSeedLengthExceeded
  | BorshIoError
  | AccountNotRentExempt
  | UnsupportedSysvar
  | IllegalOwner

type_synonym 'a dex_result = "(dex_error, 'a) result"
type_synonym 'a program_result = "(program_error, 'a) result"

definition from_dex_error :: "dex_error \<Rightarrow> program_error" where
  "from_dex_error e = Custom (dex_error_code e)"

abbreviation dex_fail :: "dex_error \<Rightarrow> 'a program_result" where
  "dex_fail e \<equiv> Inl (Err (from_dex_error e))"

abbreviation prog_fail :: "program_error \<Rightarrow> 'a program_result" where
  "prog_fail e \<equiv> Inl (Err e)"

text \<open>The operator \<open>?\<close> on a \<open>DexError\<close> in a function that returns a \<open>ProgramError\<close>.\<close>

definition question_mark :: "'a dex_result \<Rightarrow> 'a program_result" where
  "question_mark m = map_err from_dex_error m"

lemma question_mark_simps [simp]:
  "question_mark (Inr x) = Inr x"
  "question_mark (Inl Panic) = Inl Panic"
  "question_mark (Inl (Err e)) = dex_fail e"
  by (simp_all add: question_mark_def)

lemma question_mark_eq_Inr [res_simps]: "question_mark m = Inr y \<longleftrightarrow> m = Inr y"
  by (simp add: question_mark_def res_simps)

lemma dex_error_code_roundtrip: "dex_error_from_u32 (dex_error_code e) = Some e"
  by (cases e) (simp_all add: dex_error_from_u32_def dex_error_code_def dex_error_variants_def)

lemma dex_error_code_inject [simp]: "dex_error_code d = dex_error_code e \<longleftrightarrow> d = e"
  by (metis dex_error_code_roundtrip option.inject)

lemma from_dex_error_inject [simp]: "from_dex_error d = from_dex_error e \<longleftrightarrow> d = e"
  by (simp add: from_dex_error_def)

lemma from_dex_error_builtin [simp]:
  "from_dex_error d \<noteq> InvalidArgument"
  "from_dex_error d \<noteq> InvalidInstructionData"
  "from_dex_error d \<noteq> InvalidAccountData"
  "from_dex_error d \<noteq> MissingRequiredSignature"
  "from_dex_error d \<noteq> NotEnoughAccountKeys"
  by (simp_all add: from_dex_error_def)

end
