(* ===== verification/Codec.thy ===== *)
theory Codec
  imports Prelude
begin

text \<open>
  Account data and instruction data are byte strings which the program reinterprets as
  \<open>#[repr(C)]\<close> structures. This theory holds the byte encodings of the integer types and the
  interface every structure layout satisfies: a fixed length and two round-trip laws.
\<close>

section \<open>Little-endian integers\<close>

fun le_bytes :: "nat \<Rightarrow> nat \<Rightarrow> u8 list" where
  "le_bytes 0 k = []"
| "le_bytes (Suc n) k = of_nat (k mod 256) # le_bytes n (k div 256)"

fun le_value :: "u8 list \<Rightarrow> nat" where
  "le_value [] = 0"
| "le_value (b # bs) = unat b + 256 * le_value bs"

definition to_le_bytes :: "'a::len word \<Rightarrow> u8 list" where
  "to_le_bytes w = le_bytes (LENGTH('a) div 8) (unat w)"

definition from_le_bytes :: "u8 list \<Rightarrow> 'a::len word" where
  "from_le_bytes bs = of_nat (le_value bs)"

section \<open>Splitting a byte string\<close>

text \<open>The fields of a structure with the given widths, and the elements of a slice.\<close>

fun split_fields :: "nat list \<Rightarrow> 'a list \<Rightarrow> 'a list list" where
  "split_fields [] bs = []"
| "split_fields (n # ns) bs = take n bs # split_fields ns (drop n bs)"

function chunks :: "nat \<Rightarrow> 'a list \<Rightarrow> 'a list list" where
  "chunks n bs = (if n = 0 \<or> bs = [] then [] else take n bs # chunks n (drop n bs))"
  by pat_completeness auto
termination
  by (relation "measure (\<lambda>(n, bs). length bs)") auto

declare chunks.simps [simp del]

text \<open>\<open>bytemuck::try_from_bytes\<close>: the reinterpretation fails when the length is not that of the type.\<close>

definition try_from_bytes :: "nat \<Rightarrow> (u8 list \<Rightarrow> 'a) \<Rightarrow> u8 list \<Rightarrow> 'a option" where
  "try_from_bytes n dec bs = (if length bs = n then Some (dec bs) else None)"

section \<open>The interface of a layout\<close>

locale codec =
  fixes enc :: "'a \<Rightarrow> u8 list"
    and dec :: "u8 list \<Rightarrow> 'a"
    and len :: nat
  assumes length_enc: "length (enc x) = len"
    and dec_enc: "dec (enc x) = x"
    and enc_dec: "length bs = len \<Longrightarrow> enc (dec bs) = bs"
begin

lemma enc_inject: "enc x = enc y \<longleftrightarrow> x = y"
  by (metis dec_enc)

lemma enc_surj: "length bs = len \<Longrightarrow> \<exists>x. bs = enc x"
  by (metis enc_dec)

lemma dec_enc_append: "dec (take len (enc x @ bs)) = x"
  by (simp add: length_enc dec_enc)

lemma try_from_bytes_enc: "try_from_bytes len dec (enc x) = Some x"
  by (simp add: try_from_bytes_def length_enc dec_enc)

lemma try_from_bytes_eq_Some: "try_from_bytes len dec bs = Some x \<longleftrightarrow> bs = enc x"
  by (auto simp: try_from_bytes_def length_enc dec_enc enc_dec)

lemma length_array: "length (concat (map enc xs)) = len * length xs"
  by (induction xs) (simp_all add: length_enc)

lemma array_roundtrip:
  assumes "0 < len"
  shows "map dec (chunks len (concat (map enc xs))) = xs"
proof (induction xs)
  case Nil
  then show ?case by (simp add: chunks.simps)
next
  case (Cons x xs)
  have "enc x \<noteq> []"
    using assms length_enc [of x] by auto
  with Cons show ?case
    using assms by (subst chunks.simps) (simp add: length_enc dec_enc)
qed

lemma array_roundtrip_bytes:
  assumes "len dvd length bs"
  shows "concat (map enc (map dec (chunks len bs))) = bs"
  using assms
proof (induction bs rule: measure_induct_rule [where f = length])
  case (less bs)
  show ?case
  proof (cases "len = 0 \<or> bs = []")
    case True
    with less.prems show ?thesis by (auto simp: chunks.simps)
  next
    case False
    with less.prems have le: "len \<le> length bs"
      by (simp add: dvd_imp_le)
    with False less.prems have "concat (map enc (map dec (chunks len (drop len bs)))) = drop len bs"
      by (intro less.IH) auto
    with False le show ?thesis
      by (subst chunks.simps) (simp add: enc_dec)
  qed
qed

end

section \<open>The integer encodings are layouts\<close>

lemma length_le_bytes [simp]: "length (le_bytes n k) = n"
  by (induction n arbitrary: k) simp_all

lemma le_value_le_bytes: "le_value (le_bytes n k) = k mod 256 ^ n"
  by (induction n arbitrary: k) (simp_all add: unat_of_nat mod_mult2_eq)

lemma le_value_bound: "le_value bs < 256 ^ length bs"
proof (induction bs)
  case (Cons b bs)
  have "unat b < 256"
    using unsigned_less [of b, where ?'a = nat] by simp
  with Cons show ?case by simp
qed simp

lemma le_bytes_le_value: "le_bytes (length bs) (le_value bs) = bs"
proof (induction bs)
  case (Cons b bs)
  have "unat b < 256"
    using unsigned_less [of b, where ?'a = nat] by simp
  with Cons show ?case by simp
qed simp

lemma word_codec:
  assumes "8 dvd LENGTH('a::len)"
  shows "codec (to_le_bytes :: 'a word \<Rightarrow> u8 list) from_le_bytes (LENGTH('a) div 8)"
proof
  have pow: "(256::nat) ^ (LENGTH('a) div 8) = 2 ^ LENGTH('a)"
    using assms power_mult [of "2::nat" 8 "LENGTH('a) div 8"] by simp
  fix x :: "'a word" and bs :: "u8 list"
  show "length (to_le_bytes x) = LENGTH('a) div 8"
    by (simp add: to_le_bytes_def)
  show "from_le_bytes (to_le_bytes x) = x"
    by (simp add: from_le_bytes_def to_le_bytes_def le_value_le_bytes pow unat_lt_size)
  assume len: "length bs = LENGTH('a) div 8"
  then have "le_value bs < 2 ^ LENGTH('a)"
    using le_value_bound [of bs] pow by simp
  then show "to_le_bytes (from_le_bytes bs :: 'a word) = bs"
    using le_bytes_le_value [of bs] len
    by (simp add: to_le_bytes_def from_le_bytes_def unat_of_nat)
qed


interpretation u8_codec: codec "to_le_bytes :: u8 \<Rightarrow> u8 list" from_le_bytes 1
  using word_codec [where 'a = 8] by simp

interpretation u32_codec: codec "to_le_bytes :: u32 \<Rightarrow> u8 list" from_le_bytes 4
  using word_codec [where 'a = 32] by simp

text \<open>Padding bytes are read as one number.\<close>

interpretation u48_codec: codec "to_le_bytes :: 48 word \<Rightarrow> u8 list" from_le_bytes 6
  using word_codec [where 'a = 48] by simp

interpretation u56_codec: codec "to_le_bytes :: 56 word \<Rightarrow> u8 list" from_le_bytes 7
  using word_codec [where 'a = 56] by simp

interpretation u64_codec: codec "to_le_bytes :: u64 \<Rightarrow> u8 list" from_le_bytes 8
  using word_codec [where 'a = 64] by simp

interpretation u128_codec: codec "to_le_bytes :: u128 \<Rightarrow> u8 list" from_le_bytes 16
  using word_codec [where 'a = 128] by simp

section \<open>Public keys\<close>

text \<open>
  A \<open>Pubkey\<close> is an array of 32 bytes, compared lexicographically. It is modelled by the number
  its bytes spell with the first byte most significant, so that the order of the words is the
  order of the keys.
\<close>

type_synonym pubkey = "256 word"

definition pubkey_to_bytes :: "pubkey \<Rightarrow> u8 list" where
  "pubkey_to_bytes k = rev (to_le_bytes k)"

definition pubkey_from_bytes :: "u8 list \<Rightarrow> pubkey" where
  "pubkey_from_bytes bs = from_le_bytes (rev bs)"

interpretation pubkey_codec: codec pubkey_to_bytes pubkey_from_bytes 32
proof -
  have c: "codec (to_le_bytes :: pubkey \<Rightarrow> u8 list) from_le_bytes 32"
    using word_codec [where 'a = 256] by simp
  show "codec pubkey_to_bytes pubkey_from_bytes 32"
    using codec.length_enc [OF c] codec.dec_enc [OF c] codec.enc_dec [OF c]
    by unfold_locales (simp_all add: pubkey_to_bytes_def pubkey_from_bytes_def)
qed

text \<open>The macro \<open>pubkey!\<close>: a key from its base-58 spelling.\<close>

definition base58_alphabet :: string where
  "base58_alphabet = ''123456789ABCDEFGHJKLMNPQRSTUVWXYZabcdefghijkmnopqrstuvwxyz''"

definition base58_digit :: "char \<Rightarrow> nat" where
  "base58_digit c = length (takeWhile (\<lambda>d. d \<noteq> c) base58_alphabet)"

definition pubkey_of_base58 :: "string \<Rightarrow> pubkey" where
  "pubkey_of_base58 cs = of_nat (foldl (\<lambda>v c. 58 * v + base58_digit c) 0 cs)"

section \<open>Structures\<close>

lemma split_fields_concat: "map length xss = ns \<Longrightarrow> split_fields ns (concat xss) = xss"
  by (induction xss arbitrary: ns) auto

lemma bytes_split:
  assumes "length bs = sum_list ns"
  obtains xss where "map length xss = ns" and "bs = concat xss"
proof -
  have "\<exists>xss. map length xss = ns \<and> bs = concat xss"
    using assms
  proof (induction ns arbitrary: bs)
    case Nil
    then show ?case by simp
  next
    case (Cons n ns)
    then have "length (drop n bs) = sum_list ns"
      by simp
    then obtain xss where "map length xss = ns" and "drop n bs = concat xss"
      using Cons.IH by blast
    with Cons.prems have "map length (take n bs # xss) = n # ns \<and> bs = concat (take n bs # xss)"
      by (simp, metis append_take_drop_id)
    then show ?case by (rule exI)
  qed
  then show thesis using that by blast
qed

lemmas struct_simps =
  u8_codec.length_enc u32_codec.length_enc u64_codec.length_enc u128_codec.length_enc
  pubkey_codec.length_enc u48_codec.length_enc u56_codec.length_enc
  u48_codec.dec_enc u56_codec.dec_enc
  u8_codec.dec_enc u32_codec.dec_enc u64_codec.dec_enc u128_codec.dec_enc pubkey_codec.dec_enc

lemmas struct_inverse =
  u8_codec.enc_dec u32_codec.enc_dec u64_codec.enc_dec u128_codec.enc_dec pubkey_codec.enc_dec
  u48_codec.enc_dec u56_codec.enc_dec

end
