(* ===== verification/Runtime.thy ===== *)
theory Runtime
  imports Errors Codec
begin

text \<open>
  What the program sees of the Solana runtime: accounts, the references to them that an
  instruction is given, and the account checks of \<^verbatim>\<open>src/program/src/utils.rs\<close>.
\<close>

section \<open>Accounts\<close>

record account =
  lamports :: u64
  data :: "u8 list"
  owner :: pubkey

text \<open>
  The accounts of the chain by key; an address that was never used holds the empty account.
  The \<open>AccountInfo\<close>s of an instruction refer to them, so two references with the same key alias
  the same data.
\<close>

type_synonym ledger = "pubkey \<Rightarrow> account"

record account_info =
  key :: pubkey
  is_signer :: bool
  is_writable :: bool

definition put_data :: "pubkey \<Rightarrow> u8 list \<Rightarrow> ledger \<Rightarrow> ledger" where
  "put_data k bs L = L(k := (L k)\<lparr>data := bs\<rparr>)"

definition put_lamports :: "pubkey \<Rightarrow> u64 \<Rightarrow> ledger \<Rightarrow> ledger" where
  "put_lamports k n L = L(k := (L k)\<lparr>lamports := n\<rparr>)"

text \<open>\<open>next_account_info\<close> on an iterator over the accounts.\<close>

definition next_account_info ::
    "account_info list \<Rightarrow> (account_info \<times> account_info list) program_result" where
  "next_account_info accts =
     (case accts of [] \<Rightarrow> prog_fail NotEnoughAccountKeys | a # rest \<Rightarrow> Inr (a, rest))"

text \<open>\<open>next_account_info(..).ok()\<close>: an optional account at the end of the list.\<close>

definition next_optional :: "account_info list \<Rightarrow> account_info option \<times> account_info list" where
  "next_optional accts = (case accts of [] \<Rightarrow> (None, []) | a # rest \<Rightarrow> (Some a, rest))"

text \<open>
  Account data sits in a \<open>RefCell\<close>: borrowing the data of an account that is already mutably
  borrowed panics. \<open>held\<close> lists the accounts whose data is borrowed at that point.
\<close>

definition borrow :: "pubkey list \<Rightarrow> account_info \<Rightarrow> (program_error, unit) result" where
  "borrow held a = ensure (key a \<notin> set held) Panic"

text \<open>
  Emptying an account: the lamports of both accounts are mutably borrowed at once, so an account
  cannot be emptied into itself; the sum wraps.
\<close>

definition drain_lamports :: "account_info \<Rightarrow> account_info \<Rightarrow> ledger \<Rightarrow> ledger program_result" where
  "drain_lamports account target L =
     (if key account = key target then Inl Panic
      else Inr (put_lamports (key account) 0
        (put_lamports (key target)
          (lamports (L (key target)) + lamports (L (key account))) L)))"

section \<open>Account checks\<close>

definition check_account_key :: "account_info \<Rightarrow> pubkey \<Rightarrow> dex_error \<Rightarrow> unit dex_result" where
  "check_account_key account k error =
     (if key account \<noteq> k then Inl (Err error) else Inr ())"

definition check_account_owner ::
    "ledger \<Rightarrow> account_info \<Rightarrow> pubkey \<Rightarrow> dex_error \<Rightarrow> unit dex_result" where
  "check_account_owner L account own error =
     (if owner (L (key account)) \<noteq> own then Inl (Err error) else Inr ())"

definition check_signer :: "account_info \<Rightarrow> unit program_result" where
  "check_signer account =
     (if \<not> is_signer account then prog_fail MissingRequiredSignature else Inr ())"

section \<open>Lemmas\<close>

lemma put_data_simps [simp]:
  "data (put_data k bs L k) = bs"
  "owner (put_data k bs L k') = owner (L k')"
  "lamports (put_data k bs L k') = lamports (L k')"
  "k' \<noteq> k \<Longrightarrow> put_data k bs L k' = L k'"
  by (simp_all add: put_data_def)

lemma data_put_data: "data (put_data k bs L k') = (if k' = k then bs else data (L k'))"
  by (simp add: put_data_def)

lemma put_data_same [simp]: "put_data k (data (L k)) L = L"
  by (simp add: put_data_def fun_eq_iff)

lemma put_lamports_simps [simp]:
  "lamports (put_lamports k n L k) = n"
  "owner (put_lamports k n L k') = owner (L k')"
  "data (put_lamports k n L k') = data (L k')"
  "k' \<noteq> k \<Longrightarrow> put_lamports k n L k' = L k'"
  by (simp_all add: put_lamports_def)

lemma drain_lamports_eq_Inr:
  assumes "drain_lamports a t L = Inr L'"
  shows "key a \<noteq> key t" and "lamports (L' (key a)) = 0"
    and "lamports (L' (key t)) = lamports (L (key t)) + lamports (L (key a))"
    and "data (L' k) = data (L k)" and "owner (L' k) = owner (L k)"
    and "k \<noteq> key a \<Longrightarrow> k \<noteq> key t \<Longrightarrow> L' k = L k"
  using assms by (auto simp: drain_lamports_def split: if_splits)

lemma next_account_info_simps [simp]:
  "next_account_info [] = prog_fail NotEnoughAccountKeys"
  "next_account_info (a # rest) = Inr (a, rest)"
  by (simp_all add: next_account_info_def)

lemma next_account_info_eq_Inr [res_simps]:
  "next_account_info accts = Inr p \<longleftrightarrow> accts = fst p # snd p"
  by (cases accts; cases p) auto

lemma borrow_eq_Inr [res_simps]: "borrow held a = Inr u \<longleftrightarrow> key a \<notin> set held"
  by (simp add: borrow_def res_simps)

lemma check_account_key_eq_Inr [res_simps]:
  "check_account_key a k e = Inr u \<longleftrightarrow> key a = k"
  by (simp add: check_account_key_def)

lemma check_account_owner_eq_Inr [res_simps]:
  "check_account_owner L a k e = Inr u \<longleftrightarrow> owner (L (key a)) = k"
  by (simp add: check_account_owner_def)

lemma check_signer_eq_Inr [res_simps]: "check_signer a = Inr u \<longleftrightarrow> is_signer a"
  by (simp add: check_signer_def)

section \<open>The interface of a typed account\<close>

text \<open>
  The handlers read an account as a structure, change it and leave the changed structure in the
  account. \<open>valid\<close> is the tag the structure must carry to be read again.
\<close>

locale account_view =
  fixes load :: "ledger \<Rightarrow> pubkey \<Rightarrow> 'a program_result"
    and store :: "pubkey \<Rightarrow> 'a \<Rightarrow> ledger \<Rightarrow> ledger"
    and valid :: "'a \<Rightarrow> bool"
  assumes load_cong: "data (L k) = data (L' k) \<Longrightarrow> load L k = load L' k"
    and load_valid: "load L k = Inr x \<Longrightarrow> valid x"
    and load_store: "load L k = Inr y \<Longrightarrow> valid x \<Longrightarrow> load (store k x L) k = Inr x"
    and load_store_invalid: "load L k = Inr y \<Longrightarrow> \<not> valid x \<Longrightarrow> load (store k x L) k = prog_fail InvalidAccountData"
    and store_other: "k' \<noteq> k \<Longrightarrow> store k x L k' = L k'"
    and store_owner: "owner (store k x L k') = owner (L k')"
    and store_lamports: "lamports (store k x L k') = lamports (L k')"
    and store_load: "load L k = Inr x \<Longrightarrow> store k x L = L"
begin

lemma load_store_other: "k' \<noteq> k \<Longrightarrow> load (store k x L) k' = load L k'"
  by (rule load_cong) (simp add: store_other)

lemma load_put_other: "k' \<noteq> k \<Longrightarrow> load (put_data k bs L) k' = load L k'"
  by (rule load_cong) simp

lemma load_put_lamports: "load (put_lamports k n L) k' = load L k'"
  by (rule load_cong) simp

lemma store_closes:
  assumes "load L k = Inr y" and "\<not> valid x"
  shows "\<nexists>z. load (store k x L) k = Inr z"
  using load_store_invalid [OF assms] by simp

end

end
