(* ===== verification/State_Types.thy ===== *)
theory State_Types
  imports Runtime
begin

text \<open>
  The small enumerations of \<^verbatim>\<open>src/program/src/state.rs\<close> with their numeric values, and the
  callback information the exchange attaches to every order it places in the order book.
\<close>

section \<open>Account tags\<close>

datatype account_tag = Uninitialized | DexStateTag | UserAccountTag | Closed

fun account_tag_code :: "account_tag \<Rightarrow> u64" where
  "account_tag_code Uninitialized = 0"
| "account_tag_code DexStateTag = 1"
| "account_tag_code UserAccountTag = 2"
| "account_tag_code Closed = 3"

section \<open>Sides and self-trade behaviours\<close>

datatype side = Bid | Ask

fun side_code :: "side \<Rightarrow> u8" where
  "side_code Bid = 0"
| "side_code Ask = 1"

definition side_from_u8 :: "u8 \<Rightarrow> side option" where
  "side_from_u8 n = (if n = 0 then Some Bid else if n = 1 then Some Ask else None)"

datatype self_trade_behavior = DecrementTake | CancelProvide | AbortTransaction

definition self_trade_behavior_from_u8 :: "u8 \<Rightarrow> self_trade_behavior option" where
  "self_trade_behavior_from_u8 n =
     (if n = 0 then Some DecrementTake else if n = 1 then Some CancelProvide
      else if n = 2 then Some AbortTransaction else None)"

section \<open>Callback information\<close>

record callback_info =
  cb_user_account :: pubkey
  cb_fee_tier :: u8

text \<open>The callback identifier by which the order book recognises a self trade.\<close>

definition as_callback_id :: "callback_info \<Rightarrow> pubkey" where
  "as_callback_id info = cb_user_account info"

lemma side_from_u8_code [simp]: "side_from_u8 (side_code s) = Some s"
  by (cases s) (simp_all add: side_from_u8_def)

lemma side_from_u8_iff: "side_from_u8 n = Some s \<longleftrightarrow> n = side_code s"
  by (cases s) (auto simp: side_from_u8_def)

lemma side_code_inject [simp]: "side_code s = side_code t \<longleftrightarrow> s = t"
  by (cases s; cases t) simp_all

lemma account_tag_code_inject [simp]: "account_tag_code s = account_tag_code t \<longleftrightarrow> s = t"
  by (cases s; cases t) simp_all

end
