(* ===== verification/Externals.thy ===== *)
theory Externals
  imports State_Types
begin

text \<open>
  The code the program calls that is not part of the repository: the asset-agnostic order book
  (AOB), the SPL token program, the Metaplex token metadata program, the system program, the
  helper crate \<open>bonfida_utils\<close> and the runtime's address derivation and system variables.
  Each is a field of the record \<open>externals\<close>, built up crate by crate, and every handler takes such a record as an
  argument. The types are those of the values the program passes and reads.
\<close>

section \<open>Data of the external crates\<close>

record order_summary =
  posted_order_id :: "u128 option"
  total_base_qty :: u64
  total_quote_qty :: u64
  total_base_qty_posted :: u64

text \<open>Events of the order book's queue: the fields the program reads.\<close>

record fill_event =
  fe_taker_side :: u8
  fe_maker_order_id :: u128
  fe_quote_size :: u64
  fe_base_size :: u64

record out_event =
  oe_side :: u8
  oe_order_id :: u128
  oe_base_size :: u64

datatype event =
    Fill fill_event (maker_callback_info: callback_info) (taker_callback_info: callback_info)
  | Out out_event (out_callback_info: callback_info)

record aob_accounts =
  aob_market :: account_info
  aob_event_queue :: account_info
  aob_bids :: account_info
  aob_asks :: account_info

record aob_new_order_params =
  aob_max_base_qty :: u64
  aob_max_quote_qty :: u64
  aob_limit_price :: u64
  aob_side :: side
  aob_match_limit :: u64
  aob_callback_info :: callback_info
  aob_post_only :: bool
  aob_post_allowed :: bool
  aob_self_trade_behavior :: self_trade_behavior

record aob_market_state =
  aobm_event_queue :: pubkey
  aobm_tick_size :: u64

record token_account =
  ta_mint :: pubkey
  ta_owner :: pubkey
  ta_amount :: u64
  ta_delegate :: "pubkey option"
  ta_close_authority :: "pubkey option"

record creator =
  cr_address :: pubkey
  cr_verified :: bool
  cr_share :: u8

record metadata =
  md_seller_fee_basis_points :: u16
  md_creators :: "creator list option"

section \<open>Cross-program invocations of the token program\<close>

text \<open>
  An instruction built for the token program with the accounts and the signer seeds handed to
  \<open>invoke\<close> (no seeds) or \<open>invoke_signed\<close>. \<open>token_invoke\<close> below stands for the crate's
  instruction builder, which can fail, followed by the invocation.
\<close>

datatype token_instruction =
    Transfer (tr_source: pubkey) (tr_destination: pubkey) (tr_authority: pubkey) (tr_amount: u64)
  | CloseTokenAccount pubkey pubkey pubkey

record cpi =
  cpi_program :: pubkey
  cpi_instruction :: token_instruction
  cpi_accounts :: "account_info list"
  cpi_signers_seeds :: "u8 list list list"

section \<open>The external functions\<close>

record runtime_externals =
  system_program_id :: pubkey
  create_program_address :: "u8 list list \<Rightarrow> pubkey \<Rightarrow> pubkey program_result"
  find_program_address :: "u8 list list \<Rightarrow> pubkey \<Rightarrow> pubkey \<times> u8"
  clock_unix_timestamp :: "u64 program_result"
  rent_minimum_balance :: "u64 \<Rightarrow> u64 program_result"
  system_create_account ::
    "pubkey \<Rightarrow> pubkey \<Rightarrow> u64 \<Rightarrow> u64 \<Rightarrow> pubkey \<Rightarrow> account_info list \<Rightarrow> u8 list list list \<Rightarrow>
     ledger \<Rightarrow> ledger program_result"

record token_externals = runtime_externals +
  spl_token_id :: pubkey
  token_unpack :: "u8 list \<Rightarrow> token_account program_result"
  token_unpack_from_slice :: "u8 list \<Rightarrow> token_account program_result"
  token_invoke :: "pubkey \<Rightarrow> cpi \<Rightarrow> ledger \<Rightarrow> ledger program_result"

record metadata_externals = token_externals +
  mpl_token_metadata_id :: pubkey
  find_metadata_account :: "pubkey \<Rightarrow> pubkey"
  metadata_from_account_info :: "account \<Rightarrow> metadata program_result"

record bonfida_externals = metadata_externals +
  check_rent_exempt :: "account \<Rightarrow> unit program_result"
  check_token_account_owner :: "account \<Rightarrow> pubkey \<Rightarrow> unit program_result"
  bonfida_check_account_key :: "account_info \<Rightarrow> pubkey \<Rightarrow> unit program_result"
  bonfida_check_account_owner :: "account \<Rightarrow> pubkey \<Rightarrow> unit program_result"

record externals = bonfida_externals +
  event_queue_from_buffer :: "u8 list \<Rightarrow> event list program_result"
  market_state_from_buffer :: "u8 list \<Rightarrow> aob_market_state program_result"
  get_side_from_order_id :: "u128 \<Rightarrow> side"
  aob_create_market ::
    "pubkey \<Rightarrow> aob_accounts \<Rightarrow> u64 \<Rightarrow> u64 \<Rightarrow> ledger \<Rightarrow> ledger program_result"
  aob_new_order ::
    "pubkey \<Rightarrow> aob_accounts \<Rightarrow> aob_new_order_params \<Rightarrow> ledger \<Rightarrow>
     (order_summary \<times> ledger) program_result"
  aob_cancel_order ::
    "pubkey \<Rightarrow> aob_accounts \<Rightarrow> u128 \<Rightarrow> ledger \<Rightarrow> (order_summary \<times> ledger) program_result"
  aob_consume_events ::
    "pubkey \<Rightarrow> account_info \<Rightarrow> account_info \<Rightarrow> u64 \<Rightarrow> ledger \<Rightarrow> ledger program_result"
  aob_close_market ::
    "pubkey \<Rightarrow> aob_accounts \<Rightarrow> account_info \<Rightarrow> ledger \<Rightarrow> ledger program_result"

text \<open>An error of the order book is printed and replaced by \<open>DexError::AOBError\<close>.\<close>

definition or_aob_error :: "'a program_result \<Rightarrow> 'a program_result" where
  "or_aob_error m = map_err (\<lambda>_. from_dex_error AOBError) m"

lemma or_aob_error_eq_Inr [res_simps]: "or_aob_error m = Inr y \<longleftrightarrow> m = Inr y"
  by (simp add: or_aob_error_def res_simps)

lemma or_aob_error_Inr [simp]: "or_aob_error (Inr x) = Inr x"
  by (simp add: or_aob_error_def)

end
