(* ===== verification/Fixed_Point.thy ===== *)
theory Fixed_Point
  imports Prelude
begin

text \<open>
  The 32-bit fixed-point arithmetic of \<^verbatim>\<open>src/program/src/utils.rs\<close>: prices and fee rates are
  integers scaled by $2^{32}$, amounts are plain integers, and the products go through 128 bits.
\<close>

section \<open>Definitions\<close>

definition FP_32_ONE :: u64 where
  "FP_32_ONE = push_bit 32 1"

definition safe_downcast :: "u128 \<Rightarrow> u64 option" where
  "safe_downcast n =
     (let bound = ucast (- 1 :: u64) in if bound < n then None else Some (ucast n))"

definition fp32_div :: "u64 \<Rightarrow> u64 \<Rightarrow> u64 option" where
  "fp32_div a b_fp32 =
     Option.bind (checked_div (push_bit 32 (ucast a :: u128)) (ucast b_fp32)) safe_downcast"

definition fp32_mul :: "u64 \<Rightarrow> u64 \<Rightarrow> u64 option" where
  "fp32_mul a b_fp32 =
     Option.bind (checked_mul (ucast a :: u128) (ucast b_fp32)) (\<lambda>e. safe_downcast (drop_bit 32 e))"

section \<open>Exact characterisation on natural numbers\<close>

lemma FP_32_ONE_unat [simp]: "unat FP_32_ONE = 2 ^ 32"
  by (simp add: FP_32_ONE_def)

lemma unat_ucast_u128 [simp]: "unat (ucast (a :: u64) :: u128) = unat a"
  by (simp add: unsigned_ucast_eq take_bit_nat_eq_self_iff order_less_trans [OF unat_u64])

lemma unat_ucast_u64_small: "unat (n :: u128) < 2 ^ 64 \<Longrightarrow> unat (ucast n :: u64) = unat n"
  by (simp add: unsigned_ucast_eq take_bit_nat_eq_self_iff)

lemma safe_downcast_iff: "safe_downcast n = Some c \<longleftrightarrow> unat n = unat c"
proof -
  have "(ucast (- 1 :: u64) :: u128) < n \<longleftrightarrow> 2 ^ 64 \<le> unat n"
    by (simp add: word_less_nat_alt unsigned_minus_1_eq_mask mask_eq_exp_minus_1)
      linarith
  then have "safe_downcast n = (if unat n < 2 ^ 64 then Some (ucast n) else None)"
    by (simp add: safe_downcast_def Let_def not_less)
  then show ?thesis
    using unat_u64 [of c] by (auto simp: unat_ucast_u64_small word_unat_eq_iff)
qed

lemma safe_downcast_eval:
  "safe_downcast n = (if 18446744073709551615 < n then None else Some (ucast n))"
  by (simp add: safe_downcast_def unsigned_minus_1_eq_mask mask_eq_exp_minus_1)

lemma shifted_u64: "unat (push_bit 32 (ucast (a :: u64) :: u128)) = unat a * 2 ^ 32"
proof -
  have "unat a * 2 ^ 32 < 2 ^ 128"
    using unat_u64 [of a] by simp
  then show ?thesis
    by (simp add: push_bit_eq_mult unat_word_ariths mult.commute)
qed

lemma product_u64: "checked_mul (ucast (a :: u64) :: u128) (ucast (b :: u64)) = Some (ucast a * ucast b)"
  and unat_product_u64: "unat (ucast a * ucast b :: u128) = unat a * unat b"
proof -
  have "unat a * unat b < 2 ^ 64 * 2 ^ 64"
    using unat_u64 [of a] unat_u64 [of b] by (intro mult_strict_mono) simp_all
  then have lt: "unat a * unat b < 2 ^ 128"
    by simp
  then show "checked_mul (ucast a :: u128) (ucast b) = Some (ucast a * ucast b)"
    by (simp add: checked_mul_def)
  from lt show "unat (ucast a * ucast b :: u128) = unat a * unat b"
    by (simp add: unat_word_ariths)
qed

lemma unat_shift_right: "unat (drop_bit n (w :: 'a::len word)) = unat w div 2 ^ n"
  by (simp add: unat_drop_bit_eq) (simp add: drop_bit_eq_div)

lemma fp32_mul_iff: "fp32_mul a b = Some c \<longleftrightarrow> unat c = unat a * unat b div 2 ^ 32"
  by (auto simp only: fp32_mul_def product_u64 safe_downcast_iff unat_shift_right
      unat_product_u64 Option.bind.simps)

lemma fp32_div_iff:
  "fp32_div a b = Some c \<longleftrightarrow> b \<noteq> 0 \<and> unat c = unat a * 2 ^ 32 div unat b"
proof (cases "b = 0")
  case True
  then show ?thesis by (simp add: fp32_div_def checked_div_def)
next
  case False
  then have "(ucast b :: u128) \<noteq> 0"
    by (metis unat_ucast_u128 unat_eq_zero unsigned_0)
  with False show ?thesis
    by (auto simp: fp32_div_def checked_div_def safe_downcast_iff unat_div shifted_u64)
qed

lemma ex_u64: "n < 2 ^ 64 \<Longrightarrow> \<exists>c :: u64. unat c = n"
  by (rule exI [of _ "of_nat n"]) (simp add: unat_of_nat)

lemma fp32_mul_total: "unat b \<le> 2 ^ 32 \<Longrightarrow> \<exists>c. fp32_mul a b = Some c"
proof -
  assume "unat b \<le> 2 ^ 32"
  then have "unat a * unat b div 2 ^ 32 \<le> unat a * 2 ^ 32 div 2 ^ 32"
    by (intro div_le_mono mult_le_mono2)
  then show ?thesis
    using unat_u64 [of a] ex_u64 [of "unat a * unat b div 2 ^ 32"] by (auto simp: fp32_mul_iff)
qed

lemma fp32_div_total: "2 ^ 32 \<le> unat b \<Longrightarrow> \<exists>c. fp32_div a b = Some c"
proof -
  assume b: "2 ^ 32 \<le> unat b"
  then have "unat a * 2 ^ 32 div unat b \<le> unat a * 2 ^ 32 div 2 ^ 32"
    by (intro div_le_mono2) simp_all
  moreover from b have "b \<noteq> 0"
    by auto
  ultimately show ?thesis
    using unat_u64 [of a] ex_u64 [of "unat a * 2 ^ 32 div unat b"] by (auto simp: fp32_div_iff)
qed

text \<open>Floors of sums: splitting an amount never raises the total of the rounded-down parts.\<close>

lemma floor_superadditive:
  fixes q :: "nat list"
  shows "(\<Sum>x\<leftarrow>q. x * r div d) \<le> sum_list q * r div d"
proof (induction q)
  case (Cons x q)
  have "x * r div d + sum_list q * r div d \<le> (x * r + sum_list q * r) div d"
    by (subst div_add1_eq) simp
  with Cons show ?case
    by (simp add: add_mult_distrib)
qed simp

end
