(* ===== verification/Market_State.thy ===== *)
theory Market_State
  imports Externals Fixed_Point
begin

text \<open>
  The market account, \<open>DexState\<close> of \<^verbatim>\<open>src/program/src/state.rs\<close>: its structure and byte layout,
  how it is loaded from an account, and the conversion between token amounts and the scaled
  units of the order book. The creation timestamp, an \<open>i64\<close>, is kept as its 64 bits.
\<close>

section \<open>The structure\<close>

record dex_state =
  ds_tag :: u64
  ds_base_mint :: pubkey
  ds_quote_mint :: pubkey
  ds_base_vault :: pubkey
  ds_quote_vault :: pubkey
  ds_orderbook :: pubkey
  ds_admin :: pubkey
  ds_creation_timestamp :: u64
  ds_base_volume :: u64
  ds_quote_volume :: u64
  ds_accumulated_fees :: u64
  ds_min_base_order_size :: u64
  ds_royalties_bps :: u64
  ds_accumulated_royalties :: u64
  ds_base_currency_multiplier :: u64
  ds_quote_currency_multiplier :: u64
  ds_signer_nonce :: u8
  ds_fee_type :: u8
  ds_padding :: "u8 \<times> u8 \<times> u8 \<times> u8 \<times> u8 \<times> u8"

definition dex_state_layout :: "nat list" where
  "dex_state_layout = [8, 32, 32, 32, 32, 32, 32, 8, 8, 8, 8, 8, 8, 8, 8, 8, 1, 1, 1, 1, 1, 1, 1, 1]"

definition DEX_STATE_LEN :: nat where
  "DEX_STATE_LEN = sum_list dex_state_layout"

definition dex_state_bytes :: "dex_state \<Rightarrow> u8 list" where
  "dex_state_bytes s =
     (case ds_padding s of (p0, p1, p2, p3, p4, p5) \<Rightarrow>
      concat
        [to_le_bytes (ds_tag s), pubkey_to_bytes (ds_base_mint s),
         pubkey_to_bytes (ds_quote_mint s), pubkey_to_bytes (ds_base_vault s),
         pubkey_to_bytes (ds_quote_vault s), pubkey_to_bytes (ds_orderbook s),
         pubkey_to_bytes (ds_admin s), to_le_bytes (ds_creation_timestamp s),
         to_le_bytes (ds_base_volume s), to_le_bytes (ds_quote_volume s),
         to_le_bytes (ds_accumulated_fees s), to_le_bytes (ds_min_base_order_size s),
         to_le_bytes (ds_royalties_bps s), to_le_bytes (ds_accumulated_royalties s),
         to_le_bytes (ds_base_currency_multiplier s), to_le_bytes (ds_quote_currency_multiplier s),
         to_le_bytes (ds_signer_nonce s), to_le_bytes (ds_fee_type s), to_le_bytes p0,
         to_le_bytes p1, to_le_bytes p2, to_le_bytes p3, to_le_bytes p4, to_le_bytes p5])"

definition dex_state_of_bytes :: "u8 list \<Rightarrow> dex_state" where
  "dex_state_of_bytes bs =
     (let f = (!) (split_fields dex_state_layout bs) in
      \<lparr>ds_tag = from_le_bytes (f 0), ds_base_mint = pubkey_from_bytes (f 1),
       ds_quote_mint = pubkey_from_bytes (f 2), ds_base_vault = pubkey_from_bytes (f 3),
       ds_quote_vault = pubkey_from_bytes (f 4), ds_orderbook = pubkey_from_bytes (f 5),
       ds_admin = pubkey_from_bytes (f 6), ds_creation_timestamp = from_le_bytes (f 7),
       ds_base_volume = from_le_bytes (f 8), ds_quote_volume = from_le_bytes (f 9),
       ds_accumulated_fees = from_le_bytes (f 10), ds_min_base_order_size = from_le_bytes (f 11),
       ds_royalties_bps = from_le_bytes (f 12), ds_accumulated_royalties = from_le_bytes (f 13),
       ds_base_currency_multiplier = from_le_bytes (f 14),
       ds_quote_currency_multiplier = from_le_bytes (f 15),
       ds_signer_nonce = from_le_bytes (f 16), ds_fee_type = from_le_bytes (f 17),
       ds_padding =
         (from_le_bytes (f 18), from_le_bytes (f 19), from_le_bytes (f 20),
          from_le_bytes (f 21), from_le_bytes (f 22), from_le_bytes (f 23))\<rparr>)"

interpretation dex_state_codec: codec dex_state_bytes dex_state_of_bytes DEX_STATE_LEN
proof
  fix x :: dex_state and bs :: "u8 list"
  obtain p0 p1 p2 p3 p4 p5 where p: "ds_padding x = (p0, p1, p2, p3, p4, p5)"
    by (cases "ds_padding x") auto
  show "length (dex_state_bytes x) = DEX_STATE_LEN"
    by (simp add: p dex_state_bytes_def DEX_STATE_LEN_def dex_state_layout_def struct_simps)
  show "dex_state_of_bytes (dex_state_bytes x) = x"
    unfolding p dex_state_bytes_def prod.case dex_state_of_bytes_def
    by (subst split_fields_concat)
      (simp_all add: Let_def dex_state_layout_def struct_simps flip: p)
  assume "length bs = DEX_STATE_LEN"
  then obtain xss where "map length xss = dex_state_layout" and bs: "bs = concat xss"
    by (auto simp: DEX_STATE_LEN_def elim: bytes_split)
  then show "dex_state_bytes (dex_state_of_bytes bs) = bs"
    by (simp add: dex_state_of_bytes_def split_fields_concat)
      (auto simp: dex_state_bytes_def Let_def dex_state_layout_def map_eq_Cons_conv struct_inverse)
qed

section \<open>Loading and storing the market account\<close>

definition dex_state_get_unchecked :: "u8 list \<Rightarrow> dex_state program_result" where
  "dex_state_get_unchecked s =
     (if length s < DEX_STATE_LEN then Inl Panic
      else Inr (dex_state_of_bytes (take DEX_STATE_LEN s)))"

definition dex_state_get :: "ledger \<Rightarrow> pubkey \<Rightarrow> dex_state program_result" where
  "dex_state_get L k =
     and_then (dex_state_get_unchecked (data (L k))) (\<lambda>a.
       if ds_tag a \<noteq> account_tag_code DexStateTag then prog_fail InvalidAccountData else Inr a)"

text \<open>The effect of assignments through the \<open>RefMut\<close> that \<open>get\<close> returns.\<close>

definition dex_state_put :: "pubkey \<Rightarrow> dex_state \<Rightarrow> ledger \<Rightarrow> ledger" where
  "dex_state_put k s L = put_data k (dex_state_bytes s @ drop DEX_STATE_LEN (data (L k))) L"

text \<open>The seeds with which the program signs for the market's vaults.\<close>

definition market_signer_seeds :: "account_info \<Rightarrow> dex_state \<Rightarrow> u8 list list" where
  "market_signer_seeds market s = [pubkey_to_bytes (key market), [ds_signer_nonce s]]"

section \<open>Token amounts and order book units\<close>

definition scale_quote_amount :: "dex_state \<Rightarrow> u64 \<Rightarrow> u64 program_result" where
  "scale_quote_amount s raw_quote_amount =
     div_or_panic raw_quote_amount (ds_quote_currency_multiplier s)"

definition scale_base_amount :: "dex_state \<Rightarrow> u64 \<Rightarrow> u64 program_result" where
  "scale_base_amount s raw_base_amount =
     div_or_panic raw_base_amount (ds_base_currency_multiplier s)"

definition unscale_quote_amount :: "dex_state \<Rightarrow> u64 \<Rightarrow> u64 option" where
  "unscale_quote_amount s scaled_quote_amount =
     checked_mul scaled_quote_amount (ds_quote_currency_multiplier s)"

definition unscale_base_amount :: "dex_state \<Rightarrow> u64 \<Rightarrow> u64 option" where
  "unscale_base_amount s scaled_base_amount =
     checked_mul scaled_base_amount (ds_base_currency_multiplier s)"

definition unscale_order_summary :: "dex_state \<Rightarrow> order_summary \<Rightarrow> order_summary option" where
  "unscale_order_summary s summary = do {
     base \<leftarrow> unscale_base_amount s (total_base_qty summary);
     posted \<leftarrow> unscale_base_amount s (total_base_qty_posted summary);
     quote \<leftarrow> unscale_quote_amount s (total_quote_qty summary);
     Some (summary\<lparr>total_base_qty := base, total_base_qty_posted := posted,
                   total_quote_qty := quote\<rparr>)
   }"

definition get_quote_from_base :: "dex_state \<Rightarrow> u64 \<Rightarrow> u64 \<Rightarrow> u64 option" where
  "get_quote_from_base s raw_base_amount scaled_price_fp32 = do {
     n \<leftarrow> fp32_mul raw_base_amount scaled_price_fp32;
     n \<leftarrow> checked_mul (ucast n :: u128) (ucast (ds_quote_currency_multiplier s));
     n \<leftarrow> checked_div n (ucast (ds_base_currency_multiplier s));
     safe_downcast n
   }"

section \<open>The market account is a typed account\<close>

definition market_valid :: "dex_state \<Rightarrow> bool" where
  "market_valid s \<longleftrightarrow> ds_tag s = account_tag_code DexStateTag"

lemma dex_state_get_eq_Inr:
  "dex_state_get L k = Inr s \<longleftrightarrow>
     DEX_STATE_LEN \<le> length (data (L k)) \<and> s = dex_state_of_bytes (take DEX_STATE_LEN (data (L k)))
     \<and> market_valid s"
  by (auto simp: dex_state_get_def dex_state_get_unchecked_def market_valid_def res_simps)

interpretation market: account_view dex_state_get dex_state_put market_valid
proof
  fix L L' :: ledger and k k' x y
  show "data (L k) = data (L' k) \<Longrightarrow> dex_state_get L k = dex_state_get L' k"
    by (simp add: dex_state_get_def)
  show "dex_state_get L k = Inr x \<Longrightarrow> market_valid x"
    using dex_state_get_eq_Inr by blast
  show "dex_state_get L k = Inr y \<Longrightarrow> market_valid x \<Longrightarrow> dex_state_get (dex_state_put k x L) k = Inr x"
    by (simp add: dex_state_get_eq_Inr dex_state_put_def dex_state_codec.length_enc
        dex_state_codec.dec_enc)
  show "dex_state_get L k = Inr y \<Longrightarrow> \<not> market_valid x \<Longrightarrow>
      dex_state_get (dex_state_put k x L) k = prog_fail InvalidAccountData"
    by (simp add: dex_state_get_def dex_state_get_unchecked_def market_valid_def dex_state_put_def
        dex_state_codec.length_enc dex_state_codec.dec_enc)
  show "k' \<noteq> k \<Longrightarrow> dex_state_put k x L k' = L k'"
    and "owner (dex_state_put k x L k') = owner (L k')"
    and "lamports (dex_state_put k x L k') = lamports (L k')"
    by (simp_all add: dex_state_put_def)
  assume "dex_state_get L k = Inr x"
  then have "dex_state_bytes x @ drop DEX_STATE_LEN (data (L k)) = data (L k)"
    by (simp add: dex_state_get_eq_Inr dex_state_codec.enc_dec)
  then show "dex_state_put k x L = L"
    by (simp add: dex_state_put_def)
qed

text \<open>A freshly written market account reads back as what was written.\<close>

lemma dex_state_get_written:
  "data (L k) = dex_state_bytes s @ rest \<Longrightarrow> market_valid s \<Longrightarrow> dex_state_get L k = Inr s"
  by (simp add: dex_state_get_eq_Inr dex_state_codec.length_enc dex_state_codec.dec_enc)

section \<open>Arithmetic of the conversions\<close>

lemma unscale_order_summary_eq_Some:
  "unscale_order_summary s summary = Some t \<longleftrightarrow>
     posted_order_id t = posted_order_id summary \<and>
     unat (total_base_qty t) = unat (total_base_qty summary) * unat (ds_base_currency_multiplier s) \<and>
     unat (total_base_qty_posted t)
       = unat (total_base_qty_posted summary) * unat (ds_base_currency_multiplier s) \<and>
     unat (total_quote_qty t) = unat (total_quote_qty summary) * unat (ds_quote_currency_multiplier s)"
  by (cases t; cases summary)
    (auto simp: unscale_order_summary_def unscale_base_amount_def unscale_quote_amount_def
      checked_simps bind_eq_Some_conv)

lemma get_quote_from_base_iff:
  "get_quote_from_base s b p = Some q \<longleftrightarrow>
     (\<exists>n. fp32_mul b p = Some n) \<and> ds_base_currency_multiplier s \<noteq> 0 \<and>
     unat q = (unat b * unat p div 2 ^ 32) * unat (ds_quote_currency_multiplier s)
              div unat (ds_base_currency_multiplier s)"
proof (cases "fp32_mul b p")
  case (Some n)
  have "ucast (ds_base_currency_multiplier s) = (0 :: u128) \<longleftrightarrow> ds_base_currency_multiplier s = 0"
    by (metis unat_ucast_u128 unat_eq_zero unsigned_0)
  moreover from Some have "unat n = unat b * unat p div 2 ^ 32"
    by (simp only: fp32_mul_iff)
  ultimately show ?thesis
    using Some
    by (auto simp: get_quote_from_base_def product_u64 checked_div_def safe_downcast_iff unat_div
        unat_product_u64)
qed (simp add: get_quote_from_base_def)


lemma scale_base_amount_eq_Inr [res_simps]:
  "scale_base_amount s x = Inr y \<longleftrightarrow>
     ds_base_currency_multiplier s \<noteq> 0 \<and> y = x div ds_base_currency_multiplier s"
  by (simp add: scale_base_amount_def res_simps)

lemma scale_quote_amount_eq_Inr [res_simps]:
  "scale_quote_amount s x = Inr y \<longleftrightarrow>
     ds_quote_currency_multiplier s \<noteq> 0 \<and> y = x div ds_quote_currency_multiplier s"
  by (simp add: scale_quote_amount_def res_simps)

text \<open>Scaling down and back up loses less than one multiplier and never gains.\<close>

lemma unscale_scale_le:
  fixes x m n :: u64
  assumes "unat n \<le> unat (x div m)"
  shows "unat n * unat m \<le> unat x"
proof -
  have "unat n * unat m \<le> unat x div unat m * unat m"
    using assms by (simp add: unat_div)
  also have "\<dots> \<le> unat x"
    by simp
  finally show ?thesis .
qed

text \<open>
  The quote value of a base amount that is a whole number of order book units is at least the
  quote value the order book computes in its own units: the two roundings differ.
\<close>

lemma get_quote_from_base_ge_scaled:
  assumes "get_quote_from_base s b p = Some q"
    and "unat b = n * unat (ds_base_currency_multiplier s)"
  shows "(n * unat p div 2 ^ 32) * unat (ds_quote_currency_multiplier s) \<le> unat q"
proof -
  let ?m = "unat (ds_base_currency_multiplier s)" and ?c = "unat (ds_quote_currency_multiplier s)"
  have m: "?m > 0"
    and q: "unat q = (unat b * unat p div 2 ^ 32) * ?c div ?m"
    using assms(1) by (auto simp: get_quote_from_base_iff unat_gt_0)
  have "n * unat p div 2 ^ 32 * ?m \<le> n * unat p * ?m div 2 ^ 32"
    using floor_superadditive [of 1 "2 ^ 32" "replicate ?m (n * unat p)"]
    by (simp add: sum_list_replicate mult.commute)
  then have "(n * unat p div 2 ^ 32 * ?m) * ?c div ?m \<le> unat q"
    unfolding q assms(2) by (intro div_le_mono mult_le_mono1) (simp add: mult.commute mult.left_commute)
  then show ?thesis
    using m by (simp add: mult.commute mult.left_commute)
qed

text \<open>
  The quote value at which the order book itself accounts for the posted part of an order: the book
  computes in scaled quantities and rounds before the multiplier is applied. The exchange's own
  value is never smaller and larger by less than one multiplier.
\<close>

definition book_posted_quote :: "dex_state \<Rightarrow> u64 \<Rightarrow> nat \<Rightarrow> nat" where
  "book_posted_quote s price base_posted =
     (base_posted div unat (ds_base_currency_multiplier s) * unat price div 2 ^ 32)
       * unat (ds_quote_currency_multiplier s)"

lemma posted_quote_near:
  assumes "get_quote_from_base s b p = Some q"
    and "unat (ds_base_currency_multiplier s) dvd unat b" and "ds_quote_currency_multiplier s \<noteq> 0"
  shows "book_posted_quote s p (unat b) \<le> unat q"
    and "unat q < book_posted_quote s p (unat b) + unat (ds_quote_currency_multiplier s)"
proof -
  let ?m = "unat (ds_base_currency_multiplier s)" and ?c = "unat (ds_quote_currency_multiplier s)"
  obtain n where n: "unat b = n * ?m"
    using assms(2) by (auto simp: dvd_def mult.commute)
  have m: "?m > 0" and c: "?c > 0" and q: "unat q = (unat b * unat p div 2 ^ 32) * ?c div ?m"
    using assms(1,3) by (auto simp: get_quote_from_base_iff unat_gt_0)
  have book: "book_posted_quote s p (unat b) = (n * unat p div 2 ^ 32) * ?c"
    using m by (simp add: book_posted_quote_def n)
  show "book_posted_quote s p (unat b) \<le> unat q"
    unfolding book by (rule get_quote_from_base_ge_scaled [OF assms(1) n])
  let ?f = "n * unat p div 2 ^ 32"
  have "n * unat p < (?f + 1) * 2 ^ 32"
    using dividend_less_div_times [of "2 ^ 32" "n * unat p"] by simp
  then have "unat b * unat p < (?f + 1) * ?m * 2 ^ 32"
    using m mult_strict_right_mono [of "n * unat p" "(?f + 1) * 2 ^ 32" ?m] by (simp only: n mult_ac)
  then have "unat b * unat p div 2 ^ 32 < (?f + 1) * ?m"
    by (simp only: less_mult_imp_div_less)
  from mult_strict_right_mono [OF this c]
  have "(unat b * unat p div 2 ^ 32) * ?c < ((?f + 1) * ?c) * ?m"
    by (simp only: mult_ac)
  then have "unat q < (?f + 1) * ?c"
    unfolding q by (rule less_mult_imp_div_less)
  then show "unat q < book_posted_quote s p (unat b) + ?c"
    by (simp add: book)
qed

end
