(* ===== verification/Fee_Tier.thy ===== *)
theory Fee_Tier
  imports Market_State
begin

text \<open>
  Fee tiers (\<^verbatim>\<open>src/program/src/state.rs\<close>) and the constants of
  \<^verbatim>\<open>src/program/src/processor.rs\<close> they use: how the tier of a taker is found, how it is packed
  into one byte of callback information, and the fees it sets.
\<close>

section \<open>Constants\<close>

definition SRM_MINT :: pubkey where
  "SRM_MINT = pubkey_of_base58 ''SRMuApVNdxXokk5GT7XD5cUUgXMBCoAz2LHeuAoKWRt''"

definition MSRM_MINT :: pubkey where
  "MSRM_MINT = pubkey_of_base58 ''MSRMcoVyrFxnSgo5uXwone5SKcGhT1KEJMFEkMEWf9L''"

definition SWEEP_AUTHORITY :: pubkey where
  "SWEEP_AUTHORITY = pubkey_of_base58 ''DjXsn34uz8hnC4KLiSkEVNmzqX5ZFP2Q7aErTBH8LWxe''"

definition REFERRAL_MASK :: u8 where
  "REFERRAL_MASK = push_bit 7 1"

section \<open>Tiers\<close>

datatype market_fee_type = DefaultFees | StableFees

fun market_fee_type_code :: "market_fee_type \<Rightarrow> u8" where
  "market_fee_type_code DefaultFees = 0"
| "market_fee_type_code StableFees = 1"

datatype fee_tier = Base | Srm2 | Srm3 | Srm4 | Srm5 | Srm6 | MSrm | Stable

fun fee_tier_code :: "fee_tier \<Rightarrow> u8" where
  "fee_tier_code Base = 0"
| "fee_tier_code Srm2 = 1"
| "fee_tier_code Srm3 = 2"
| "fee_tier_code Srm4 = 3"
| "fee_tier_code Srm5 = 4"
| "fee_tier_code Srm6 = 5"
| "fee_tier_code MSrm = 6"
| "fee_tier_code Stable = 7"

definition from_srm_and_msrm_balances :: "dex_state \<Rightarrow> u64 \<Rightarrow> u64 \<Rightarrow> fee_tier" where
  "from_srm_and_msrm_balances s srm_held msrm_held =
     (let one_srm = 1000000 in
      if ds_fee_type s = market_fee_type_code StableFees then Stable
      else if msrm_held \<ge> 1 then MSrm
      else if srm_held \<ge> one_srm * 1000000 then Srm6
      else if srm_held \<ge> one_srm * 100000 then Srm5
      else if srm_held \<ge> one_srm * 10000 then Srm4
      else if srm_held \<ge> one_srm * 1000 then Srm3
      else if srm_held \<ge> one_srm * 100 then Srm2
      else Base)"

text \<open>The byte of a callback: the tier, and in the top bit whether the order was referred.\<close>

definition pack_fee_tier :: "fee_tier \<Rightarrow> bool \<Rightarrow> u8" where
  "pack_fee_tier tier is_referred = or (fee_tier_code tier) (of_bool is_referred * REFERRAL_MASK)"

definition fee_tier_from_u8 :: "u8 \<Rightarrow> ('e, fee_tier \<times> bool) result" where
  "fee_tier_from_u8 tag =
     (let is_referred = and tag REFERRAL_MASK \<noteq> 0; t = and tag (not REFERRAL_MASK) in
      and_then
        (if t = 0 then Inr Base else if t = 1 then Inr Srm2 else if t = 2 then Inr Srm3
         else if t = 3 then Inr Srm4 else if t = 4 then Inr Srm5 else if t = 5 then Inr Srm6
         else Inl Panic) (\<lambda>tier.
      Inr (tier, is_referred)))"

definition fee_tier_get ::
    "externals \<Rightarrow> pubkey list \<Rightarrow> ledger \<Rightarrow> dex_state \<Rightarrow> account_info \<Rightarrow> pubkey \<Rightarrow>
     fee_tier program_result" where
  "fee_tier_get env held L s account expected_owner =
     and_then (borrow held account) (\<lambda>_.
     and_then (token_unpack env (data (L (key account)))) (\<lambda>parsed.
     if ta_owner parsed \<noteq> expected_owner then prog_fail InvalidArgument
     else and_then
       (if ta_mint parsed = MSRM_MINT then Inr (0, ta_amount parsed)
        else if ta_mint parsed = SRM_MINT then Inr (ta_amount parsed, 0)
        else prog_fail InvalidArgument) (\<lambda>(srm_held, msrm_held).
     Inr (from_srm_and_msrm_balances s srm_held msrm_held))))"

section \<open>Rates and fees\<close>

fun taker_rate :: "fee_tier \<Rightarrow> u64" where
  "taker_rate Base = push_bit 32 40 div 100000"
| "taker_rate Srm2 = push_bit 32 39 div 100000"
| "taker_rate Srm3 = push_bit 32 38 div 100000"
| "taker_rate Srm4 = push_bit 32 36 div 100000"
| "taker_rate Srm5 = push_bit 32 34 div 100000"
| "taker_rate Srm6 = push_bit 32 32 div 100000"
| "taker_rate MSrm = push_bit 32 30 div 100000"
| "taker_rate Stable = push_bit 32 10 div 100000"

definition maker_rate :: "fee_tier \<Rightarrow> u64" where
  "maker_rate tier = 0"

definition maker_rebate :: "fee_tier \<Rightarrow> u64 \<Rightarrow> u64" where
  "maker_rebate tier quote_qty = 0"

definition remove_taker_fee :: "fee_tier \<Rightarrow> u64 \<Rightarrow> ('e, u64) result" where
  "remove_taker_fee tier quote_qty =
     (let rate = taker_rate tier in unwrap (fp32_div quote_qty (FP_32_ONE + rate)))"

definition taker_fee :: "fee_tier \<Rightarrow> u64 \<Rightarrow> ('e, u64) result" where
  "taker_fee tier quote_qty =
     (let rate = taker_rate tier in unwrap (fp32_mul quote_qty rate))"

definition referral_rate :: "fee_tier \<Rightarrow> u64" where
  "referral_rate tier =
     (let min_maker_rebate = maker_rate Base
      in saturating_sub (taker_rate tier) min_maker_rebate div 5)"

definition referral_fee :: "fee_tier \<Rightarrow> u64 \<Rightarrow> ('e, u64) result" where
  "referral_fee tier quote_qty =
     (let rate = referral_rate tier in unwrap (fp32_mul quote_qty rate))"

section \<open>The rates as numbers\<close>

fun taker_rate_nat :: "fee_tier \<Rightarrow> nat" where
  "taker_rate_nat Base = 1717986"
| "taker_rate_nat Srm2 = 1675037"
| "taker_rate_nat Srm3 = 1632087"
| "taker_rate_nat Srm4 = 1546188"
| "taker_rate_nat Srm5 = 1460288"
| "taker_rate_nat Srm6 = 1374389"
| "taker_rate_nat MSrm = 1288490"
| "taker_rate_nat Stable = 429496"

lemma unat_taker_rate: "unat (taker_rate tier) = taker_rate_nat tier"
  by (cases tier) (simp_all add: unat_div)

lemma taker_rate_nat_le: "taker_rate_nat tier \<le> 1717986"
  by (cases tier) simp_all

lemma unat_referral_rate: "unat (referral_rate tier) = taker_rate_nat tier div 5"
  by (simp add: referral_rate_def maker_rate_def unat_div unat_saturating_sub unat_taker_rate)

lemma unat_one_plus_rate: "unat (FP_32_ONE + taker_rate tier) = 2 ^ 32 + taker_rate_nat tier"
  using taker_rate_nat_le [of tier]
  by (subst unat_add_exact) (simp_all add: unat_taker_rate)

lemma taker_fee_iff:
  "taker_fee tier q = Inr f \<longleftrightarrow> unat f = unat q * taker_rate_nat tier div 2 ^ 32"
  by (simp only: taker_fee_def Let_def unwrap_eq_Inr fp32_mul_iff unat_taker_rate)

lemma referral_fee_iff:
  "referral_fee tier q = Inr f \<longleftrightarrow> unat f = unat q * (taker_rate_nat tier div 5) div 2 ^ 32"
  by (simp only: referral_fee_def Let_def unwrap_eq_Inr fp32_mul_iff unat_referral_rate)

lemma remove_taker_fee_iff:
  "remove_taker_fee tier q = Inr r \<longleftrightarrow> unat r = unat q * 2 ^ 32 div (2 ^ 32 + taker_rate_nat tier)"
proof -
  have "FP_32_ONE + taker_rate tier \<noteq> 0"
    using unat_one_plus_rate [of tier] by auto
  then show ?thesis
    by (simp only: remove_taker_fee_def Let_def unwrap_eq_Inr fp32_div_iff unat_one_plus_rate simp_thms)
qed

lemma taker_fee_total: "\<exists>f. taker_fee tier q = Inr f"
  using fp32_mul_total [of "taker_rate tier" q] taker_rate_nat_le [of tier]
  by (auto simp: taker_fee_def unat_taker_rate)

lemma referral_fee_total: "\<exists>f. referral_fee tier q = Inr f"
proof -
  have "taker_rate_nat tier div 5 \<le> 2 ^ 32"
    using taker_rate_nat_le [of tier] by simp
  then show ?thesis
    using fp32_mul_total [of "referral_rate tier" q]
    by (auto simp: referral_fee_def unat_referral_rate)
qed

lemma remove_taker_fee_total: "\<exists>f. remove_taker_fee tier q = Inr f"
  using fp32_div_total [of "FP_32_ONE + taker_rate tier" q]
  by (auto simp: remove_taker_fee_def unat_one_plus_rate)

text \<open>A fee is at most four per ten thousand, hence at most the amount it is taken from.\<close>

lemma taker_fee_le:
  assumes "taker_fee tier q = Inr f"
  shows "unat f * 2500 \<le> unat q"
proof -
  have "unat f * 2 ^ 32 \<le> unat q * taker_rate_nat tier"
    using assms by (simp only: taker_fee_iff div_times_less_eq_dividend)
  also have "\<dots> \<le> unat q * 1717986"
    by (intro mult_le_mono2 taker_rate_nat_le)
  finally show ?thesis by simp
qed

lemma referral_le_taker:
  assumes "taker_fee tier q = Inr f" and "referral_fee tier q = Inr r"
  shows "unat r \<le> unat f"
proof -
  have "unat q * (taker_rate_nat tier div 5) \<le> unat q * taker_rate_nat tier"
    by (intro mult_le_mono2) simp
  with assms show ?thesis
    by (simp only: taker_fee_iff referral_fee_iff div_le_mono)
qed

text \<open>The amount left for the order, together with the fee on any part of it, fits the budget.\<close>

lemma remove_taker_fee_budget:
  assumes "remove_taker_fee tier q = Inr r" and "unat m \<le> unat r" and "taker_fee tier m = Inr f"
  shows "unat m + unat f \<le> unat q"
proof -
  let ?t = "taker_rate_nat tier"
  have "unat f * 2 ^ 32 \<le> unat m * ?t"
    using assms(3) by (simp only: taker_fee_iff div_times_less_eq_dividend)
  then have "(unat m + unat f) * 2 ^ 32 \<le> unat m * (2 ^ 32 + ?t)"
    by (simp add: algebra_simps)
  also have "\<dots> \<le> unat r * (2 ^ 32 + ?t)"
    using assms(2) by (rule mult_le_mono1)
  also have "\<dots> \<le> unat q * 2 ^ 32"
    using assms(1) by (simp only: remove_taker_fee_iff div_times_less_eq_dividend)
  finally show ?thesis by simp
qed

section \<open>All fees of an order\<close>

text \<open>
  The fees on a matched amount: what a handler adds to the cost of a bid or takes from the
  proceeds of an ask.
\<close>

definition order_fees :: "dex_state \<Rightarrow> fee_tier \<Rightarrow> nat \<Rightarrow> nat" where
  "order_fees s tier matched =
     matched * taker_rate_nat tier div 2 ^ 32 + matched * unat (ds_royalties_bps s) div 10000"

lemma unat_div_10000: "unat (x div 10000 :: u64) = unat x div 10000"
  by (simp add: unat_div)

text \<open>Fees and royalties, added without a check, always fit: no rate is above 0.04 percent.\<close>

lemma unat_order_fees:
  assumes "taker_fee tier x = Inr fee" and "checked_mul x (ds_royalties_bps s) = Some bps"
  shows "unat (fee + bps div 10000) = order_fees s tier (unat x)"
proof -
  have "unat x * taker_rate_nat tier \<le> 2 ^ 64 * 1717986"
    using unat_u64 [of x] taker_rate_nat_le [of tier] by (intro mult_mono) simp_all
  then have "unat x * taker_rate_nat tier div 2 ^ 32 \<le> 2 ^ 32 * 1717986"
    by (rule div_le_mono [THEN le_trans]) simp
  moreover have "unat bps div 10000 < 2 ^ 63"
    using unat_u64 [of bps] by simp
  moreover have fee: "unat fee = unat x * taker_rate_nat tier div 2 ^ 32"
    using assms(1) by (simp only: taker_fee_iff)
  ultimately have "unat fee + unat (bps div 10000) < 2 ^ 64"
    by (simp add: unat_div_10000)
  then show ?thesis
    using assms(2) fee by (simp add: unat_add_exact unat_div_10000 order_fees_def checked_simps)
qed

section \<open>Packing a tier\<close>

lemma fee_tier_from_u8_pack:
  "fee_tier_from_u8 (pack_fee_tier tier referred) =
     (if tier \<in> {MSrm, Stable} then Inl Panic else Inr (tier, referred))"
  by (cases tier; cases referred)
    (simp_all add: fee_tier_from_u8_def pack_fee_tier_def REFERRAL_MASK_def)

section \<open>Properties\<close>

text \<open>
  The byte in which an order carries its fee tier and its referral flag is read back correctly
  for the six tiers that \<open>from_u8\<close> knows, and panics for the two it does not, although \<open>get\<close> grants
  one of them to every holder of a single MSRM token on a market with the default fees.
\<close>

theorem fee_tier_byte_roundtrip:
  "(fee_tier_from_u8 (pack_fee_tier tier referred) :: (fee_tier \<times> bool) program_result) =
     (if tier \<in> {MSrm, Stable} then Inl Panic else Inr (tier, referred)) \<and>
   (ds_fee_type s = market_fee_type_code DefaultFees \<longrightarrow>
     from_srm_and_msrm_balances s srm 1 = MSrm)"
  by (simp add: fee_tier_from_u8_pack from_srm_and_msrm_balances_def)

theorem fee_tier_byte_roundtrip_witness:
  "(fee_tier_from_u8 (pack_fee_tier Srm3 True) :: (fee_tier \<times> bool) program_result) = Inr (Srm3, True) \<and>
   from_srm_and_msrm_balances
     ((dex_state_of_bytes [])\<lparr>ds_fee_type := market_fee_type_code DefaultFees\<rparr>) 0 1 = MSrm"
  using fee_tier_byte_roundtrip
    [of Srm3 True "(dex_state_of_bytes [])\<lparr>ds_fee_type := market_fee_type_code DefaultFees\<rparr>" 0]
  by simp

end
