(* ===== verification/User_Account.thy ===== *)
theory User_Account
  imports Externals "HOL-Library.Multiset"
begin

text \<open>
  The user account of \<^verbatim>\<open>src/program/src/state.rs\<close>: the header with the balances, the table of
  open orders behind it, their byte layout, and the operations on the table. The table is an
  array of fixed size whose first \<open>number_of_orders\<close> slots are in use; the slots behind them
  keep whatever was last written there.
\<close>

section \<open>The structures\<close>

record user_account_header =
  uh_tag :: u64
  uh_market :: pubkey
  uh_owner :: pubkey
  uh_base_token_free :: u64
  uh_base_token_locked :: u64
  uh_quote_token_free :: u64
  uh_quote_token_locked :: u64
  uh_accumulated_rebates :: u64
  uh_accumulated_maker_quote_volume :: u64
  uh_accumulated_maker_base_volume :: u64
  uh_accumulated_taker_quote_volume :: u64
  uh_accumulated_taker_base_volume :: u64
  uh_padding :: u32
  uh_number_of_orders :: u32

record order =
  o_id :: u128
  o_client_id :: u128

record user_account =
  ua_header :: user_account_header
  ua_orders :: "order list"

definition user_header_layout :: "nat list" where
  "user_header_layout = [8, 32, 32, 8, 8, 8, 8, 8, 8, 8, 8, 8, 4, 4]"

definition USER_ACCOUNT_HEADER_LEN :: nat where
  "USER_ACCOUNT_HEADER_LEN = 152"

definition ORDER_LEN :: nat where
  "ORDER_LEN = 32"

definition user_header_bytes :: "user_account_header \<Rightarrow> u8 list" where
  "user_header_bytes h = concat
     [to_le_bytes (uh_tag h), pubkey_to_bytes (uh_market h), pubkey_to_bytes (uh_owner h),
      to_le_bytes (uh_base_token_free h), to_le_bytes (uh_base_token_locked h),
      to_le_bytes (uh_quote_token_free h), to_le_bytes (uh_quote_token_locked h),
      to_le_bytes (uh_accumulated_rebates h), to_le_bytes (uh_accumulated_maker_quote_volume h),
      to_le_bytes (uh_accumulated_maker_base_volume h),
      to_le_bytes (uh_accumulated_taker_quote_volume h),
      to_le_bytes (uh_accumulated_taker_base_volume h), to_le_bytes (uh_padding h),
      to_le_bytes (uh_number_of_orders h)]"

definition user_header_of_bytes :: "u8 list \<Rightarrow> user_account_header" where
  "user_header_of_bytes bs =
     (let f = (!) (split_fields user_header_layout bs) in
      \<lparr>uh_tag = from_le_bytes (f 0), uh_market = pubkey_from_bytes (f 1),
       uh_owner = pubkey_from_bytes (f 2), uh_base_token_free = from_le_bytes (f 3),
       uh_base_token_locked = from_le_bytes (f 4), uh_quote_token_free = from_le_bytes (f 5),
       uh_quote_token_locked = from_le_bytes (f 6), uh_accumulated_rebates = from_le_bytes (f 7),
       uh_accumulated_maker_quote_volume = from_le_bytes (f 8),
       uh_accumulated_maker_base_volume = from_le_bytes (f 9),
       uh_accumulated_taker_quote_volume = from_le_bytes (f 10),
       uh_accumulated_taker_base_volume = from_le_bytes (f 11),
       uh_padding = from_le_bytes (f 12), uh_number_of_orders = from_le_bytes (f 13)\<rparr>)"

definition order_bytes :: "order \<Rightarrow> u8 list" where
  "order_bytes ord = to_le_bytes (o_id ord) @ to_le_bytes (o_client_id ord)"

definition order_of_bytes :: "u8 list \<Rightarrow> order" where
  "order_of_bytes bs = \<lparr>o_id = from_le_bytes (take 16 bs), o_client_id = from_le_bytes (drop 16 bs)\<rparr>"

definition user_account_bytes :: "user_account \<Rightarrow> u8 list" where
  "user_account_bytes u = user_header_bytes (ua_header u) @ concat (map order_bytes (ua_orders u))"

section \<open>Construction and loading\<close>

definition user_account_header_new :: "pubkey \<Rightarrow> pubkey \<Rightarrow> user_account_header" where
  "user_account_header_new market own =
     \<lparr>uh_tag = account_tag_code UserAccountTag, uh_market = market, uh_owner = own,
      uh_base_token_free = 0, uh_base_token_locked = 0, uh_quote_token_free = 0,
      uh_quote_token_locked = 0, uh_accumulated_rebates = 0,
      uh_accumulated_maker_quote_volume = 0, uh_accumulated_maker_base_volume = 0,
      uh_accumulated_taker_quote_volume = 0, uh_accumulated_taker_base_volume = 0,
      uh_padding = 0, uh_number_of_orders = 0\<rparr>"

text \<open>\<open>split_at_mut\<close> panics on a short buffer, \<open>try_cast_slice_mut\<close> fails on a partial order.\<close>

definition from_buffer_unchecked :: "u8 list \<Rightarrow> user_account program_result" where
  "from_buffer_unchecked buf =
     (if length buf < USER_ACCOUNT_HEADER_LEN then Inl Panic
      else let hd = take USER_ACCOUNT_HEADER_LEN buf; tl = drop USER_ACCOUNT_HEADER_LEN buf in
      if length tl mod ORDER_LEN \<noteq> 0 then Inl Panic
      else Inr \<lparr>ua_header = user_header_of_bytes hd,
                ua_orders = map order_of_bytes (chunks ORDER_LEN tl)\<rparr>)"

definition from_buffer :: "u8 list \<Rightarrow> user_account program_result" where
  "from_buffer buf =
     and_then (unwrap_result (from_buffer_unchecked buf)) (\<lambda>user_acc.
       if uh_tag (ua_header user_acc) \<noteq> account_tag_code UserAccountTag
       then prog_fail InvalidAccountData else Inr user_acc)"

definition user_account_get :: "ledger \<Rightarrow> pubkey \<Rightarrow> user_account program_result" where
  "user_account_get L k = from_buffer (data (L k))"

text \<open>The effect of assignments through the references into the account's data.\<close>

definition user_account_put :: "pubkey \<Rightarrow> user_account \<Rightarrow> ledger \<Rightarrow> ledger" where
  "user_account_put k u L = put_data k (user_account_bytes u) L"

section \<open>The table of open orders\<close>

definition read_order :: "user_account \<Rightarrow> nat \<Rightarrow> order dex_result" where
  "read_order u order_index =
     (if unat (uh_number_of_orders (ua_header u)) \<le> order_index then Inl (Err InvalidOrderIndex)
      else index_slice (ua_orders u) order_index)"

definition remove_order :: "user_account \<Rightarrow> nat \<Rightarrow> user_account dex_result" where
  "remove_order u order_index =
     (let n = uh_number_of_orders (ua_header u) in
      if unat n \<le> order_index then Inl (Err InvalidOrderIndex)
      else and_then
        (if n - of_nat order_index \<noteq> 1
         then and_then (index_slice (ua_orders u) (unat n - 1)) (\<lambda>last.
              and_then (index_slice (ua_orders u) order_index) (\<lambda>_.
                Inr (u\<lparr>ua_orders := (ua_orders u)[order_index := last]\<rparr>)))
         else Inr u) (\<lambda>u.
        Inr (u\<lparr>ua_header := (ua_header u)\<lparr>uh_number_of_orders := n - 1\<rparr>\<rparr>)))"

definition add_order :: "user_account \<Rightarrow> order \<Rightarrow> user_account dex_result" where
  "add_order u ord =
     (let n = uh_number_of_orders (ua_header u) in
      if length (ua_orders u) \<le> unat n then Inl (Err UserAccountFull)
      else Inr (u\<lparr>ua_orders := (ua_orders u)[unat n := ord],
                  ua_header := (ua_header u)\<lparr>uh_number_of_orders := n + 1\<rparr>\<rparr>))"

text \<open>The searches run over the whole slice, the unused slots included.\<close>

fun find_index_from :: "nat \<Rightarrow> ('a \<Rightarrow> bool) \<Rightarrow> 'a list \<Rightarrow> (nat \<times> 'a) option" where
  "find_index_from i P [] = None"
| "find_index_from i P (x # xs) = (if P x then Some (i, x) else find_index_from (Suc i) P xs)"

definition find_order_index :: "user_account \<Rightarrow> u128 \<Rightarrow> nat dex_result" where
  "find_order_index u order_id =
     and_then (ok_or (find_index_from 0 (\<lambda>b. o_id b = order_id) (ua_orders u)) OrderNotFound)
       (\<lambda>res. Inr (fst res))"

definition find_order_id_and_index_by_client_id ::
    "user_account \<Rightarrow> u128 \<Rightarrow> (u64 \<times> u128) dex_result" where
  "find_order_id_and_index_by_client_id u client_order_id =
     ok_or (map_option (\<lambda>(idx, b). (of_nat idx, o_id b))
       (find_index_from 0 (\<lambda>b. o_client_id b = client_order_id) (ua_orders u))) OrderNotFound"

section \<open>The layouts\<close>

interpretation user_header_codec:
  codec user_header_bytes user_header_of_bytes USER_ACCOUNT_HEADER_LEN
proof
  fix x :: user_account_header and bs :: "u8 list"
  show "length (user_header_bytes x) = USER_ACCOUNT_HEADER_LEN"
    by (simp add: user_header_bytes_def USER_ACCOUNT_HEADER_LEN_def struct_simps)
  show "user_header_of_bytes (user_header_bytes x) = x"
    unfolding user_header_bytes_def user_header_of_bytes_def
    by (subst split_fields_concat)
      (simp_all add: Let_def user_header_layout_def struct_simps)
  assume "length bs = USER_ACCOUNT_HEADER_LEN"
  then have "length bs = sum_list user_header_layout"
    by (simp add: USER_ACCOUNT_HEADER_LEN_def user_header_layout_def)
  then obtain xss where "map length xss = user_header_layout" and bs: "bs = concat xss"
    by (rule bytes_split)
  then show "user_header_bytes (user_header_of_bytes bs) = bs"
    by (simp add: user_header_of_bytes_def split_fields_concat)
      (auto simp: user_header_bytes_def Let_def user_header_layout_def map_eq_Cons_conv
        struct_inverse)
qed

interpretation order_codec: codec order_bytes order_of_bytes ORDER_LEN
  by unfold_locales
    (simp_all add: order_bytes_def order_of_bytes_def ORDER_LEN_def struct_simps struct_inverse)

section \<open>The user account is a typed account\<close>

definition user_valid :: "user_account \<Rightarrow> bool" where
  "user_valid u \<longleftrightarrow> uh_tag (ua_header u) = account_tag_code UserAccountTag"

lemma from_buffer_unchecked_bytes: "from_buffer_unchecked (user_account_bytes u) = Inr u"
proof -
  have "map order_of_bytes (chunks ORDER_LEN (concat (map order_bytes (ua_orders u)))) = ua_orders u"
    by (rule order_codec.array_roundtrip) (simp add: ORDER_LEN_def)
  then show ?thesis
    by (simp add: from_buffer_unchecked_def user_account_bytes_def user_header_codec.length_enc
        user_header_codec.dec_enc order_codec.length_array)
qed

lemma user_account_bytes_from_buffer:
  assumes "from_buffer_unchecked buf = Inr u"
  shows "user_account_bytes u = buf"
proof -
  let ?tl = "drop USER_ACCOUNT_HEADER_LEN buf"
  have len: "USER_ACCOUNT_HEADER_LEN \<le> length buf" and dvd: "ORDER_LEN dvd length ?tl"
    and u: "u = \<lparr>ua_header = user_header_of_bytes (take USER_ACCOUNT_HEADER_LEN buf),
                 ua_orders = map order_of_bytes (chunks ORDER_LEN ?tl)\<rparr>"
    using assms by (auto simp: from_buffer_unchecked_def Let_def split: if_splits)
  have "concat (map order_bytes (ua_orders u)) = ?tl"
    using order_codec.array_roundtrip_bytes [OF dvd] by (simp add: u)
  with len show ?thesis
    by (simp add: user_account_bytes_def u user_header_codec.enc_dec)
qed

lemma from_buffer_eq_Inr:
  "from_buffer buf = Inr u \<longleftrightarrow> from_buffer_unchecked buf = Inr u \<and> user_valid u"
  by (auto simp: from_buffer_def user_valid_def res_simps)

interpretation user: account_view user_account_get user_account_put user_valid
proof
  fix L L' :: ledger and k k' x y
  show "data (L k) = data (L' k) \<Longrightarrow> user_account_get L k = user_account_get L' k"
    by (simp add: user_account_get_def)
  show "user_account_get L k = Inr x \<Longrightarrow> user_valid x"
    by (simp add: user_account_get_def from_buffer_eq_Inr)
  show "user_account_get L k = Inr y \<Longrightarrow> user_valid x \<Longrightarrow>
      user_account_get (user_account_put k x L) k = Inr x"
    by (simp add: user_account_get_def user_account_put_def from_buffer_eq_Inr
        from_buffer_unchecked_bytes)
  show "user_account_get L k = Inr y \<Longrightarrow> \<not> user_valid x \<Longrightarrow>
      user_account_get (user_account_put k x L) k = prog_fail InvalidAccountData"
    by (simp add: user_account_get_def user_account_put_def from_buffer_def user_valid_def
        from_buffer_unchecked_bytes)
  show "k' \<noteq> k \<Longrightarrow> user_account_put k x L k' = L k'"
    and "owner (user_account_put k x L k') = owner (L k')"
    and "lamports (user_account_put k x L k') = lamports (L k')"
    by (simp_all add: user_account_put_def)
  assume "user_account_get L k = Inr x"
  then have "user_account_bytes x = data (L k)"
    by (simp add: user_account_get_def from_buffer_eq_Inr user_account_bytes_from_buffer)
  then show "user_account_put k x L = L"
    by (simp add: user_account_put_def)
qed

lemma user_account_get_written:
  "data (L k) = user_account_bytes u \<Longrightarrow> user_valid u \<Longrightarrow> user_account_get L k = Inr u"
  by (simp add: user_account_get_def from_buffer_eq_Inr from_buffer_unchecked_bytes)

section \<open>The interface of the order table\<close>

text \<open>
  What the handlers rely on: the table holds a bag of open orders, at most as many as it has
  slots; adding fails only when it is full, removing only at an index that is not in use.
\<close>

locale order_table =
  fixes wf :: "'u \<Rightarrow> bool"
    and capacity :: "'u \<Rightarrow> nat"
    and opened :: "'u \<Rightarrow> 'o list"
    and add :: "'u \<Rightarrow> 'o \<Rightarrow> 'u dex_result"
    and remove :: "'u \<Rightarrow> nat \<Rightarrow> 'u dex_result"
  assumes opened_le: "wf u \<Longrightarrow> length (opened u) \<le> capacity u"
    and add_opened: "wf u \<Longrightarrow> length (opened u) < capacity u \<Longrightarrow>
      \<exists>u'. add u x = Inr u' \<and> wf u' \<and> opened u' = opened u @ [x] \<and> capacity u' = capacity u"
    and add_full: "wf u \<Longrightarrow> length (opened u) = capacity u \<Longrightarrow> add u x = Inl (Err UserAccountFull)"
    and remove_opened: "wf u \<Longrightarrow> i < length (opened u) \<Longrightarrow>
      \<exists>u'. remove u i = Inr u' \<and> wf u' \<and> mset (opened u') = mset (opened u) - {#opened u ! i#}
           \<and> capacity u' = capacity u"
    and remove_unused: "wf u \<Longrightarrow> length (opened u) \<le> i \<Longrightarrow>
      remove u i = Inl (Err InvalidOrderIndex)"
begin

lemma add_Inr:
  assumes "wf u" and "add u x = Inr u'"
  shows "wf u' \<and> opened u' = opened u @ [x] \<and> capacity u' = capacity u \<and> length (opened u) < capacity u"
proof -
  from assms have "length (opened u) \<noteq> capacity u"
    using add_full by force
  with opened_le [OF assms(1)] have "length (opened u) < capacity u"
    by simp
  with assms add_opened [of u x] show ?thesis by auto
qed

lemma remove_Inr:
  assumes "wf u" and "remove u i = Inr u'"
  shows "wf u' \<and> i < length (opened u) \<and> capacity u' = capacity u \<and>
    mset (opened u') = mset (opened u) - {#opened u ! i#}"
proof -
  from assms have "i < length (opened u)"
    using remove_unused [of u i] by force
  with assms remove_opened [of u i] show ?thesis by auto
qed

lemma remove_Inr_mset:
  assumes "wf u" and "remove u i = Inr u'"
  shows "mset (opened u) = add_mset (opened u ! i) (mset (opened u'))"
  using remove_Inr [OF assms] by (simp add: nth_mem_mset)

lemma add_then_remove:
  assumes "wf u" and "add u x = Inr u'" and "remove u' i = Inr u''" and "opened u' ! i = x"
  shows "mset (opened u'') = mset (opened u)"
  using remove_Inr [OF _ assms(3)] add_Inr [OF assms(1,2)] assms(4) by simp

end

definition open_orders :: "user_account \<Rightarrow> order list" where
  "open_orders u = take (unat (uh_number_of_orders (ua_header u))) (ua_orders u)"

definition order_capacity :: "user_account \<Rightarrow> nat" where
  "order_capacity u = length (ua_orders u)"

definition orders_wf :: "user_account \<Rightarrow> bool" where
  "orders_wf u \<longleftrightarrow>
     unat (uh_number_of_orders (ua_header u)) \<le> length (ua_orders u) \<and> length (ua_orders u) < 2 ^ 32"

lemma length_open_orders:
  "orders_wf u \<Longrightarrow> length (open_orders u) = unat (uh_number_of_orders (ua_header u))"
  by (simp add: open_orders_def orders_wf_def)

lemma remove_order_frame:
  assumes "remove_order u i = Inr u'"
  shows "ua_header u' = (ua_header u)\<lparr>uh_number_of_orders := uh_number_of_orders (ua_header u) - 1\<rparr>"
    and "length (ua_orders u') = length (ua_orders u)"
    and "i < unat (uh_number_of_orders (ua_header u))"
  using assms by (auto simp: remove_order_def Let_def res_simps split: if_splits)

lemma add_order_frame:
  assumes "add_order u x = Inr u'"
  shows "ua_header u' = (ua_header u)\<lparr>uh_number_of_orders := uh_number_of_orders (ua_header u) + 1\<rparr>"
    and "length (ua_orders u') = length (ua_orders u)"
  using assms by (auto simp: add_order_def Let_def split: if_splits)

lemma mset_swap_remove:
  assumes "i < n" and "n \<le> length xs"
  shows "mset (take (n - 1) (xs[i := xs ! (n - 1)])) = mset (take n xs) - {#xs ! i#}"
proof (cases "i = n - 1")
  case True
  with assms have "take n xs = take (n - 1) xs @ [xs ! (n - 1)]"
    by (metis Suc_diff_1 gr_implies_not0 le_trans nat_neq_iff order_less_le_trans
        take_Suc_conv_app_nth Suc_le_lessD bot_nat_0.not_eq_extremum)
  with True show ?thesis by simp
next
  case False
  with assms have i: "i < n - 1" and n: "n - 1 < length xs"
    by auto
  have "take n xs = take (n - 1) xs @ [xs ! (n - 1)]"
    using n assms(1) by (metis Suc_diff_1 gr_implies_not0 bot_nat_0.not_eq_extremum take_Suc_conv_app_nth)
  moreover have "take (n - 1) (xs[i := xs ! (n - 1)]) = (take (n - 1) xs)[i := xs ! (n - 1)]"
    by (rule take_update_swap)
  moreover have "xs ! i \<in># mset (take (n - 1) xs)"
    using i n by (auto simp: in_set_conv_nth)
  ultimately show ?thesis
    using i n by (simp add: mset_update diff_union_swap2)
qed

lemma unat_u32_pred: "0 < unat (n :: u32) \<Longrightarrow> unat (n - 1) = unat n - 1"
  by (metis One_nat_def less_eq_Suc_le unat_1 unat_sub_exact)

lemma u32_diff_eq_1:
  assumes "i < unat (n :: u32)"
  shows "n - of_nat i = 1 \<longleftrightarrow> i = unat n - 1"
proof -
  have i: "unat (of_nat i :: u32) = i"
    using assms unsigned_less [of n, where ?'a = nat] by (simp add: unat_of_nat)
  then have "unat (n - of_nat i) = unat n - i"
    using assms by (simp add: unat_sub_exact)
  then show ?thesis
    using assms by (auto simp: word_unat_eq_iff)
qed

lemma remove_order_wf:
  assumes "orders_wf u" and "i < unat (uh_number_of_orders (ua_header u))"
  shows "\<exists>u'. remove_order u i = Inr u' \<and> orders_wf u' \<and> order_capacity u' = order_capacity u \<and>
    mset (open_orders u') = mset (open_orders u) - {#open_orders u ! i#}"
proof -
  let ?n = "uh_number_of_orders (ua_header u)"
  let ?xs = "if i = unat ?n - 1 then ua_orders u
             else (ua_orders u)[i := ua_orders u ! (unat ?n - 1)]"
  let ?u = "u\<lparr>ua_orders := ?xs, ua_header := (ua_header u)\<lparr>uh_number_of_orders := ?n - 1\<rparr>\<rparr>"
  have rem: "remove_order u i = Inr ?u"
    using assms u32_diff_eq_1 [OF assms(2)]
    by (auto simp: remove_order_def Let_def orders_wf_def index_slice_def)
  have n: "unat (?n - 1) = unat ?n - 1"
    using assms(2) by (intro unat_u32_pred) simp
  have "mset (open_orders ?u) = mset (open_orders u) - {#open_orders u ! i#}"
    using assms mset_swap_remove [OF assms(2), of "ua_orders u"]
    by (auto simp: open_orders_def n orders_wf_def)
  moreover have "orders_wf ?u \<and> order_capacity ?u = order_capacity u"
    using assms by (auto simp: orders_wf_def order_capacity_def n)
  ultimately show ?thesis
    using rem by blast
qed

lemma add_order_wf:
  assumes "orders_wf u" and "unat (uh_number_of_orders (ua_header u)) < length (ua_orders u)"
  shows "\<exists>u'. add_order u x = Inr u' \<and> orders_wf u' \<and> open_orders u' = open_orders u @ [x] \<and>
    order_capacity u' = order_capacity u"
proof -
  have "unat (uh_number_of_orders (ua_header u) + 1) = unat (uh_number_of_orders (ua_header u)) + 1"
    using assms by (subst unat_add_exact) (auto simp: orders_wf_def)
  with assms show ?thesis
    by (simp add: add_order_def Let_def orders_wf_def order_capacity_def open_orders_def
        take_Suc_conv_app_nth)
qed

interpretation orders: order_table orders_wf order_capacity open_orders add_order remove_order
proof
  fix u x i
  assume wf: "orders_wf u"
  then show "length (open_orders u) \<le> order_capacity u"
    by (simp add: open_orders_def order_capacity_def)
  show "length (open_orders u) < order_capacity u \<Longrightarrow> \<exists>u'. add_order u x = Inr u' \<and> orders_wf u' \<and>
      open_orders u' = open_orders u @ [x] \<and> order_capacity u' = order_capacity u"
    using wf add_order_wf by (simp add: length_open_orders order_capacity_def)
  show "length (open_orders u) = order_capacity u \<Longrightarrow> add_order u x = Inl (Err UserAccountFull)"
    using wf by (simp add: length_open_orders order_capacity_def add_order_def)
  show "i < length (open_orders u) \<Longrightarrow> \<exists>u'. remove_order u i = Inr u' \<and> orders_wf u' \<and>
      mset (open_orders u') = mset (open_orders u) - {#open_orders u ! i#} \<and>
      order_capacity u' = order_capacity u"
    using wf remove_order_wf [of u i] by (auto simp: length_open_orders)
  show "length (open_orders u) \<le> i \<Longrightarrow> remove_order u i = Inl (Err InvalidOrderIndex)"
    using wf by (simp add: length_open_orders remove_order_def)
qed

section \<open>Searching the table\<close>

lemma find_index_from_eq_Some:
  "find_index_from i P xs = Some (j, x) \<longleftrightarrow>
     (\<exists>k < length xs. j = i + k \<and> x = xs ! k \<and> P x \<and> (\<forall>m < k. \<not> P (xs ! m)))"
  by (induction xs arbitrary: i) (auto simp: Ex_less_Suc2 All_less_Suc2)

lemma find_index_from_eq_None: "find_index_from i P xs = None \<longleftrightarrow> (\<forall>x \<in> set xs. \<not> P x)"
  by (induction xs arbitrary: i) auto

lemma find_order_index_eq_Inr:
  "find_order_index u oid = Inr i \<longleftrightarrow>
     i < length (ua_orders u) \<and> o_id (ua_orders u ! i) = oid \<and>
     (\<forall>j < i. o_id (ua_orders u ! j) \<noteq> oid)"
proof -
  have "find_order_index u oid = Inr i \<longleftrightarrow>
      (\<exists>x. find_index_from 0 (\<lambda>b. o_id b = oid) (ua_orders u) = Some (i, x))"
    by (auto simp: find_order_index_def res_simps)
  also have "\<dots> \<longleftrightarrow> i < length (ua_orders u) \<and> o_id (ua_orders u ! i) = oid \<and>
     (\<forall>j < i. o_id (ua_orders u ! j) \<noteq> oid)"
    by (auto simp: find_index_from_eq_Some)
  finally show ?thesis .
qed

text \<open>An order that is open is found in an open slot, in front of every stale copy.\<close>

lemma find_order_index_open:
  assumes "orders_wf u" and "x \<in> set (open_orders u)"
  obtains i where "find_order_index u (o_id x) = Inr i" and "i < length (open_orders u)"
    and "o_id (open_orders u ! i) = o_id x"
proof -
  let ?P = "\<lambda>i. i < length (open_orders u) \<and> o_id (open_orders u ! i) = o_id x"
  define i where "i = (LEAST i. ?P i)"
  from assms(2) have "\<exists>i. ?P i"
    by (auto simp: in_set_conv_nth)
  then have i: "?P i"
    unfolding i_def by (rule LeastI_ex)
  have least: "\<And>j. j < i \<Longrightarrow> \<not> ?P j"
    unfolding i_def by (rule not_less_Least)
  have nth: "\<And>j. j < length (open_orders u) \<Longrightarrow> open_orders u ! j = ua_orders u ! j"
    by (simp add: open_orders_def)
  have "find_order_index u (o_id x) = Inr i"
    using i least nth by (force simp: find_order_index_eq_Inr open_orders_def)
  with i that show thesis by blast
qed

section \<open>Properties\<close>

text \<open>
  C38: The table of orders behaves as a bag of bounded size: an order is added exactly when there is
  a free slot, a slot is freed exactly when it is in use, both keep the table well formed and its
  capacity, and freeing a slot takes away the order in it and no other, although the last order
  moves into the gap.
\<close>

theorem order_table_behaves:
  assumes "orders_wf u"
  shows "(if length (open_orders u) < order_capacity u
      then \<exists>u'. add_order u x = Inr u' \<and> orders_wf u' \<and> order_capacity u' = order_capacity u \<and>
        open_orders u' = open_orders u @ [x]
      else add_order u x = Inl (Err UserAccountFull)) \<and>
    (if i < length (open_orders u)
      then \<exists>u'. remove_order u i = Inr u' \<and> orders_wf u' \<and> order_capacity u' = order_capacity u \<and>
        mset (open_orders u) = add_mset (open_orders u ! i) (mset (open_orders u'))
      else remove_order u i = Inl (Err InvalidOrderIndex))"
  using orders.add_opened [OF assms, of x] orders.add_full [OF assms, of x]
    orders.opened_le [OF assms] orders.remove_opened [OF assms, of i]
    orders.remove_unused [OF assms, of i]
  by (auto simp: nth_mem_mset)

definition ex_small_account :: user_account where
  "ex_small_account = \<lparr>ua_header = user_account_header_new 3 12, ua_orders = [\<lparr>o_id = 1, o_client_id = 2\<rparr>]\<rparr>"

theorem order_table_behaves_witness:
  "remove_order ex_small_account 0 = Inl (Err InvalidOrderIndex) \<and>
   (\<exists>u'. add_order ex_small_account \<lparr>o_id = 5, o_client_id = 6\<rparr> = Inr u' \<and>
     open_orders u' = [\<lparr>o_id = 5, o_client_id = 6\<rparr>])"
proof -
  have wf: "orders_wf ex_small_account" "open_orders ex_small_account = []"
    "order_capacity ex_small_account = 1"
    by (simp_all add: orders_wf_def open_orders_def order_capacity_def ex_small_account_def
        user_account_header_new_def)
  from order_table_behaves [OF wf(1), of "\<lparr>o_id = 5, o_client_id = 6\<rparr>" 0] show ?thesis
    by (auto simp: wf)
qed

end
