(* ===== verification/Accounting.thy ===== *)
theory Accounting
  imports User_Account
begin

text \<open>
  The abstract specification of a user's balances: four natural numbers and the movements
  between them that the exchange allows. The handlers are proved to implement these movements
  on the 64-bit fields of the account header.
\<close>

section \<open>Positions\<close>

record position =
  base_free :: nat
  base_locked :: nat
  quote_free :: nat
  quote_locked :: nat

definition position_of :: "user_account \<Rightarrow> position" where
  "position_of u =
     (let h = ua_header u in
      \<lparr>base_free = unat (uh_base_token_free h), base_locked = unat (uh_base_token_locked h),
       quote_free = unat (uh_quote_token_free h), quote_locked = unat (uh_quote_token_locked h)\<rparr>)"

text \<open>What the exchange owes the owner of a position, free or not.\<close>

definition base_claim :: "position \<Rightarrow> nat" where
  "base_claim p = base_free p + base_locked p"

definition quote_claim :: "position \<Rightarrow> nat" where
  "quote_claim p = quote_free p + quote_locked p"

section \<open>Movements\<close>

text \<open>
  A bid costs \<open>cost\<close> quote tokens, of which \<open>posted\<close> stay locked behind the posted part, and
  buys \<open>bought\<close> base tokens at once. The free balance pays first, the wallet pays the rest.
\<close>

definition place_bid :: "nat \<Rightarrow> nat \<Rightarrow> nat \<Rightarrow> position \<Rightarrow> position" where
  "place_bid cost posted bought p =
     p\<lparr>quote_free := quote_free p - cost, quote_locked := quote_locked p + posted,
       base_free := base_free p + bought\<rparr>"

definition bid_deposit :: "nat \<Rightarrow> position \<Rightarrow> nat" where
  "bid_deposit cost p = cost - quote_free p"

definition place_ask :: "nat \<Rightarrow> nat \<Rightarrow> nat \<Rightarrow> position \<Rightarrow> position" where
  "place_ask amount posted proceeds p =
     p\<lparr>base_free := base_free p - amount, base_locked := base_locked p + posted,
       quote_free := quote_free p + proceeds\<rparr>"

definition ask_deposit :: "nat \<Rightarrow> position \<Rightarrow> nat" where
  "ask_deposit amount p = amount - base_free p"

text \<open>
  The same movements as the program computes them: the locked balance is added to without a check,
  so it wraps at 64 bits.
\<close>

definition place_bid_u64 :: "nat \<Rightarrow> nat \<Rightarrow> nat \<Rightarrow> position \<Rightarrow> position" where
  "place_bid_u64 cost posted bought p =
     p\<lparr>quote_free := quote_free p - cost, quote_locked := (quote_locked p + posted) mod 2 ^ 64,
       base_free := base_free p + bought\<rparr>"

definition place_ask_u64 :: "nat \<Rightarrow> nat \<Rightarrow> nat \<Rightarrow> position \<Rightarrow> position" where
  "place_ask_u64 amount posted proceeds p =
     p\<lparr>base_free := base_free p - amount, base_locked := (base_locked p + posted) mod 2 ^ 64,
       quote_free := quote_free p + proceeds\<rparr>"

text \<open>The maker's side of a fill.\<close>

definition maker_sold :: "nat \<Rightarrow> nat \<Rightarrow> position \<Rightarrow> position" where
  "maker_sold base quote p =
     p\<lparr>quote_free := quote_free p + quote, base_locked := base_locked p - base\<rparr>"

definition maker_bought :: "nat \<Rightarrow> nat \<Rightarrow> position \<Rightarrow> position" where
  "maker_bought base quote p =
     p\<lparr>base_free := base_free p + base, quote_locked := quote_locked p - quote\<rparr>"

text \<open>A cancelled order gives back what it had locked.\<close>

definition release_base :: "nat \<Rightarrow> position \<Rightarrow> position" where
  "release_base n p = p\<lparr>base_free := base_free p + n, base_locked := base_locked p - n\<rparr>"

definition release_quote :: "nat \<Rightarrow> position \<Rightarrow> position" where
  "release_quote n p = p\<lparr>quote_free := quote_free p + n, quote_locked := quote_locked p - n\<rparr>"

text \<open>The maker's movement of a fill by the side of the taker, and what it takes from the locked balance.\<close>

fun maker_movement :: "side \<Rightarrow> nat \<Rightarrow> nat \<Rightarrow> position \<Rightarrow> position" where
  "maker_movement Bid base quote p = maker_sold base quote p"
| "maker_movement Ask base quote p = maker_bought base quote p"

fun maker_covers :: "side \<Rightarrow> nat \<Rightarrow> nat \<Rightarrow> position \<Rightarrow> bool" where
  "maker_covers Bid base quote p \<longleftrightarrow> base \<le> base_locked p"
| "maker_covers Ask base quote p \<longleftrightarrow> quote \<le> quote_locked p"

text \<open>The release of an order by its side.\<close>

fun release_movement :: "side \<Rightarrow> nat \<Rightarrow> nat \<Rightarrow> position \<Rightarrow> position" where
  "release_movement Ask base quote p = release_base base p"
| "release_movement Bid base quote p = release_quote quote p"

fun release_covers :: "side \<Rightarrow> nat \<Rightarrow> nat \<Rightarrow> position \<Rightarrow> bool" where
  "release_covers Ask base quote p \<longleftrightarrow> base \<le> base_locked p"
| "release_covers Bid base quote p \<longleftrightarrow> quote \<le> quote_locked p"

definition withdraw :: "position \<Rightarrow> position" where
  "withdraw p = p\<lparr>base_free := 0, quote_free := 0\<rparr>"

section \<open>Conservation\<close>

lemma place_u64_exact:
  "quote_locked p + posted < 2 ^ 64 \<Longrightarrow> place_bid_u64 cost posted bought p = place_bid cost posted bought p"
  "base_locked p + posted < 2 ^ 64 \<Longrightarrow>
   place_ask_u64 amount posted proceeds p = place_ask amount posted proceeds p"
  by (simp_all add: place_bid_u64_def place_bid_def place_ask_u64_def place_ask_def)

lemma place_bid_conserves:
  "quote_claim p + bid_deposit cost p + posted = quote_claim (place_bid cost posted bought p) + cost"
  "base_claim (place_bid cost posted bought p) = base_claim p + bought"
  by (simp_all add: place_bid_def bid_deposit_def quote_claim_def base_claim_def)

lemma place_ask_conserves:
  "base_claim p + ask_deposit amount p + posted = base_claim (place_ask amount posted proceeds p) + amount"
  "quote_claim (place_ask amount posted proceeds p) = quote_claim p + proceeds"
  by (simp_all add: place_ask_def ask_deposit_def quote_claim_def base_claim_def)

lemma maker_fill_conserves:
  "b \<le> base_locked p \<Longrightarrow> base_claim (maker_sold b q p) + b = base_claim p"
  "quote_claim (maker_sold b q p) = quote_claim p + q"
  "base_claim (maker_bought b q p) = base_claim p + b"
  "q \<le> quote_locked p \<Longrightarrow> quote_claim (maker_bought b q p) + q = quote_claim p"
  by (simp_all add: maker_sold_def maker_bought_def quote_claim_def base_claim_def)

lemma release_conserves:
  "n \<le> base_locked p \<Longrightarrow> base_claim (release_base n p) = base_claim p"
  "quote_claim (release_base n p) = quote_claim p"
  "n \<le> quote_locked p \<Longrightarrow> quote_claim (release_quote n p) = quote_claim p"
  "base_claim (release_quote n p) = base_claim p"
  by (simp_all add: release_base_def release_quote_def quote_claim_def base_claim_def)

lemma release_movement_conserves:
  "release_covers sd b q p \<Longrightarrow> base_claim (release_movement sd b q p) = base_claim p"
  "release_covers sd b q p \<Longrightarrow> quote_claim (release_movement sd b q p) = quote_claim p"
  by (cases sd; simp add: release_conserves)+

lemma withdraw_conserves:
  "base_claim (withdraw p) + base_free p = base_claim p"
  "quote_claim (withdraw p) + quote_free p = quote_claim p"
  by (simp_all add: withdraw_def quote_claim_def base_claim_def)

lemma release_movement_zero [simp]: "release_movement sd 0 0 p = p" "release_covers sd 0 0 p"
  by (cases sd; simp add: release_base_def release_quote_def)+

section \<open>Positions of accounts that differ outside the balances\<close>

lemma position_of_orders [simp]: "position_of (u\<lparr>ua_orders := xs\<rparr>) = position_of u"
  by (simp add: position_of_def)

lemma position_of_remove_order:
  "remove_order u i = Inr u' \<Longrightarrow> position_of u' = position_of u"
  by (simp add: position_of_def remove_order_frame(1) Let_def)

lemma position_of_add_order:
  "add_order u x = Inr u' \<Longrightarrow> position_of u' = position_of u"
  by (simp add: position_of_def add_order_frame(1) Let_def)

end
