(* ===== verification/Example_World.thy ===== *)
theory Example_World
  imports Fee_Tier Accounting
begin

text \<open>
  A small concrete world on which the theorems are instantiated: one market, one user account
  with one open order, and external programs that answer with fixed values. Keys are small
  numbers: 1 token program, 2 system program, 3 market, 4 order book, 5 event queue, 6 bids,
  7 asks, 8 base vault, 9 quote vault, 10 user account, 11 wallet token account, 12 wallet,
  13 market signer, 14 a second user account, 100 the program.
\<close>

definition ex_info :: "pubkey \<Rightarrow> bool \<Rightarrow> account_info" where
  "ex_info k signer = \<lparr>key = k, is_signer = signer, is_writable = True\<rparr>"

definition ex_market :: dex_state where
  "ex_market =
     \<lparr>ds_tag = 1, ds_base_mint = 20, ds_quote_mint = 21, ds_base_vault = 8, ds_quote_vault = 9,
      ds_orderbook = 4, ds_admin = 15, ds_creation_timestamp = 0, ds_base_volume = 0,
      ds_quote_volume = 0, ds_accumulated_fees = 70, ds_min_base_order_size = 10,
      ds_royalties_bps = 0, ds_accumulated_royalties = 90, ds_base_currency_multiplier = 1,
      ds_quote_currency_multiplier = 1, ds_signer_nonce = 5, ds_fee_type = 0,
      ds_padding = (0, 0, 0, 0, 0, 0)\<rparr>"

definition ex_order :: order where
  "ex_order = \<lparr>o_id = 18446744073709551617, o_client_id = 77\<rparr>"

definition ex_user :: user_account where
  "ex_user =
     \<lparr>ua_header = (user_account_header_new 3 12)\<lparr>uh_base_token_free := 500,
        uh_base_token_locked := 300, uh_quote_token_free := 2000, uh_quote_token_locked := 4000,
        uh_number_of_orders := 1\<rparr>,
      ua_orders = [ex_order, \<lparr>o_id = 0, o_client_id = 0\<rparr>]\<rparr>"

definition ex_ledger :: ledger where
  "ex_ledger k =
     (if k = 3 then \<lparr>lamports = 10, data = dex_state_bytes ex_market, owner = 100\<rparr>
      else if k = 10 then \<lparr>lamports = 20, data = user_account_bytes ex_user, owner = 100\<rparr>
      else if k = 4 \<or> k = 5 \<or> k = 6 \<or> k = 7 then \<lparr>lamports = 1, data = [0], owner = 100\<rparr>
      else if k = 8 \<or> k = 9 \<or> k = 11 then \<lparr>lamports = 1, data = [0], owner = 1\<rparr>
      else \<lparr>lamports = 0, data = [], owner = 2\<rparr>)"

definition ex_token_account :: token_account where
  "ex_token_account =
     \<lparr>ta_mint = 20, ta_owner = 13, ta_amount = 0, ta_delegate = None, ta_close_authority = None\<rparr>"

text \<open>The order book answers every order that can pay for it with the given summary and queues the given events.\<close>

definition ex_env :: "order_summary \<Rightarrow> event list \<Rightarrow> externals" where
  "ex_env summary events =
     \<lparr>system_program_id = 2, create_program_address = (\<lambda>_ _. Inr 13),
      find_program_address = (\<lambda>_ _. (10, 255)), clock_unix_timestamp = Inr 0,
      rent_minimum_balance = (\<lambda>_. Inr 1),
      system_create_account = (\<lambda>_ new lam space own _ _ L.
        if space \<le> 10485760
        then Inr (L(new := \<lparr>lamports = lam, data = replicate (unat space) 0, owner = own\<rparr>))
        else prog_fail InvalidArgument),
      spl_token_id = 1, token_unpack = (\<lambda>_. Inr ex_token_account),
      token_unpack_from_slice = (\<lambda>_. Inr ex_token_account), token_invoke = (\<lambda>_ _ L. Inr L),
      mpl_token_metadata_id = 30, find_metadata_account = (\<lambda>_. 31),
      metadata_from_account_info = (\<lambda>_.
        Inr \<lparr>md_seller_fee_basis_points = 250,
             md_creators = Some [\<lparr>cr_address = 40, cr_verified = True, cr_share = 60\<rparr>,
                                 \<lparr>cr_address = 41, cr_verified = True, cr_share = 40\<rparr>]\<rparr>),
      check_rent_exempt = (\<lambda>_. Inr ()), check_token_account_owner = (\<lambda>_ _. Inr ()),
      bonfida_check_account_key = (\<lambda>a k.
        if key a = k then Inr () else prog_fail InvalidArgument),
      bonfida_check_account_owner = (\<lambda>a k.
        if owner a = k then Inr () else prog_fail InvalidArgument),
      event_queue_from_buffer = (\<lambda>_. Inr events),
      market_state_from_buffer = (\<lambda>_. Inr \<lparr>aobm_event_queue = 5, aobm_tick_size = 1\<rparr>),
      get_side_from_order_id = (\<lambda>oid. if bit oid 63 then Bid else Ask),
      aob_create_market = (\<lambda>_ _ _ _ L. Inr L),
      aob_new_order = (\<lambda>_ _ ip L.
        if total_quote_qty summary \<le> aob_max_quote_qty ip then Inr (summary, L)
        else prog_fail InvalidArgument),
      aob_cancel_order = (\<lambda>_ _ _ L. Inr (summary, L)),
      aob_consume_events = (\<lambda>_ _ _ _ L. Inr L), aob_close_market = (\<lambda>_ _ _ L. Inr L)\<rparr>"

definition ex_no_summary :: order_summary where
  "ex_no_summary =
     \<lparr>posted_order_id = None, total_base_qty = 0, total_quote_qty = 0, total_base_qty_posted = 0\<rparr>"

definition ex_plain_env :: externals where
  "ex_plain_env = ex_env ex_no_summary []"

lemma ex_market_valid: "market_valid ex_market"
  by (simp add: market_valid_def ex_market_def)

lemma ex_user_valid: "user_valid ex_user"
  by (simp add: user_valid_def ex_user_def user_account_header_new_def)

lemma ex_load [simp]:
  "dex_state_get ex_ledger 3 = Inr ex_market"
  "user_account_get ex_ledger 10 = Inr ex_user"
  by (auto intro!: dex_state_get_written [where rest = "[]"] user_account_get_written
      simp: ex_ledger_def ex_market_valid ex_user_valid)

lemma ex_from_buffer [simp]: "from_buffer (data (ex_ledger 10)) = Inr ex_user"
  using ex_load(2) by (simp add: user_account_get_def)

lemma ex_owner [simp]:
  "owner (ex_ledger 3) = 100" "owner (ex_ledger 10) = 100" "owner (ex_ledger 9) = 1"
  "owner (ex_ledger 8) = 1" "owner (ex_ledger 11) = 1" "owner (ex_ledger 4) = 100"
  "owner (ex_ledger 5) = 100"
  by (simp_all add: ex_ledger_def)

lemma ex_info_fields [simp]: "key (ex_info k b) = k" "is_signer (ex_info k b) = b"
  by (simp_all add: ex_info_def)

lemmas ex_defs = ex_plain_env_def ex_env_def ex_info_def ex_market_def ex_user_def user_account_header_new_def
  ex_order_def


text \<open>The definitions with which a closed call of a handler evaluates.\<close>

lemmas eval_defs =
  checked_add_def checked_sub_def checked_mul_def checked_div_def saturating_sub_def
  div_or_panic_def index_slice_def fp32_div_def fp32_mul_def FP_32_ONE_def safe_downcast_eval
  taker_fee_def remove_taker_fee_def referral_fee_def referral_rate_def maker_rate_def
  maker_rebate_def scale_base_amount_def scale_quote_amount_def unscale_base_amount_def
  unscale_quote_amount_def unscale_order_summary_def get_quote_from_base_def borrow_def
  check_account_key_def check_account_owner_def check_signer_def pack_fee_tier_def
  REFERRAL_MASK_def side_from_u8_def self_trade_behavior_from_u8_def

end
