(* ===== verification/Consume_Events.thy ===== *)
theory Consume_Events
  imports Example_World
begin

text \<open>
  The instruction \<open>consume_events\<close> (\<^verbatim>\<open>src/program/src/processor/consume_events.rs\<close>): the events
  which the order book queued are applied to the makers' accounts and to the market, from the
  front of the queue and up to the first event whose user account was not supplied, and are then
  removed from the queue.
\<close>

section \<open>Binary search\<close>

text \<open>
  \<open>slice::binary_search_by_key\<close> of Rust's standard library, which finds the account of an event: the
  probe, and the window that remains after it.
\<close>

function binary_search_window ::
    "('a \<Rightarrow> 'k::linorder) \<Rightarrow> 'k \<Rightarrow> 'a list \<Rightarrow> nat \<Rightarrow> nat \<Rightarrow> (nat, nat) sum" where
  "binary_search_window f k xs left right =
     (if left < right then
        let mid = left + (right - left) div 2; v = f (xs ! mid) in
        if v < k then binary_search_window f k xs (Suc mid) right
        else if k < v then binary_search_window f k xs left mid
        else Inr mid
      else Inl left)"
  by pat_completeness auto
termination
  by (relation "measure (\<lambda>(f, k, xs, left, right). right - left)") auto

declare binary_search_window.simps [simp del]

definition binary_search_by_key :: "('a \<Rightarrow> 'k::linorder) \<Rightarrow> 'k \<Rightarrow> 'a list \<Rightarrow> (nat, nat) sum" where
  "binary_search_by_key f k xs = binary_search_window f k xs 0 (length xs)"

section \<open>Parameters and accounts\<close>

record consume_events_params =
  cep_max_iterations :: u64
  cep_no_op_err :: u64

definition CONSUME_EVENTS_PARAMS_LEN :: nat where
  "CONSUME_EVENTS_PARAMS_LEN = 16"

definition consume_events_params_bytes :: "consume_events_params \<Rightarrow> u8 list" where
  "consume_events_params_bytes p =
     to_le_bytes (cep_max_iterations p) @ to_le_bytes (cep_no_op_err p)"

definition consume_events_params_of_bytes :: "u8 list \<Rightarrow> consume_events_params" where
  "consume_events_params_of_bytes bs =
     \<lparr>cep_max_iterations = from_le_bytes (take 8 bs), cep_no_op_err = from_le_bytes (drop 8 bs)\<rparr>"

record consume_events_accounts =
  cea_market :: account_info
  cea_orderbook :: account_info
  cea_event_queue :: account_info
  cea_reward_target :: account_info
  cea_user_accounts :: "account_info list"

definition consume_events_parse ::
    "pubkey \<Rightarrow> ledger \<Rightarrow> account_info list \<Rightarrow> consume_events_accounts program_result" where
  "consume_events_parse program_id L accts =
     and_then (next_account_info accts) (\<lambda>(market, accts).
     and_then (next_account_info accts) (\<lambda>(orderbook, accts).
     and_then (next_account_info accts) (\<lambda>(event_queue, accts).
     and_then (next_account_info accts) (\<lambda>(reward_target, accts).
     and_then (question_mark (check_account_owner L market program_id InvalidStateAccountOwner)) (\<lambda>_.
     Inr \<lparr>cea_market = market, cea_orderbook = orderbook, cea_event_queue = event_queue,
          cea_reward_target = reward_target, cea_user_accounts = accts\<rparr>)))))"

definition consume_events_check_accounts ::
    "dex_state \<Rightarrow> consume_events_accounts \<Rightarrow> unit program_result" where
  "consume_events_check_accounts s a =
     question_mark (check_account_key (cea_orderbook a) (ds_orderbook s) InvalidOrderbookAccount)"

section \<open>One event\<close>

text \<open>
  The user account of an event, found by binary search among the accounts supplied and borrowed
  for the time of the event; \<open>held\<close> are the accounts the instruction already borrows. The
  search is the only step of an event that returns an error, and it comes before every
  assignment, so an event that fails has changed nothing; every later failure is a panic.
\<close>

definition event_account ::
    "account_info list \<Rightarrow> pubkey \<Rightarrow> account_info dex_result" where
  "event_account accts k =
     (case binary_search_by_key key k accts of
        Inl _ \<Rightarrow> Inl (Err MissingUserAccount)
      | Inr i \<Rightarrow> index_slice accts i)"

definition borrow_user_account ::
    "pubkey list \<Rightarrow> ledger \<Rightarrow> account_info \<Rightarrow> user_account dex_result" where
  "borrow_user_account held L a =
     and_then (unwrap_result (borrow held a)) (\<lambda>_. unwrap_result (from_buffer (data (L (key a)))))"

text \<open>The fees of a fill: the market's share, and the royalties.\<close>

definition consume_fill_fees ::
    "dex_state \<Rightarrow> fee_tier \<Rightarrow> bool \<Rightarrow> fee_tier \<Rightarrow> u64 \<Rightarrow> dex_state dex_result" where
  "consume_fill_fees s taker_tier is_referred maker_tier quote_size =
     and_then (taker_fee taker_tier quote_size) (\<lambda>taker_fee.
     let maker_rebate = maker_rebate maker_tier quote_size in
     and_then (unwrap (checked_mul (ds_royalties_bps s) quote_size)) (\<lambda>bps_qty.
     let royalties_fee = bps_qty div 10000 in
     and_then (if is_referred then referral_fee taker_tier quote_size else Inr 0) (\<lambda>referral_fee.
     and_then (unwrap (Option.bind (checked_sub taker_fee maker_rebate)
         (\<lambda>n. checked_sub n referral_fee))) (\<lambda>total_fees.
     and_then (unwrap (checked_add (ds_accumulated_fees s) total_fees)) (\<lambda>fees.
     and_then (unwrap (checked_add (ds_accumulated_royalties s) royalties_fee)) (\<lambda>royalties.
     Inr (s\<lparr>ds_accumulated_fees := fees, ds_accumulated_royalties := royalties\<rparr>)))))))"

text \<open>
  The maker's balances. On the ask side the sum of the free quote balance and the rebate is
  checked and then dropped.
\<close>

definition consume_fill_maker ::
    "side \<Rightarrow> u64 \<Rightarrow> u64 \<Rightarrow> u64 \<Rightarrow> user_account_header \<Rightarrow> user_account_header dex_result" where
  "consume_fill_maker taker_side base_size quote_size rebate h =
     (case taker_side of
        Bid \<Rightarrow>
          and_then (unwrap (checked_add (uh_quote_token_free h) (quote_size + rebate)))
            (\<lambda>quote_free.
          and_then (unwrap (checked_sub (uh_base_token_locked h) base_size)) (\<lambda>base_locked.
          Inr (h\<lparr>uh_quote_token_free := quote_free,
                 uh_accumulated_rebates := uh_accumulated_rebates h + rebate,
                 uh_base_token_locked := base_locked\<rparr>)))
      | Ask \<Rightarrow>
          and_then (unwrap (checked_add (uh_base_token_free h) base_size)) (\<lambda>base_free.
          and_then (unwrap (checked_sub (uh_quote_token_locked h) quote_size)) (\<lambda>quote_locked.
          and_then (unwrap (checked_add (uh_quote_token_free h) rebate)) (\<lambda>_.
          Inr (h\<lparr>uh_base_token_free := base_free, uh_quote_token_locked := quote_locked,
                 uh_accumulated_rebates := uh_accumulated_rebates h + rebate\<rparr>)))))"

definition consume_fill_volumes ::
    "u64 \<Rightarrow> u64 \<Rightarrow> user_account_header \<Rightarrow> dex_state \<Rightarrow>
     (user_account_header \<times> dex_state) dex_result" where
  "consume_fill_volumes base_size quote_size h s =
     and_then (unwrap (checked_add (uh_accumulated_maker_quote_volume h) quote_size)) (\<lambda>mq.
     and_then (unwrap (checked_add (uh_accumulated_maker_base_volume h) base_size)) (\<lambda>mb.
     and_then (unwrap (checked_add (ds_quote_volume s) quote_size)) (\<lambda>qv.
     and_then (unwrap (checked_add (ds_base_volume s) base_size)) (\<lambda>bv.
     Inr (h\<lparr>uh_accumulated_maker_quote_volume := mq, uh_accumulated_maker_base_volume := mb\<rparr>,
          s\<lparr>ds_quote_volume := qv, ds_base_volume := bv\<rparr>)))))"

definition consume_fill ::
    "pubkey list \<Rightarrow> account_info list \<Rightarrow> fill_event \<Rightarrow> callback_info \<Rightarrow> callback_info \<Rightarrow>
     dex_state \<Rightarrow> ledger \<Rightarrow> (dex_state \<times> ledger) dex_result" where
  "consume_fill held accts ev maker taker s L =
     and_then (unwrap (checked_mul (fe_quote_size ev) (ds_quote_currency_multiplier s)))
       (\<lambda>quote_size.
     and_then (unwrap (checked_mul (fe_base_size ev) (ds_base_currency_multiplier s)))
       (\<lambda>base_size.
     and_then (event_account accts (cb_user_account maker)) (\<lambda>maker_account_info.
     and_then (fee_tier_from_u8 (cb_fee_tier taker)) (\<lambda>(taker_tier, is_referred).
     and_then (borrow_user_account held L maker_account_info) (\<lambda>maker_account.
     and_then (fee_tier_from_u8 (cb_fee_tier maker)) (\<lambda>(maker_tier, _).
     and_then (consume_fill_fees s taker_tier is_referred maker_tier quote_size) (\<lambda>s.
     and_then (unwrap (side_from_u8 (fe_taker_side ev))) (\<lambda>taker_side.
     and_then (consume_fill_maker taker_side base_size quote_size
       (maker_rebate maker_tier quote_size) (ua_header maker_account)) (\<lambda>h.
     and_then (consume_fill_volumes base_size quote_size h s) (\<lambda>(h, s).
     Inr (s, user_account_put (key maker_account_info) (maker_account\<lparr>ua_header := h\<rparr>) L)))))))))))"

text \<open>
  An order that left the book: what it still had locked becomes free again. The quote amount of
  a bid is computed from the price in the upper half of the order identifier.
\<close>

definition consume_out_release ::
    "side \<Rightarrow> u64 \<Rightarrow> u128 \<Rightarrow> user_account_header \<Rightarrow> user_account_header dex_result" where
  "consume_out_release sd base_size order_id h =
     (case sd of
        Ask \<Rightarrow>
          and_then (unwrap (checked_add (uh_base_token_free h) base_size)) (\<lambda>base_free.
          and_then (unwrap (checked_sub (uh_base_token_locked h) base_size)) (\<lambda>base_locked.
          Inr (h\<lparr>uh_base_token_free := base_free, uh_base_token_locked := base_locked\<rparr>)))
      | Bid \<Rightarrow>
          let price = ucast (drop_bit 64 order_id) in
          and_then (unwrap (fp32_mul base_size price)) (\<lambda>qty_to_transfer.
          and_then (unwrap (checked_add (uh_quote_token_free h) qty_to_transfer)) (\<lambda>quote_free.
          and_then (unwrap (checked_sub (uh_quote_token_locked h) qty_to_transfer)) (\<lambda>quote_locked.
          Inr (h\<lparr>uh_quote_token_free := quote_free, uh_quote_token_locked := quote_locked\<rparr>)))))"

definition consume_out ::
    "pubkey list \<Rightarrow> account_info list \<Rightarrow> out_event \<Rightarrow> callback_info \<Rightarrow>
     dex_state \<Rightarrow> ledger \<Rightarrow> (dex_state \<times> ledger) dex_result" where
  "consume_out held accts ev info s L =
     and_then (event_account accts (cb_user_account info)) (\<lambda>user_account_info.
     and_then (borrow_user_account held L user_account_info) (\<lambda>u.
     and_then (unwrap (checked_mul (oe_base_size ev) (ds_base_currency_multiplier s)))
       (\<lambda>base_size.
     and_then (if base_size \<noteq> 0 then
         and_then (unwrap (side_from_u8 (oe_side ev))) (\<lambda>sd.
         consume_out_release sd base_size (oe_order_id ev) (ua_header u))
       else Inr (ua_header u)) (\<lambda>h.
     let u = u\<lparr>ua_header := h\<rparr> in
     and_then (unwrap_result (find_order_index u (oe_order_id ev))) (\<lambda>order_index.
     and_then (unwrap_result (remove_order u order_index)) (\<lambda>u.
     Inr (s, user_account_put (key user_account_info) u L)))))))"

fun consume_event ::
    "pubkey list \<Rightarrow> account_info list \<Rightarrow> event \<Rightarrow> dex_state \<Rightarrow> ledger \<Rightarrow>
     (dex_state \<times> ledger) dex_result" where
  "consume_event held accts (Fill ev maker taker) s L = consume_fill held accts ev maker taker s L"
| "consume_event held accts (Out ev info) s L = consume_out held accts ev info s L"

section \<open>The handler\<close>

text \<open>The loop over the events: it stops at the first error, a panic goes through.\<close>

fun consume_loop ::
    "pubkey list \<Rightarrow> account_info list \<Rightarrow> event list \<Rightarrow> u64 \<Rightarrow> dex_state \<Rightarrow> ledger \<Rightarrow>
     (u64 \<times> dex_state \<times> ledger) program_result" where
  "consume_loop held accts [] n s L = Inr (n, s, L)"
| "consume_loop held accts (ev # evs) n s L =
     (case consume_event held accts ev s L of
        Inl (Err _) \<Rightarrow> Inr (n, s, L)
      | Inl Panic \<Rightarrow> Inl Panic
      | Inr (s', L') \<Rightarrow> consume_loop held accts evs (n + 1) s' L')"

definition consume_events_process ::
    "externals \<Rightarrow> pubkey \<Rightarrow> account_info list \<Rightarrow> u8 list \<Rightarrow> ledger \<Rightarrow> ledger program_result" where
  "consume_events_process env program_id accts instruction_data L =
     and_then (consume_events_parse program_id L accts) (\<lambda>a.
     and_then (ok_or (try_from_bytes CONSUME_EVENTS_PARAMS_LEN consume_events_params_of_bytes
       instruction_data) InvalidInstructionData) (\<lambda>p.
     and_then (dex_state_get L (key (cea_market a))) (\<lambda>s.
     and_then (borrow [key (cea_market a)] (cea_event_queue a)) (\<lambda>_.
     and_then (event_queue_from_buffer env (data (L (key (cea_event_queue a))))) (\<lambda>events.
     and_then (unwrap_result (consume_events_check_accounts s a)) (\<lambda>_.
     and_then (consume_loop [key (cea_market a), key (cea_event_queue a)] (cea_user_accounts a)
       (take (unat (cep_max_iterations p)) events) 0 s L) (\<lambda>(total_iterations, s, L).
     let L = dex_state_put (key (cea_market a)) s L in
     if total_iterations = 0
     then (if cep_no_op_err p = 1 then dex_fail NoOp else Inr L)
     else or_aob_error (aob_consume_events env program_id (cea_orderbook a) (cea_event_queue a)
       total_iterations L))))))))"

section \<open>Finding the account of an event\<close>

lemma binary_search_window_found:
  "binary_search_window f k xs l r = Inr i \<Longrightarrow> l \<le> i \<and> i < r \<and> f (xs ! i) = k"
proof (induction f k xs l r rule: binary_search_window.induct)
  case (1 f k xs l r)
  from 1(3) show ?case
    by (subst (asm) binary_search_window.simps)
      (fastforce simp: Let_def split: if_splits dest: 1(1,2))
qed

lemma binary_search_window_complete:
  "sorted (map f xs) \<Longrightarrow> r \<le> length xs \<Longrightarrow> l \<le> i \<Longrightarrow> i < r \<Longrightarrow> f (xs ! i) = k \<Longrightarrow>
   \<exists>j. binary_search_window f k xs l r = Inr j"
proof (induction f k xs l r rule: binary_search_window.induct)
  case (1 f k xs l r)
  let ?mid = "l + (r - l) div 2"
  have mono: "f (xs ! j) \<le> f (xs ! j')" if "j \<le> j'" "j' < r" for j j'
    using sorted_nth_mono [OF 1(3) that(1)] that 1(4) by simp
  have lr: "l < r" and mid: "?mid < r"
    using 1(5,6) by auto
  consider "f (xs ! ?mid) < k" | "k < f (xs ! ?mid)" | "f (xs ! ?mid) = k"
    by fastforce
  then show ?case
  proof cases
    case 1
    then have "\<not> i \<le> ?mid"
      using mono [of i ?mid] mid "1.prems"(5) by auto
    with 1 show ?thesis
      using "1.IH"(1) [OF lr refl refl 1] "1.prems" lr
      by (subst binary_search_window.simps) (simp add: Let_def)
  next
    case 2
    then have "\<not> ?mid \<le> i"
      using mono [of ?mid i] "1.prems"(4,5) by auto
    with 2 show ?thesis
      using "1.IH"(2) [OF lr refl refl _ 2] "1.prems" lr mid
      by (subst binary_search_window.simps) (auto simp: Let_def)
  next
    case 3
    with lr show ?thesis
      by (subst binary_search_window.simps) (simp add: Let_def)
  qed
qed

lemma binary_search_by_key_found:
  "binary_search_by_key f k xs = Inr i \<Longrightarrow> i < length xs \<and> f (xs ! i) = k"
  by (auto simp: binary_search_by_key_def dest: binary_search_window_found)

lemma binary_search_by_key_complete:
  assumes "sorted (map f xs)" and "k \<in> f ` set xs"
  shows "\<exists>i. binary_search_by_key f k xs = Inr i"
proof -
  from assms(2) obtain i where "i < length xs" and "f (xs ! i) = k"
    by (auto simp: in_set_conv_nth)
  then show ?thesis
    using binary_search_window_complete [OF assms(1)] by (auto simp: binary_search_by_key_def)
qed

lemma event_account_key:
  "event_account accts k = Inr a \<Longrightarrow> a \<in> set accts \<and> key a = k"
  by (auto simp: event_account_def index_slice_def split: sum.splits if_splits
      dest: binary_search_by_key_found)

lemma event_account_present:
  assumes "sorted (map key accts)" and "k \<in> key ` set accts"
  shows "\<exists>a. event_account accts k = Inr a"
  using binary_search_by_key_complete [OF assms]
  by (auto simp: event_account_def index_slice_def dest: binary_search_by_key_found)

lemma event_account_missing:
  "k \<notin> key ` set accts \<Longrightarrow> event_account accts k = Inl (Err MissingUserAccount)"
  by (cases "event_account accts k")
    (auto simp: event_account_def index_slice_def split: sum.splits if_splits
      dest: binary_search_by_key_found event_account_key)

lemma event_account_eq_Err:
  "event_account accts k = Inl (Err e) \<Longrightarrow> e = MissingUserAccount"
  by (auto simp: event_account_def index_slice_def split: sum.splits if_splits)

lemma borrow_user_account_eq_Inr [res_simps]:
  "borrow_user_account held L a = Inr u \<longleftrightarrow> key a \<notin> set held \<and> user_account_get L (key a) = Inr u"
  by (simp add: borrow_user_account_def user_account_get_def res_simps)

lemma borrow_user_account_not_Err [simp]: "borrow_user_account held L a \<noteq> Inl (Err e)"
  by (simp add: borrow_user_account_def and_then_eq_Inl)

section \<open>What an event does\<close>

definition fill_base :: "dex_state \<Rightarrow> fill_event \<Rightarrow> nat" where
  "fill_base s ev = unat (fe_base_size ev) * unat (ds_base_currency_multiplier s)"

definition fill_quote :: "dex_state \<Rightarrow> fill_event \<Rightarrow> nat" where
  "fill_quote s ev = unat (fe_quote_size ev) * unat (ds_quote_currency_multiplier s)"

definition out_base :: "dex_state \<Rightarrow> out_event \<Rightarrow> nat" where
  "out_base s ev = unat (oe_base_size ev) * unat (ds_base_currency_multiplier s)"

definition referral_share :: "fee_tier \<Rightarrow> bool \<Rightarrow> nat \<Rightarrow> nat" where
  "referral_share tier referred q =
     (if referred then q * (taker_rate_nat tier div 5) div 2 ^ 32 else 0)"

lemma consume_fill_fees_eq_Inr:
  assumes "consume_fill_fees s tier referred mt q = Inr s'"
  shows "unat (ds_accumulated_fees s') = unat (ds_accumulated_fees s)
           + (unat q * taker_rate_nat tier div 2 ^ 32 - referral_share tier referred (unat q))"
    and "unat (ds_accumulated_royalties s') = unat (ds_accumulated_royalties s)
           + unat q * unat (ds_royalties_bps s) div 10000"
    and "s' = s\<lparr>ds_accumulated_fees := ds_accumulated_fees s',
                ds_accumulated_royalties := ds_accumulated_royalties s'\<rparr>"
proof -
  from assms obtain fee bps ref tot fees royalties where
    fee: "taker_fee tier q = (Inr fee :: u64 dex_result)"
    and bps: "checked_mul (ds_royalties_bps s) q = Some bps"
    and ref: "(if referred then referral_fee tier q else Inr 0) = (Inr ref :: u64 dex_result)"
    and sub: "Option.bind (checked_sub fee 0) (\<lambda>n. checked_sub n ref) = Some tot"
    and add: "checked_add (ds_accumulated_fees s) tot = Some fees"
      "checked_add (ds_accumulated_royalties s) (bps div 10000) = Some royalties"
    and s': "s' = s\<lparr>ds_accumulated_fees := fees, ds_accumulated_royalties := royalties\<rparr>"
    by (auto simp: consume_fill_fees_def Let_def res_simps maker_rebate_def)
  have tot: "unat tot + unat ref = unat fee"
    and fees: "unat fees = unat (ds_accumulated_fees s) + unat tot"
    and roy: "unat royalties = unat (ds_accumulated_royalties s) + unat (bps div 10000)"
    using sub add by (auto simp: bind_eq_Some_conv checked_simps)
  have r: "unat ref = referral_share tier referred (unat q)"
    using ref by (auto simp: referral_share_def referral_fee_iff split: if_splits)
  show "unat (ds_accumulated_fees s') = unat (ds_accumulated_fees s)
           + (unat q * taker_rate_nat tier div 2 ^ 32 - referral_share tier referred (unat q))"
    using fee tot fees r by (simp add: s' taker_fee_iff)
  show "unat (ds_accumulated_royalties s') = unat (ds_accumulated_royalties s)
           + unat q * unat (ds_royalties_bps s) div 10000"
    using bps roy by (simp add: s' checked_simps unat_div mult.commute)
  show "s' = s\<lparr>ds_accumulated_fees := ds_accumulated_fees s',
                ds_accumulated_royalties := ds_accumulated_royalties s'\<rparr>"
    by (simp add: s')
qed

lemma consume_fill_maker_eq_Inr:
  assumes "consume_fill_maker sd b q (maker_rebate t q') (ua_header u) = Inr h"
  shows "position_of (u\<lparr>ua_header := h\<rparr>) = maker_movement sd (unat b) (unat q) (position_of u)"
    and "maker_covers sd (unat b) (unat q) (position_of u)"
    and "uh_tag h = uh_tag (ua_header u)" and "uh_number_of_orders h = uh_number_of_orders (ua_header u)"
    and "uh_owner h = uh_owner (ua_header u)" and "uh_market h = uh_market (ua_header u)"
  using assms
  by (cases sd; auto simp: consume_fill_maker_def res_simps maker_rebate_def checked_simps
      position_of_def maker_sold_def maker_bought_def Let_def)+

lemma consume_fill_volumes_eq_Inr:
  assumes "consume_fill_volumes b q h s = Inr (h', s')"
  shows "unat (ds_base_volume s') = unat (ds_base_volume s) + unat b"
    and "unat (ds_quote_volume s') = unat (ds_quote_volume s) + unat q"
    and "s' = s\<lparr>ds_quote_volume := ds_quote_volume s', ds_base_volume := ds_base_volume s'\<rparr>"
    and "h' = h\<lparr>uh_accumulated_maker_quote_volume := uh_accumulated_maker_quote_volume h',
                uh_accumulated_maker_base_volume := uh_accumulated_maker_base_volume h'\<rparr>"
  using assms by (auto simp: consume_fill_volumes_def res_simps checked_simps)

lemma consume_fillE:
  assumes "consume_fill held accts ev maker taker s L = Inr (s', L')"
  obtains q b tier referred mt sd u h h' s1 where
    "checked_mul (fe_quote_size ev) (ds_quote_currency_multiplier s) = Some q"
    and "checked_mul (fe_base_size ev) (ds_base_currency_multiplier s) = Some b"
    and "cb_user_account maker \<notin> set held"
    and "fee_tier_from_u8 (cb_fee_tier taker) = (Inr (tier, referred) :: (fee_tier \<times> bool) dex_result)"
    and "user_account_get L (cb_user_account maker) = Inr u"
    and "consume_fill_fees s tier referred mt q = Inr s1"
    and "fe_taker_side ev = side_code sd"
    and "consume_fill_maker sd b q (maker_rebate mt q) (ua_header u) = Inr h"
    and "consume_fill_volumes b q h s1 = Inr (h', s')"
    and "L' = user_account_put (cb_user_account maker) (u\<lparr>ua_header := h'\<rparr>) L"
  using assms
  by (auto simp: consume_fill_def res_simps side_from_u8_iff split: prod.splits
      dest!: event_account_key)

text \<open>What an event leaves of the market: everything but the counters.\<close>

definition same_market :: "dex_state \<Rightarrow> dex_state \<Rightarrow> bool" where
  "same_market s s' \<longleftrightarrow>
     s' = s\<lparr>ds_accumulated_fees := ds_accumulated_fees s',
            ds_accumulated_royalties := ds_accumulated_royalties s',
            ds_quote_volume := ds_quote_volume s', ds_base_volume := ds_base_volume s'\<rparr>"

lemma same_market_refl [simp]: "same_market s s"
  by (simp add: same_market_def)

lemma same_market_fields:
  assumes "same_market s s'"
  shows "ds_royalties_bps s' = ds_royalties_bps s"
    and "ds_base_currency_multiplier s' = ds_base_currency_multiplier s"
    and "ds_quote_currency_multiplier s' = ds_quote_currency_multiplier s"
    and "ds_tag s' = ds_tag s"
  by (subst assms [unfolded same_market_def], simp)+

lemma consume_fill_effect:
  assumes "consume_fill held accts ev maker taker s L = Inr (s', L')"
  defines "k \<equiv> cb_user_account maker"
  obtains tier referred sd u u' where
    "fee_tier_from_u8 (cb_fee_tier taker) = (Inr (tier, referred) :: (fee_tier \<times> bool) dex_result)"
    and "unat (ds_accumulated_fees s') = unat (ds_accumulated_fees s)
       + (fill_quote s ev * taker_rate_nat tier div 2 ^ 32 - referral_share tier referred (fill_quote s ev))"
    and "unat (ds_accumulated_royalties s') = unat (ds_accumulated_royalties s)
       + fill_quote s ev * unat (ds_royalties_bps s) div 10000"
    and "unat (ds_base_volume s') = unat (ds_base_volume s) + fill_base s ev"
    and "unat (ds_quote_volume s') = unat (ds_quote_volume s) + fill_quote s ev"
    and "same_market s s'"
    and "fe_taker_side ev = side_code sd" and "k \<notin> set held"
    and "user_account_get L k = Inr u" and "user_account_get L' k = Inr u'"
    and "position_of u' = maker_movement sd (fill_base s ev) (fill_quote s ev) (position_of u)"
    and "maker_covers sd (fill_base s ev) (fill_quote s ev) (position_of u)"
    and "ua_orders u' = ua_orders u" and "open_orders u' = open_orders u"
    and "L' = user_account_put k u' L"
proof (rule consume_fillE [OF assms(1)], goal_cases)
  case (1 q b tier referred mt sd u h h' s1)
  from 1(2,3) have qb: "unat q = fill_quote s ev" "unat b = fill_base s ev"
    by (simp_all add: checked_simps fill_quote_def fill_base_def)
  note fees = consume_fill_fees_eq_Inr [OF 1(7)]
  note mk = consume_fill_maker_eq_Inr [OF 1(9)]
  note vol = consume_fill_volumes_eq_Inr [OF 1(10)]
  have s1: "ds_base_volume s1 = ds_base_volume s" "ds_quote_volume s1 = ds_quote_volume s"
    by (subst fees(3), simp)+
  have s': "ds_accumulated_fees s' = ds_accumulated_fees s1"
    "ds_accumulated_royalties s' = ds_accumulated_royalties s1"
    by (subst vol(3), simp)+
  have same: "same_market s s'"
    unfolding same_market_def s' by (rule trans [OF vol(3)], subst fees(3)) simp
  let ?u = "u\<lparr>ua_header := h'\<rparr>"
  have h': "uh_tag h' = uh_tag (ua_header u)"
    "uh_number_of_orders h' = uh_number_of_orders (ua_header u)"
    "position_of ?u = position_of (u\<lparr>ua_header := h\<rparr>)"
    using mk(3,4) by (subst vol(4), simp add: position_of_def)+
  have "user_valid ?u"
    using user.load_valid [OF 1(6)] h'(1) by (simp add: user_valid_def)
  then have get: "user_account_get L' k = Inr ?u"
    using 1(6) by (simp add: 1(11) k_def user.load_store)
  show thesis
    using fees(1,2) mk(1,2) vol(1,2) 1(4-6,8,11) h' get s1 s'
    by (intro that [of tier referred sd u ?u]) (simp_all add: qb k_def open_orders_def same)
qed

text \<open>An order that left the book.\<close>

definition out_quote :: "dex_state \<Rightarrow> out_event \<Rightarrow> nat" where
  "out_quote s ev = out_base s ev * (unat (oe_order_id ev) div 2 ^ 64) div 2 ^ 32"

lemma unat_order_price: "unat (ucast (drop_bit 64 (oid :: u128)) :: u64) = unat oid div 2 ^ 64"
proof -
  have "unat oid div 2 ^ 64 < 2 ^ 64"
    using unsigned_less [of oid, where ?'a = nat] by (simp add: less_mult_imp_div_less)
  then show ?thesis
    by (simp add: unat_ucast_u64_small unat_shift_right)
qed

lemma consume_out_release_eq_Inr:
  assumes "consume_out_release sd b oid (ua_header u) = Inr h"
  defines "q \<equiv> unat b * (unat oid div 2 ^ 64) div 2 ^ 32"
  shows "position_of (u\<lparr>ua_header := h\<rparr>) = release_movement sd (unat b) q (position_of u)"
    and "release_covers sd (unat b) q (position_of u)"
    and "uh_tag h = uh_tag (ua_header u)" and "uh_number_of_orders h = uh_number_of_orders (ua_header u)"
proof -
  have "position_of (u\<lparr>ua_header := h\<rparr>) = release_movement sd (unat b) q (position_of u) \<and>
    release_covers sd (unat b) q (position_of u) \<and> uh_tag h = uh_tag (ua_header u) \<and>
    uh_number_of_orders h = uh_number_of_orders (ua_header u)"
  proof (cases sd)
    case Ask
    then show ?thesis
      using assms(1) by (auto simp: consume_out_release_def res_simps checked_simps position_of_def
          release_base_def Let_def)
  next
    case Bid
    with assms(1) obtain n where n: "fp32_mul b (ucast (drop_bit 64 oid)) = Some n"
      and "\<exists>f l. checked_add (uh_quote_token_free (ua_header u)) n = Some f \<and>
        checked_sub (uh_quote_token_locked (ua_header u)) n = Some l \<and>
        h = (ua_header u)\<lparr>uh_quote_token_free := f, uh_quote_token_locked := l\<rparr>"
      by (auto simp: consume_out_release_def res_simps Let_def)
    moreover from n have "unat n = q"
      by (simp only: fp32_mul_iff unat_order_price q_def)
    ultimately show ?thesis
      using Bid by (auto simp: checked_simps position_of_def release_quote_def Let_def)
  qed
  then show "position_of (u\<lparr>ua_header := h\<rparr>) = release_movement sd (unat b) q (position_of u)"
    and "release_covers sd (unat b) q (position_of u)"
    and "uh_tag h = uh_tag (ua_header u)" and "uh_number_of_orders h = uh_number_of_orders (ua_header u)"
    by simp_all
qed

lemma consume_outE:
  assumes "consume_out held accts ev info s L = Inr (s', L')"
  obtains u b h i u' where "s' = s" and "cb_user_account info \<notin> set held"
    and "user_account_get L (cb_user_account info) = Inr u"
    and "checked_mul (oe_base_size ev) (ds_base_currency_multiplier s) = Some b"
    and "(if b \<noteq> 0 then and_then (unwrap (side_from_u8 (oe_side ev)))
           (\<lambda>sd. consume_out_release sd b (oe_order_id ev) (ua_header u))
         else Inr (ua_header u)) = Inr h"
    and "find_order_index (u\<lparr>ua_header := h\<rparr>) (oe_order_id ev) = Inr i"
    and "remove_order (u\<lparr>ua_header := h\<rparr>) i = Inr u'"
    and "L' = user_account_put (cb_user_account info) u' L"
  using assms by (auto simp: consume_out_def Let_def res_simps dest!: event_account_key)

lemma remove_found_order:
  assumes "orders_wf u" and "find_order_index u oid = Inr i" and "remove_order u i = Inr u'"
  obtains x where "o_id x = oid" and "mset (open_orders u) = add_mset x (mset (open_orders u'))"
    and "orders_wf u'"
proof
  have "i < length (open_orders u)"
    using orders.remove_Inr [OF assms(1,3)] by blast
  with assms(2) show "o_id (open_orders u ! i) = oid"
    by (simp add: find_order_index_eq_Inr open_orders_def)
  show "mset (open_orders u) = add_mset (open_orders u ! i) (mset (open_orders u'))"
    and "orders_wf u'"
    using orders.remove_Inr_mset [OF assms(1,3)] orders.remove_Inr [OF assms(1,3)] by blast+
qed

lemma consume_out_effect:
  assumes "consume_out held accts ev info s L = Inr (s', L')"
  defines "k \<equiv> cb_user_account info"
  obtains u u' where "s' = s" and "k \<notin> set held"
    and "user_account_get L k = Inr u" and "user_account_get L' k = Inr u'"
    and "\<And>sd. oe_side ev = side_code sd \<Longrightarrow>
      position_of u' = release_movement sd (out_base s ev) (out_quote s ev) (position_of u) \<and>
      release_covers sd (out_base s ev) (out_quote s ev) (position_of u)"
    and "orders_wf u \<Longrightarrow> orders_wf u' \<and> (\<exists>x. o_id x = oe_order_id ev \<and>
      mset (open_orders u) = add_mset x (mset (open_orders u')))"
    and "L' = user_account_put k u' L"
proof (rule consume_outE [OF assms(1)], goal_cases)
  case (1 u b h i u')
  let ?u = "u\<lparr>ua_header := h\<rparr>"
  from 1(5) have b: "unat b = out_base s ev"
    by (simp add: checked_simps out_base_def)
  have h: "uh_tag h = uh_tag (ua_header u)" "uh_number_of_orders h = uh_number_of_orders (ua_header u)"
    using 1(6) by (auto simp: res_simps dest: consume_out_release_eq_Inr(3,4) split: if_splits)
  have pos: "position_of ?u = release_movement sd (out_base s ev) (out_quote s ev) (position_of u) \<and>
      release_covers sd (out_base s ev) (out_quote s ev) (position_of u)"
    if "oe_side ev = side_code sd" for sd
  proof (cases "b = 0")
    case True
    with 1(6) b show ?thesis by (auto simp: out_quote_def position_of_def)
  next
    case False
    with 1(6) that have "consume_out_release sd b (oe_order_id ev) (ua_header u) = Inr h"
      by simp
    from consume_out_release_eq_Inr(1,2) [OF this] show ?thesis
      by (simp add: b out_quote_def)
  qed
  have "user_valid u'"
    using user.load_valid [OF 1(4)] remove_order_frame(1) [OF 1(8)] h by (simp add: user_valid_def)
  then have get: "user_account_get L' k = Inr u'"
    using 1(4) by (simp add: 1(9) k_def user.load_store)
  have orders: "orders_wf u' \<and> (\<exists>x. o_id x = oe_order_id ev \<and>
      mset (open_orders u) = add_mset x (mset (open_orders u')))" if "orders_wf u"
  proof -
    have "orders_wf ?u" and o: "open_orders ?u = open_orders u"
      using that h by (simp_all add: orders_wf_def open_orders_def)
    from remove_found_order [OF this(1) 1(7,8)] show ?thesis
      unfolding o by metis
  qed
  show thesis
    using 1(2-4,9) get pos orders position_of_remove_order [OF 1(8)]
    by (intro that [of u u']) (simp_all add: k_def)
qed

text \<open>
  What \<open>new_order\<close> locks for a posted bid of the remaining quantity at the price in the order
  identifier: the value is converted with the market's multipliers, which the event does not do.
\<close>

definition out_locked :: "dex_state \<Rightarrow> out_event \<Rightarrow> u64 option" where
  "out_locked s ev = get_quote_from_base s (oe_base_size ev * ds_base_currency_multiplier s)
     (ucast (drop_bit 64 (oe_order_id ev)))"

lemma out_base_fits:
  "checked_mul (oe_base_size ev) (ds_base_currency_multiplier s) \<noteq> None \<longleftrightarrow> out_base s ev < 2 ^ 64"
  by (simp add: checked_mul_def out_base_def split: if_splits)

lemma out_locked_eq:
  assumes "out_locked s ev = Some v" and "out_base s ev < 2 ^ 64"
  shows "unat v = out_quote s ev * unat (ds_quote_currency_multiplier s)
           div unat (ds_base_currency_multiplier s)"
    and "ds_base_currency_multiplier s \<noteq> 0"
proof -
  have "unat (oe_base_size ev * ds_base_currency_multiplier s) = out_base s ev"
    using assms(2) by (simp add: out_base_def unat_mult_lem [THEN iffD1])
  then show "unat v = out_quote s ev * unat (ds_quote_currency_multiplier s)
           div unat (ds_base_currency_multiplier s)"
    and "ds_base_currency_multiplier s \<noteq> 0"
    using assms(1) by (simp_all add: out_locked_def get_quote_from_base_iff unat_order_price out_quote_def)
qed

section \<open>The loop\<close>

text \<open>The reference for the loop: all the events of a list, one after the other.\<close>

fun apply_events ::
    "pubkey list \<Rightarrow> account_info list \<Rightarrow> event list \<Rightarrow> dex_state \<Rightarrow> ledger \<Rightarrow>
     (dex_state \<times> ledger) dex_result" where
  "apply_events held accts [] s L = Inr (s, L)"
| "apply_events held accts (ev # evs) s L =
     and_then (consume_event held accts ev s L) (\<lambda>(s, L). apply_events held accts evs s L)"

fun event_user :: "event \<Rightarrow> pubkey" where
  "event_user (Fill ev maker taker) = cb_user_account maker"
| "event_user (Out ev info) = cb_user_account info"

lemma consume_event_eq_Err:
  assumes "consume_event held accts ev s L = Inl (Err e)"
  shows "event_account accts (event_user ev) = Inl (Err MissingUserAccount) \<and> e = MissingUserAccount"
proof -
  have "\<And>t. fee_tier_from_u8 t \<noteq> Inl (Err e)" "\<And>h s b q. consume_fill_volumes b q h s \<noteq> Inl (Err e)"
    "\<And>sd b q r h. consume_fill_maker sd b q r h \<noteq> Inl (Err e)"
    "\<And>s t r m q. consume_fill_fees s t r m q \<noteq> Inl (Err e)"
    "\<And>sd b oid h. consume_out_release sd b oid h \<noteq> Inl (Err e)"
    by (simp_all add: fee_tier_from_u8_def Let_def and_then_eq_Inl consume_fill_volumes_def
        consume_fill_maker_def consume_fill_fees_def taker_fee_def referral_fee_def
        consume_out_release_def split: side.splits)
  with assms have "event_account accts (event_user ev) = Inl (Err e)"
    by (cases ev) (auto simp: consume_fill_def consume_out_def and_then_eq_Inl Let_def
        split: prod.splits if_splits)
  with event_account_eq_Err [OF this] show ?thesis
    by simp
qed

lemma consume_event_present:
  assumes "sorted (map key accts)" and "event_user ev \<in> key ` set accts"
  shows "consume_event held accts ev s L \<noteq> Inl (Err e)"
  using consume_event_eq_Err event_account_present [OF assms] by fastforce

text \<open>An event that asks for more than the account has locked panics.\<close>

lemma consume_out_uncovered:
  assumes "event_account accts (cb_user_account info) = Inr acct"
    and "user_account_get L (cb_user_account info) = Inr u"
    and "oe_side ev = side_code sd"
    and "\<not> release_covers sd (out_base s ev) (out_quote s ev) (position_of u)"
  shows "consume_out held accts ev info s L = Inl Panic"
proof (cases "consume_out held accts ev info s L")
  case (Inr sL)
  obtain s' L' where "consume_out held accts ev info s L = Inr (s', L')"
    using Inr by (cases sL) simp
  then show ?thesis
  proof (rule consume_out_effect, goal_cases)
    case (1 u1 u')
    with 1(5) [OF assms(3)] assms(2,4) show ?case by simp
  qed
next
  case (Inl e)
  then show ?thesis
    using consume_event_eq_Err [of held accts "Out ev info" s L] assms(1) by (cases e) auto
qed

lemma consume_event_same_market:
  assumes "consume_event held accts ev s L = Inr (s', L')"
  shows "same_market s s'"
  using assms
  by (cases ev) (auto elim: consume_fill_effect consume_out_effect)

lemma same_market_trans: "same_market s s' \<Longrightarrow> same_market s' s'' \<Longrightarrow> same_market s s''"
  by (cases s; cases s'; cases s'') (simp add: same_market_def)

lemma consume_loop_eq_Inr:
  assumes "consume_loop held accts evs n s L = Inr (n', s', L')"
  shows "\<exists>m \<le> length evs. n' = n + of_nat m \<and> apply_events held accts (take m evs) s L = Inr (s', L') \<and>
    (m = length evs \<or> consume_event held accts (evs ! m) s' L' = Inl (Err MissingUserAccount))"
  using assms
proof (induction held accts evs n s L rule: consume_loop.induct)
  case (2 held accts ev evs n s L)
  show ?case
  proof (cases "consume_event held accts ev s L")
    case (Inl f)
    with 2(2) obtain e where f: "f = Err e" and eq: "n' = n" "s' = s" "L' = L"
      by (cases f) auto
    have "consume_event held accts ev s L = Inl (Err MissingUserAccount)"
      using consume_event_eq_Err [OF Inl [unfolded f]] Inl f by simp
    with eq show ?thesis
      by (intro exI [of _ 0]) simp
  next
    case (Inr p)
    obtain s1 L1 where p: "p = (s1, L1)" by (cases p)
    with Inr 2(2) have "consume_loop held accts evs (n + 1) s1 L1 = Inr (n', s', L')"
      by simp
    from 2(1) [OF Inr p [symmetric] this] obtain m where "m \<le> length evs" "n' = n + 1 + of_nat m"
      "apply_events held accts (take m evs) s1 L1 = Inr (s', L')"
      "m = length evs \<or> consume_event held accts (evs ! m) s' L' = Inl (Err MissingUserAccount)"
      by blast
    with Inr p show ?thesis
      by (intro exI [of _ "Suc m"]) auto
  qed
qed simp

lemma apply_events_append:
  "apply_events held accts (xs @ ys) s L =
     and_then (apply_events held accts xs s L) (\<lambda>(s, L). apply_events held accts ys s L)"
proof (induction xs arbitrary: s L)
  case (Cons x xs)
  then show ?case
    by (cases "consume_event held accts x s L") auto
qed simp

lemma apply_events_same_market:
  "apply_events held accts evs s L = Inr (s', L') \<Longrightarrow> same_market s s'"
proof (induction evs arbitrary: s L)
  case (Cons ev evs)
  then show ?case
    by (auto simp: res_simps dest!: consume_event_same_market intro: same_market_trans)
qed simp

section \<open>The handler\<close>

interpretation consume_events_params_codec:
  codec consume_events_params_bytes consume_events_params_of_bytes CONSUME_EVENTS_PARAMS_LEN
  by unfold_locales
    (simp_all add: consume_events_params_bytes_def consume_events_params_of_bytes_def
      CONSUME_EVENTS_PARAMS_LEN_def struct_simps struct_inverse)

lemma consume_events_processE:
  assumes "consume_events_process env program_id accts (consume_events_params_bytes p) L = Inr L'"
    and "consume_events_parse program_id L accts = Inr a"
    and "dex_state_get L (key (cea_market a)) = Inr s"
    and "event_queue_from_buffer env (data (L (key (cea_event_queue a)))) = Inr events"
  obtains n s1 L1 where
    "consume_loop [key (cea_market a), key (cea_event_queue a)] (cea_user_accounts a)
       (take (unat (cep_max_iterations p)) events) 0 s L = Inr (n, s1, L1)"
    and "if n = 0 then cep_no_op_err p \<noteq> 1 \<and> L' = dex_state_put (key (cea_market a)) s1 L1
         else aob_consume_events env program_id (cea_orderbook a) (cea_event_queue a) n
           (dex_state_put (key (cea_market a)) s1 L1) = Inr L'"
    and "key (cea_orderbook a) = ds_orderbook s"
    and "key (cea_market a) \<noteq> key (cea_event_queue a)"
  using assms
  by (auto simp: consume_events_process_def consume_events_params_codec.try_from_bytes_enc
      res_simps consume_events_check_accounts_def Let_def split: if_splits)

lemma consume_events_front_panics:
  assumes "consume_events_parse program_id L accts = Inr a"
    and "dex_state_get L (key (cea_market a)) = Inr s"
    and "key (cea_event_queue a) \<noteq> key (cea_market a)" and "key (cea_orderbook a) = ds_orderbook s"
    and "event_queue_from_buffer env (data (L (key (cea_event_queue a)))) = Inr (ev # events)"
    and "0 < cep_max_iterations p"
    and "consume_event [key (cea_market a), key (cea_event_queue a)] (cea_user_accounts a) ev s L
       = Inl Panic"
  shows "consume_events_process env program_id accts (consume_events_params_bytes p) L = Inl Panic"
proof -
  obtain k where "unat (cep_max_iterations p) = Suc k"
    using assms(6) by (metis gr0_implies_Suc unat_gt_0 word_not_simps(1) word_gt_0)
  with assms show ?thesis
    by (simp add: consume_events_process_def consume_events_params_codec.try_from_bytes_enc
        borrow_def consume_events_check_accounts_def check_account_key_def)
qed

lemma consume_loop_prefix:
  assumes "consume_loop held accts (take (unat (k :: u64)) events) 0 s L = Inr (n', s1, L1)"
  obtains n where "n \<le> min (unat k) (length events)" and "n' = of_nat n" and "n' = 0 \<longleftrightarrow> n = 0"
    and "apply_events held accts (take n events) s L = Inr (s1, L1)"
    and "n = min (unat k) (length events) \<or>
      event_account accts (event_user (events ! n)) = Inl (Err MissingUserAccount)"
proof -
  from consume_loop_eq_Inr [OF assms] obtain n where le: "n \<le> length (take (unat k) events)"
    and n': "n' = 0 + of_nat n"
    and run: "apply_events held accts (take n (take (unat k) events)) s L = Inr (s1, L1)"
    and stop: "n = length (take (unat k) events) \<or>
      consume_event held accts (take (unat k) events ! n) s1 L1 = Inl (Err MissingUserAccount)"
    by blast
  from le n' have n: "n \<le> min (unat k) (length events)" "n' = of_nat n"
    by simp_all
  have "n < 2 ^ 64"
    using n(1) unat_u64 [of k] by simp
  then have zero: "n' = 0 \<longleftrightarrow> n = 0"
    by (simp add: n(2) word_unat_eq_iff unat_of_nat)
  from n(1) run have run': "apply_events held accts (take n events) s L = Inr (s1, L1)"
    by (simp add: min_absorb1)
  have "n = min (unat k) (length events) \<or>
      event_account accts (event_user (events ! n)) = Inl (Err MissingUserAccount)"
    using stop n(1) consume_event_eq_Err [of held accts "events ! n"]
    by (cases "n = min (unat k) (length events)") (auto simp: min_def split: if_splits)
  then show thesis
    by (rule that [OF n(1,2) zero run'])
qed

section \<open>A concrete queue\<close>

text \<open>Fills of the example user's order by a bid and by an ask, and its removal from the book.\<close>

definition ex_callback :: "pubkey \<Rightarrow> u8 \<Rightarrow> callback_info" where
  "ex_callback k t = \<lparr>cb_user_account = k, cb_fee_tier = t\<rparr>"

definition ex_fill :: "u8 \<Rightarrow> u8 \<Rightarrow> event" where
  "ex_fill sd tier =
     Fill \<lparr>fe_taker_side = sd, fe_maker_order_id = 18446744073709551617, fe_quote_size = 3000,
           fe_base_size = 100\<rparr> (ex_callback 10 0) (ex_callback 14 tier)"

definition ex_out :: event where
  "ex_out = Out \<lparr>oe_side = 1, oe_order_id = 18446744073709551617, oe_base_size = 200\<rparr>
     (ex_callback 10 0)"

definition ex_queue_infos :: "account_info list" where
  "ex_queue_infos = [ex_info 3 False, ex_info 4 False, ex_info 5 False, ex_info 16 False,
     ex_info 10 False, ex_info 14 False]"

definition ex_queue_accounts :: consume_events_accounts where
  "ex_queue_accounts =
     \<lparr>cea_market = ex_info 3 False, cea_orderbook = ex_info 4 False,
      cea_event_queue = ex_info 5 False, cea_reward_target = ex_info 16 False,
      cea_user_accounts = [ex_info 10 False, ex_info 14 False]\<rparr>"

definition ex_queue_params :: consume_events_params where
  "ex_queue_params = \<lparr>cep_max_iterations = 10, cep_no_op_err = 1\<rparr>"

lemma ex_queue_parse: "consume_events_parse 100 ex_ledger ex_queue_infos = Inr ex_queue_accounts"
  by (simp add: consume_events_parse_def ex_queue_infos_def ex_queue_accounts_def ex_info_def
      check_account_owner_def)

lemma ex_event_account:
  "event_account [ex_info 10 False, ex_info 14 False] 10 = Inr (ex_info 10 False)"
  by (simp add: event_account_def binary_search_by_key_def binary_search_window.simps ex_info_def
      index_slice_def)

lemmas consume_eval = consume_fill_def consume_out_def borrow_user_account_def
  consume_fill_fees_def consume_fill_maker_def consume_fill_volumes_def consume_out_release_def
  fee_tier_from_u8_def ex_callback_def find_order_index_def remove_order_def

lemma ex_fill_runs:
  "\<exists>s' L'. consume_event [3, 5] [ex_info 10 False, ex_info 14 False] (ex_fill 0 0) ex_market ex_ledger
     = Inr (s', L')"
  "\<exists>s' L'. consume_event [3, 5] [ex_info 10 False, ex_info 14 False] (ex_fill 1 0) ex_market ex_ledger
     = Inr (s', L')"
  by (simp_all add: ex_fill_def ex_event_account consume_eval eval_defs)
    (simp_all add: ex_defs)

lemma ex_out_runs:
  "\<exists>s' L'. consume_event [3, 5] [ex_info 10 False, ex_info 14 False] ex_out ex_market ex_ledger
     = Inr (s', L')"
  by (simp add: ex_out_def ex_event_account consume_eval eval_defs)
    (simp add: ex_defs consume_eval eval_defs)

definition ex_queue_env :: externals where
  "ex_queue_env = ex_env ex_no_summary [ex_fill 0 0, ex_out]"

lemma from_buffer_put:
  "user_valid u \<Longrightarrow> from_buffer (data (user_account_put k u L k)) = Inr u"
  by (simp add: user_account_put_def from_buffer_eq_Inr from_buffer_unchecked_bytes)

lemma ex_queue_runs:
  "\<exists>L'. consume_events_process ex_queue_env 100 ex_queue_infos
     (consume_events_params_bytes ex_queue_params) ex_ledger = Inr L'"
proof -
  have "\<exists>s' L'. consume_loop [3, 5] [ex_info 10 False, ex_info 14 False] [ex_fill 0 0, ex_out]
      0 ex_market ex_ledger = Inr (2, s', L')"
    by (simp add: ex_fill_def ex_out_def ex_event_account consume_eval eval_defs)
      (simp add: ex_defs consume_eval eval_defs from_buffer_put user_valid_def
          ex_event_account [unfolded ex_info_def])
  moreover have "key (ex_info k b) = k" "ds_orderbook ex_market = 4" for k b
    by (simp_all add: ex_info_def ex_market_def)
  ultimately show ?thesis
    by (auto simp: consume_events_process_def consume_events_params_codec.try_from_bytes_enc
        ex_queue_parse ex_queue_accounts_def ex_queue_env_def ex_env_def ex_queue_params_def
        borrow_def consume_events_check_accounts_def check_account_key_def
        simp del: consume_loop.simps)
qed

section \<open>Properties\<close>

text \<open>
  C5: A fill moves the maker's balances exactly as a sale or a purchase of the filled amounts
  says, out of what the maker's order had locked, keeps the maker's table of orders, and changes
  no account but the maker's.
\<close>

theorem consume_fill_refines:
  assumes "consume_event held accts (Fill ev maker taker) s L = Inr (s', L')"
    and "fe_taker_side ev = side_code sd"
  shows "\<exists>u u'. user_account_get L (cb_user_account maker) = Inr u \<and>
    user_account_get L' (cb_user_account maker) = Inr u' \<and>
    position_of u' = maker_movement sd (fill_base s ev) (fill_quote s ev) (position_of u) \<and>
    maker_covers sd (fill_base s ev) (fill_quote s ev) (position_of u) \<and>
    open_orders u' = open_orders u \<and>
    (\<forall>k. k \<noteq> cb_user_account maker \<longrightarrow> L' k = L k)"
proof (rule consume_fill_effect [OF assms(1) [unfolded consume_event.simps]], goal_cases)
  case (1 tier referred sd' u u')
  with assms(2) have "sd' = sd"
    by (cases sd; cases sd') auto
  with 1 show ?thesis
    by (auto simp: user.store_other)
qed

theorem consume_fill_refines_witness:
  "\<exists>s' L' u'. consume_event [3, 5] [ex_info 10 False, ex_info 14 False] (ex_fill 0 0) ex_market
       ex_ledger = Inr (s', L') \<and> user_account_get L' 10 = Inr u' \<and>
     position_of u' = maker_movement Bid 100 3000 (position_of ex_user)"
proof -
  obtain s' L' where run: "consume_event [3, 5] [ex_info 10 False, ex_info 14 False] (ex_fill 0 0)
      ex_market ex_ledger = Inr (s', L')"
    using ex_fill_runs(1) by blast
  show ?thesis
    using consume_fill_refines [OF run [unfolded ex_fill_def], of Bid] run
    by (auto simp: ex_callback_def fill_base_def fill_quote_def ex_market_def)
qed

text \<open>
  C17: A fill credits the market with the taker fee less the referral share, rounded down, and
  with the royalties, adds the filled amounts to the volumes, and leaves every other field of the
  market as it was.
\<close>

theorem consume_fill_credits_market:
  assumes "consume_event held accts (Fill ev maker taker) s L = Inr (s', L')"
    and "cb_fee_tier taker = pack_fee_tier tier referred"
  shows "tier \<notin> {MSrm, Stable} \<and>
    unat (ds_accumulated_fees s') = unat (ds_accumulated_fees s)
      + (fill_quote s ev * taker_rate_nat tier div 2 ^ 32
         - referral_share tier referred (fill_quote s ev)) \<and>
    unat (ds_accumulated_royalties s') = unat (ds_accumulated_royalties s)
      + fill_quote s ev * unat (ds_royalties_bps s) div 10000 \<and>
    unat (ds_base_volume s') = unat (ds_base_volume s) + fill_base s ev \<and>
    unat (ds_quote_volume s') = unat (ds_quote_volume s) + fill_quote s ev \<and>
    same_market s s'"
proof (rule consume_fill_effect [OF assms(1) [unfolded consume_event.simps]], goal_cases)
  case (1 tier' referred' sd u u')
  have "tier \<notin> {MSrm, Stable} \<and> tier' = tier \<and> referred' = referred"
    using 1(1) by (simp add: assms(2) fee_tier_from_u8_pack split: if_splits)
  with 1 show ?thesis
    by auto
qed

theorem consume_fill_credits_market_witness:
  "\<exists>s' L'. consume_event [3, 5] [ex_info 10 False, ex_info 14 False] (ex_fill 0 0) ex_market
       ex_ledger = Inr (s', L') \<and>
     unat (ds_accumulated_fees s') = 71 \<and> unat (ds_quote_volume s') = 3000 \<and> same_market ex_market s'"
proof -
  obtain s' L' where run: "consume_event [3, 5] [ex_info 10 False, ex_info 14 False] (ex_fill 0 0)
      ex_market ex_ledger = Inr (s', L')"
    using ex_fill_runs(1) by blast
  show ?thesis
    using consume_fill_credits_market [OF run [unfolded ex_fill_def], of Base False] run
    by (auto simp: ex_callback_def fill_quote_def pack_fee_tier_def referral_share_def ex_market_def)
qed

text \<open>
  C16: An order that leaves the book releases its remaining base quantity (an ask), or that quantity
  times the price in the order identifier, rounded down and not converted with the market's
  multipliers (a bid), and the account must have that much locked. What \<open>new_order\<close> locks for the
  same quantity and price is that amount times the quote multiplier divided by the base
  multiplier, so a bid is released for what it locked where the multipliers are equal. The order,
  and no other, disappears from the owner's table; the market and all other accounts are
  unchanged.
\<close>

theorem consume_out_refines:
  assumes "consume_event held accts (Out ev info) s L = Inr (s', L')"
    and "oe_side ev = side_code sd"
    and "user_account_get L (cb_user_account info) = Inr u" and "orders_wf u"
  shows "\<exists>u' x. s' = s \<and> user_account_get L' (cb_user_account info) = Inr u' \<and>
    position_of u' = release_movement sd (out_base s ev) (out_quote s ev) (position_of u) \<and>
    release_covers sd (out_base s ev) (out_quote s ev) (position_of u) \<and>
    (\<forall>locked. out_locked s ev = Some locked \<longrightarrow>
       unat locked = out_quote s ev * unat (ds_quote_currency_multiplier s)
         div unat (ds_base_currency_multiplier s) \<and>
       (ds_quote_currency_multiplier s = ds_base_currency_multiplier s \<longrightarrow>
         unat locked = out_quote s ev)) \<and>
    orders_wf u' \<and> o_id x = oe_order_id ev \<and>
    mset (open_orders u) = add_mset x (mset (open_orders u')) \<and>
    (\<forall>k. k \<noteq> cb_user_account info \<longrightarrow> L' k = L k)"
proof (rule consume_out_effect [OF assms(1) [unfolded consume_event.simps]], goal_cases)
  case (1 u1 u')
  have fits: "out_base s ev < 2 ^ 64"
    using assms(1) out_base_fits [of ev s] by (auto elim!: consume_outE)
  have locked: "unat locked = out_quote s ev * unat (ds_quote_currency_multiplier s)
         div unat (ds_base_currency_multiplier s) \<and>
      (ds_quote_currency_multiplier s = ds_base_currency_multiplier s \<longrightarrow> unat locked = out_quote s ev)"
    if "out_locked s ev = Some locked" for locked
    using out_locked_eq [OF that fits] by (auto simp: unat_gt_0)
  from 1(3) assms(3) have "u1 = u" by simp
  with 1(6) assms(4) obtain x where "orders_wf u'" "o_id x = oe_order_id ev"
    "mset (open_orders u) = add_mset x (mset (open_orders u'))" by blast
  with 1(1,4,7) 1(5) [OF assms(2)] \<open>u1 = u\<close> show ?thesis
    using locked by (intro exI [of _ u'] exI [of _ x] conjI allI impI) (simp_all add: user.store_other)
qed

theorem consume_out_refines_witness:
  "\<exists>s' L' u'. consume_event [3, 5] [ex_info 10 False, ex_info 14 False] ex_out ex_market ex_ledger
       = Inr (s', L') \<and> user_account_get L' 10 = Inr u' \<and>
     position_of u' = release_base 200 (position_of ex_user) \<and> open_orders u' = []"
proof -
  obtain s' L' where run: "consume_event [3, 5] [ex_info 10 False, ex_info 14 False] ex_out
      ex_market ex_ledger = Inr (s', L')"
    using ex_out_runs by blast
  have "orders_wf ex_user" and "open_orders ex_user = [ex_order]"
    by (simp_all add: orders_wf_def open_orders_def ex_defs)
  then have "\<exists>u'. user_account_get L' 10 = Inr u' \<and>
      position_of u' = release_base 200 (position_of ex_user) \<and> open_orders u' = []"
    using consume_out_refines [OF run [unfolded ex_out_def], of Ask ex_user]
    by (auto simp: ex_callback_def out_base_def ex_market_def)
  with run show ?thesis by blast
qed


text \<open>
  A bid of 100 base tokens at price 2 on a market with base multiplier 10 and quote multiplier 1: it
  locked 20 quote tokens, and its removal asks for 200.
\<close>

definition ex_scaled_market :: dex_state where
  "ex_scaled_market = ex_market\<lparr>ds_base_currency_multiplier := 10\<rparr>"

definition ex_scaled_user :: user_account where
  "ex_scaled_user = ex_user\<lparr>ua_header := (ua_header ex_user)\<lparr>uh_quote_token_locked := 20\<rparr>\<rparr>"

definition ex_scaled_ledger :: ledger where
  "ex_scaled_ledger = user_account_put 10 ex_scaled_user (dex_state_put 3 ex_scaled_market ex_ledger)"

definition ex_scaled_out :: out_event where
  "ex_scaled_out = \<lparr>oe_side = 0, oe_order_id = push_bit 64 8589934592, oe_base_size = 10\<rparr>"

lemma ex_scaled_loads:
  "dex_state_get ex_scaled_ledger 3 = Inr ex_scaled_market"
  "user_account_get ex_scaled_ledger 10 = Inr ex_scaled_user"
proof -
  have m: "market_valid ex_scaled_market"
    using ex_market_valid by (simp add: ex_scaled_market_def market_valid_def)
  have u: "user_valid ex_scaled_user"
    using ex_user_valid by (simp add: ex_scaled_user_def user_valid_def)
  show "dex_state_get ex_scaled_ledger 3 = Inr ex_scaled_market"
    by (simp add: ex_scaled_ledger_def user_account_put_def market.load_put_other
        market.load_store [OF _ m, where y = ex_market])
  show "user_account_get ex_scaled_ledger 10 = Inr ex_scaled_user"
    by (simp add: ex_scaled_ledger_def user.load_store [OF _ u, where y = ex_user]
        dex_state_put_def user.load_put_other)
qed


text \<open>
  C10: A crank applies a prefix of the queue, in order: it stops at the requested maximum, at the
  end of the queue, or at the first event whose user account was not supplied, and it removes
  exactly the events it applied. If it applied none, no account changes, and the call is an error
  when the caller asked for that.
\<close>

theorem consume_events_prefix:
  assumes "consume_events_process env program_id accts (consume_events_params_bytes p) L = Inr L'"
    and "consume_events_parse program_id L accts = Inr a"
    and "dex_state_get L (key (cea_market a)) = Inr s"
    and "event_queue_from_buffer env (data (L (key (cea_event_queue a)))) = Inr events"
  defines "bound \<equiv> min (unat (cep_max_iterations p)) (length events)"
  shows "\<exists>n s1 L1. n \<le> bound \<and>
    apply_events [key (cea_market a), key (cea_event_queue a)] (cea_user_accounts a)
      (take n events) s L = Inr (s1, L1) \<and>
    (n = bound \<or> event_account (cea_user_accounts a) (event_user (events ! n))
       = Inl (Err MissingUserAccount)) \<and>
    (if n = 0 then cep_no_op_err p \<noteq> 1 \<and> L' = L
     else aob_consume_events env program_id (cea_orderbook a) (cea_event_queue a) (of_nat n)
       (dex_state_put (key (cea_market a)) s1 L1) = Inr L')"
proof (rule consume_events_processE [OF assms(1-4)], goal_cases)
  case (1 n' s1 L1)
  from consume_loop_prefix [OF 1(1)] obtain n where n: "n \<le> bound" "n' = of_nat n" "n' = 0 \<longleftrightarrow> n = 0"
    and run: "apply_events [key (cea_market a), key (cea_event_queue a)] (cea_user_accounts a)
      (take n events) s L = Inr (s1, L1)"
    and stop: "n = bound \<or> event_account (cea_user_accounts a) (event_user (events ! n))
       = Inl (Err MissingUserAccount)"
    unfolding bound_def by blast
  have "n = 0 \<Longrightarrow> dex_state_put (key (cea_market a)) s1 L1 = L"
    using run assms(3) by (simp add: market.store_load)
  with 1(2) n run stop show ?thesis
    by (intro exI [of _ n] exI [of _ s1] exI [of _ L1]) (auto split: if_splits)
qed

theorem consume_events_prefix_witness:
  "\<exists>n s1 L1. n \<noteq> 0 \<and> apply_events [3, 5] [ex_info 10 False, ex_info 14 False]
     (take n [ex_fill 0 0, ex_out]) ex_market ex_ledger = Inr (s1, L1)"
proof -
  obtain L' where run: "consume_events_process ex_queue_env 100
      ex_queue_infos (consume_events_params_bytes ex_queue_params) ex_ledger = Inr L'"
    using ex_queue_runs by blast
  show ?thesis
    using consume_events_prefix [OF run ex_queue_parse, of ex_market "[ex_fill 0 0, ex_out]"]
    by (simp add: ex_queue_accounts_def ex_info_def ex_queue_params_def ex_queue_env_def ex_env_def
        split: if_splits) blast
qed

text \<open>
  When the accounts are supplied in ascending order of their keys, as the search requires, and
  include the user of each of the first \<open>m\<close> events, a crank that returns has applied at least
  those \<open>m\<close> events.
\<close>

theorem consume_events_progress:
  assumes "consume_events_process env program_id accts (consume_events_params_bytes p) L = Inr L'"
    and "consume_events_parse program_id L accts = Inr a"
    and "dex_state_get L (key (cea_market a)) = Inr s"
    and "event_queue_from_buffer env (data (L (key (cea_event_queue a)))) = Inr events"
    and "sorted (map key (cea_user_accounts a))"
    and "0 < m" and "m \<le> unat (cep_max_iterations p)" and "m \<le> length events"
    and "event_user ` set (take m events) \<subseteq> key ` set (cea_user_accounts a)"
  shows "\<exists>n s1 L1. m \<le> n \<and> n \<le> length events \<and>
    apply_events [key (cea_market a), key (cea_event_queue a)] (cea_user_accounts a)
      (take n events) s L = Inr (s1, L1) \<and>
    aob_consume_events env program_id (cea_orderbook a) (cea_event_queue a) (of_nat n)
       (dex_state_put (key (cea_market a)) s1 L1) = Inr L'"
proof (rule consume_events_processE [OF assms(1-4)], goal_cases)
  case (1 n' s1 L1)
  from consume_loop_prefix [OF 1(1)] obtain n where
    n: "n \<le> min (unat (cep_max_iterations p)) (length events)" "n' = of_nat n" "n' = 0 \<longleftrightarrow> n = 0"
    and run: "apply_events [key (cea_market a), key (cea_event_queue a)] (cea_user_accounts a)
      (take n events) s L = Inr (s1, L1)"
    and stop: "n = min (unat (cep_max_iterations p)) (length events) \<or>
      event_account (cea_user_accounts a) (event_user (events ! n)) = Inl (Err MissingUserAccount)"
    by blast
  have m: "m \<le> n"
  proof (rule ccontr)
    assume less: "\<not> m \<le> n"
    with assms(8) have "event_user (events ! n) \<in> event_user ` set (take m events)"
      by (auto simp: in_set_conv_nth intro!: imageI exI [of _ n])
    with assms(9) have "event_user (events ! n) \<in> key ` set (cea_user_accounts a)"
      by blast
    from event_account_present [OF assms(5) this] stop less assms(7,8) show False
      by auto
  qed
  with assms(6) n(3) have "n' \<noteq> 0" by simp
  with 1(2) m n(1,2) run show ?thesis
    by (intro exI [of _ n] exI [of _ s1] exI [of _ L1]) simp
qed

theorem consume_events_progress_witness:
  "\<exists>n s1 L1. 2 \<le> n \<and> apply_events [3, 5] [ex_info 10 False, ex_info 14 False]
     (take n [ex_fill 0 0, ex_out]) ex_market ex_ledger = Inr (s1, L1)"
proof -
  obtain L' where run: "consume_events_process ex_queue_env 100
      ex_queue_infos (consume_events_params_bytes ex_queue_params) ex_ledger = Inr L'"
    using ex_queue_runs by blast
  show ?thesis
    using consume_events_progress [OF run ex_queue_parse, of ex_market "[ex_fill 0 0, ex_out]" 2]
    by (simp add: ex_queue_accounts_def ex_info_def ex_queue_params_def ex_queue_env_def ex_env_def
        ex_fill_def ex_out_def ex_callback_def) blast
qed

text \<open>
  C34: A fill whose taker paid the fees of the MSRM tier cannot be consumed: when its maker's
  account is supplied the crank panics, so the queue stays blocked behind it.
\<close>

theorem consume_events_msrm_panics:
  assumes "consume_events_parse program_id L accts = Inr a"
    and "dex_state_get L (key (cea_market a)) = Inr s"
    and "key (cea_event_queue a) \<noteq> key (cea_market a)" and "key (cea_orderbook a) = ds_orderbook s"
    and "event_queue_from_buffer env (data (L (key (cea_event_queue a)))) = Inr (Fill ev maker taker # events)"
    and "cb_fee_tier taker = pack_fee_tier MSrm referred"
    and "sorted (map key (cea_user_accounts a))"
    and "cb_user_account maker \<in> key ` set (cea_user_accounts a)"
    and "0 < cep_max_iterations p"
  shows "consume_events_process env program_id accts (consume_events_params_bytes p) L = Inl Panic"
proof -
  obtain i where i: "event_account (cea_user_accounts a) (cb_user_account maker) = Inr i"
    using event_account_present [OF assms(7,8)] by blast
  have panic: "consume_event held (cea_user_accounts a) (Fill ev maker taker) s L = Inl Panic" for held
    by (cases "checked_mul (fe_quote_size ev) (ds_quote_currency_multiplier s)";
        cases "checked_mul (fe_base_size ev) (ds_base_currency_multiplier s)")
      (simp_all add: consume_fill_def i assms(6) fee_tier_from_u8_pack)
  then show ?thesis
    by (rule consume_events_front_panics [OF assms(1-5,9)])
qed

theorem consume_events_msrm_panics_witness:
  "consume_events_process (ex_env ex_no_summary [ex_fill 0 6]) 100 ex_queue_infos
     (consume_events_params_bytes ex_queue_params) ex_ledger = Inl Panic"
  by (rule consume_events_msrm_panics [OF ex_queue_parse, where s = ex_market and referred = False])
    (auto simp: ex_queue_accounts_def ex_info_def ex_queue_params_def ex_env_def ex_fill_def
      ex_callback_def pack_fee_tier_def ex_market_def)

end
