(* ===== verification/Cranker.thy ===== *)
theory Cranker
  imports Consume_Events
begin

text \<open>
  The off-chain crank (\<^verbatim>\<open>src/cranker/src/lib.rs\<close>, \<^verbatim>\<open>src/cranker/src/utils.rs\<close>): it reads the event
  queue, collects the user accounts the queue refers to, and sends a \<open>consume_events\<close>
  instruction with them. The events are those of the on-chain queue with their callback
  information decoded; reading them from a node and sending the transaction is in \<open>Crank_Loop\<close>.
\<close>

section \<open>Collecting the accounts\<close>

definition MAX_ITERATIONS :: u64 where
  "MAX_ITERATIONS = 10"

definition MAX_NUMBER_OF_USER_ACCOUNTS :: nat where
  "MAX_NUMBER_OF_USER_ACCOUNTS = 20"

fun crank_event_account :: "event \<Rightarrow> pubkey" where
  "crank_event_account (Fill ev maker taker) = cb_user_account maker"
| "crank_event_account (Out ev info) = cb_user_account info"

text \<open>\<open>truncate\<close>, \<open>sort_unstable\<close> and \<open>dedup\<close> of a vector of keys.\<close>

definition crank_pack_accounts :: "pubkey list \<Rightarrow> pubkey list" where
  "crank_pack_accounts user_accounts =
     (let user_accounts = take MAX_NUMBER_OF_USER_ACCOUNTS user_accounts;
          user_accounts = sort user_accounts
      in remdups_adj user_accounts)"

definition crank_user_accounts :: "event list \<Rightarrow> pubkey list" where
  "crank_user_accounts event_queue = crank_pack_accounts (map crank_event_account event_queue)"

definition crank_params :: consume_events_params where
  "crank_params = \<lparr>cep_max_iterations = MAX_ITERATIONS, cep_no_op_err = 1\<rparr>"

section \<open>Sending the transaction\<close>

text \<open>
  The client's errors, as far as the filter looks into them: everything it does not match on is
  \<open>Other\<close>.
\<close>

datatype transaction_error = InstructionErrorCustom nat u32 | OtherTransactionError

datatype rpc_response_error_data =
    SendTransactionPreflightFailure "transaction_error option"
  | OtherRpcResponseErrorData

datatype client_error = RpcResponseError rpc_response_error_data | OtherClientError

text \<open>A signature is its 64 bytes; \<open>Signature::new(&[0; 64])\<close> stands for no transaction.\<close>

definition no_op_filter :: "client_error + u8 list \<Rightarrow> client_error + u8 list" where
  "no_op_filter r =
     (case r of
        Inl e \<Rightarrow>
          (case e of
             RpcResponseError d \<Rightarrow>
               (case d of
                  SendTransactionPreflightFailure f \<Rightarrow>
                    (case f of
                       Some (InstructionErrorCustom _ code) \<Rightarrow>
                         (if code = 5 then Inr (replicate 64 0) else r)
                     | _ \<Rightarrow> r)
                | OtherRpcResponseErrorData \<Rightarrow> r)
           | OtherClientError \<Rightarrow> r)
      | Inr _ \<Rightarrow> r)"

text \<open>
  The retry loop. The task is a call to the outside, so its result may differ at every attempt:
  \<open>f n\<close> is the result of attempt \<open>n\<close>. A loop that never ends has no value.
\<close>

partial_function (option) retry ::
    "('e + 'k \<Rightarrow> 'e + 'k) \<Rightarrow> (nat \<Rightarrow> 'e + 'k) \<Rightarrow> nat \<Rightarrow> 'k option" where
  "retry e f n =
     (let res = e (f n) in
      case res of Inr k \<Rightarrow> Some k | Inl _ \<Rightarrow> retry e f (Suc n))"

section \<open>Lemmas\<close>

lemma crank_event_account_user: "crank_event_account ev = event_user ev"
  by (cases ev) simp_all

lemma set_crank_user_accounts:
  "set (crank_user_accounts evs) = event_user ` set (take 20 evs)"
  by (simp add: crank_user_accounts_def crank_pack_accounts_def MAX_NUMBER_OF_USER_ACCOUNTS_def
      crank_event_account_user take_map)

lemma sorted_remdups_adj_strict: "sorted xs \<Longrightarrow> sorted_wrt (<) (remdups_adj xs)"
proof (induction xs rule: remdups_adj.induct)
  case (3 x y xs)
  show ?case
  proof (cases "x = y")
    case False
    with 3 have "\<forall>z \<in> set (y # xs). x < z"
      by (auto simp: order_le_less)
    with False 3 show ?thesis
      by (simp del: remdups_adj.simps add: remdups_adj_Cons') (auto simp del: remdups_adj.simps)
  qed (use 3 in simp)
qed simp_all

lemma crank_user_accounts_sorted: "sorted_wrt (<) (crank_user_accounts evs)"
  by (simp add: crank_user_accounts_def crank_pack_accounts_def sorted_remdups_adj_strict)

lemma length_crank_user_accounts: "length (crank_user_accounts evs) \<le> 20"
proof -
  have "length (crank_user_accounts evs) \<le> length (sort (take 20 (map crank_event_account evs)))"
    unfolding crank_user_accounts_def crank_pack_accounts_def MAX_NUMBER_OF_USER_ACCOUNTS_def Let_def
    by (rule remdups_adj_length)
  then show ?thesis by simp
qed

lemma retry_skip:
  assumes "\<forall>i < m. \<exists>x. e (f (n + i)) = Inl x"
  shows "retry e f n = retry e f (n + m)"
  using assms
proof (induction m)
  case (Suc m)
  then obtain x where "e (f (n + m)) = Inl x" by auto
  then have "retry e f (n + m) = retry e f (n + Suc m)"
    by (subst retry.simps) simp
  with Suc show ?case by simp
qed simp

lemma retry_SomeD:
  assumes "retry e f n = Some k"
  shows "\<exists>m. e (f (n + m)) = Inr k \<and> (\<forall>i < m. \<exists>x. e (f (n + i)) = Inl x)"
proof (rule retry.raw_induct [where P = "\<lambda>e f n k. \<exists>m. e (f (n + m)) = Inr k \<and>
    (\<forall>i < m. \<exists>x. e (f (n + i)) = Inl x)", OF _ assms], goal_cases)
  case (1 retry' e f n k)
  show ?case
  proof (cases "e (f n)")
    case (Inr y)
    with 1(2) show ?thesis by (intro exI [of _ 0]) simp
  next
    case (Inl x)
    with 1(2) have "retry' e f (Suc n) = Some k" by simp
    from 1(1) [OF this] obtain m where m: "e (f (Suc n + m)) = Inr k"
      "\<forall>i < m. \<exists>x. e (f (Suc n + i)) = Inl x" by blast
    have "\<exists>x. e (f (n + i)) = Inl x" if "i < Suc m" for i
      using that Inl m(2) by (cases i) auto
    with m(1) show ?thesis by (intro exI [of _ "Suc m"]) auto
  qed
qed

section \<open>Properties\<close>

text \<open>
  The accounts the crank supplies are in strictly ascending order, as the program's search
  needs them, are no more than the transaction allows, and include the user account of every
  event among the first twenty of the queue.
\<close>

theorem crank_accounts_complete:
  "sorted_wrt (<) (crank_user_accounts evs) \<and>
   length (crank_user_accounts evs) \<le> MAX_NUMBER_OF_USER_ACCOUNTS \<and>
   event_user ` set (take 20 evs) = set (crank_user_accounts evs)"
  using crank_user_accounts_sorted [of evs] length_crank_user_accounts [of evs]
  by (simp add: set_crank_user_accounts MAX_NUMBER_OF_USER_ACCOUNTS_def)

lemma crank_progress:
  assumes "consume_events_process env program_id accts (consume_events_params_bytes crank_params) L = Inr L'"
    and "consume_events_parse program_id L accts = Inr a"
    and "dex_state_get L (key (cea_market a)) = Inr s"
    and "event_queue_from_buffer env (data (L (key (cea_event_queue a)))) = Inr events"
    and "map key (cea_user_accounts a) = crank_user_accounts events"
    and "events \<noteq> []"
  defines "n \<equiv> min 10 (length events)"
  shows "\<exists>s1 L1. apply_events [key (cea_market a), key (cea_event_queue a)] (cea_user_accounts a)
      (take n events) s L = Inr (s1, L1) \<and>
    aob_consume_events env program_id (cea_orderbook a) (cea_event_queue a) (of_nat n)
       (dex_state_put (key (cea_market a)) s1 L1) = Inr L'"
proof (rule consume_events_processE [OF assms(1-4)], goal_cases)
  case (1 n' s1 L1)
  have max: "unat (cep_max_iterations crank_params) = 10"
    by (simp add: crank_params_def MAX_ITERATIONS_def)
  have "key ` set (cea_user_accounts a) = event_user ` set (take 20 events)"
    using assms(5) set_crank_user_accounts [of events] by (metis list.set_map)
  moreover have "events ! m \<in> set (take 20 events)" if "m < n" for m
    using that by (auto simp: n_def in_set_conv_nth intro!: exI [of _ m])
  ultimately have found: "\<exists>x. event_account (cea_user_accounts a) (event_user (events ! m)) = Inr x"
    if "m < n" for m
    using that strict_sorted_imp_sorted [OF crank_user_accounts_sorted [of events]]
    by (intro event_account_present) (auto simp: assms(5))
  from consume_loop_prefix [OF 1(1)] obtain m where
    m: "m \<le> n" "n' = of_nat m" "n' = 0 \<longleftrightarrow> m = 0"
    and run: "apply_events [key (cea_market a), key (cea_event_queue a)] (cea_user_accounts a)
      (take m events) s L = Inr (s1, L1)"
    and stop: "m = n \<or> event_account (cea_user_accounts a) (event_user (events ! m))
       = Inl (Err MissingUserAccount)"
    unfolding max n_def by blast
  from stop found [of m] m(1) have "m = n" by fastforce
  moreover have "n \<noteq> 0"
    using assms(6) by (simp add: n_def)
  ultimately show ?thesis
    using 1(2) m run by (intro exI [of _ s1] exI [of _ L1]) simp
qed

definition ex_crank_infos :: "account_info list" where
  "ex_crank_infos = [ex_info 3 False, ex_info 4 False, ex_info 5 False, ex_info 16 False,
     ex_info 10 False]"

definition ex_crank_accounts :: consume_events_accounts where
  "ex_crank_accounts =
     \<lparr>cea_market = ex_info 3 False, cea_orderbook = ex_info 4 False,
      cea_event_queue = ex_info 5 False, cea_reward_target = ex_info 16 False,
      cea_user_accounts = [ex_info 10 False]\<rparr>"

lemma ex_crank_parse: "consume_events_parse 100 ex_ledger ex_crank_infos = Inr ex_crank_accounts"
  by (simp add: consume_events_parse_def ex_crank_infos_def ex_crank_accounts_def
      check_account_owner_def)

lemma ex_crank_runs:
  "\<exists>L'. consume_events_process (ex_env ex_no_summary [ex_out]) 100 ex_crank_infos
     (consume_events_params_bytes crank_params) ex_ledger = Inr L'"
proof -
  have "event_account [ex_info 10 False] 10 = Inr (ex_info 10 False)"
    by (simp add: event_account_def binary_search_by_key_def binary_search_window.simps
        index_slice_def)
  then have "\<exists>s' L'. consume_loop [3, 5] [ex_info 10 False] [ex_out] 0 ex_market ex_ledger
      = Inr (1, s', L')"
    by (simp add: ex_out_def consume_eval eval_defs)
      (simp add: ex_defs consume_eval eval_defs)
  moreover have "ds_orderbook ex_market = 4"
    by (simp add: ex_market_def)
  ultimately show ?thesis
    by (auto simp: consume_events_process_def consume_events_params_codec.try_from_bytes_enc
        ex_crank_parse ex_crank_accounts_def ex_env_def crank_params_def MAX_ITERATIONS_def
        borrow_def consume_events_check_accounts_def check_account_key_def
        simp del: consume_loop.simps)
qed

text \<open>
  The filter turns a failed preflight into a success exactly when the program answered with
  its no-op error, whose code no other error of the program has, and leaves every other result as
  it is.
\<close>

theorem no_op_filter_exact:
  "no_op_filter r =
     (if \<exists>i. r = Inl (RpcResponseError (SendTransactionPreflightFailure
           (Some (InstructionErrorCustom i (dex_error_code NoOp)))))
      then Inr (replicate 64 0) else r) \<and>
   (dex_error_code e = dex_error_code NoOp \<longleftrightarrow> e = NoOp)"
proof -
  have "dex_error_code NoOp = 5"
    by (simp add: dex_error_code_def dex_error_variants_def)
  then have "no_op_filter r =
     (if \<exists>i. r = Inl (RpcResponseError (SendTransactionPreflightFailure
           (Some (InstructionErrorCustom i (dex_error_code NoOp)))))
      then Inr (replicate 64 0) else r)"
    by (auto simp: no_op_filter_def split: sum.splits client_error.splits
        rpc_response_error_data.splits option.splits transaction_error.splits)
  then show ?thesis
    by (simp add: dex_error_code_inject)
qed

text \<open>
  C33: The retry loop returns exactly when some attempt succeeds after filtering, and then returns
  the result of the first such attempt.
\<close>

theorem retry_first_success:
  "retry e f 0 = Some k \<longleftrightarrow> (\<exists>m. e (f m) = Inr k \<and> (\<forall>i < m. \<exists>x. e (f i) = Inl x))"
proof
  assume "retry e f 0 = Some k"
  from retry_SomeD [OF this] show "\<exists>m. e (f m) = Inr k \<and> (\<forall>i < m. \<exists>x. e (f i) = Inl x)"
    by simp
next
  assume "\<exists>m. e (f m) = Inr k \<and> (\<forall>i < m. \<exists>x. e (f i) = Inl x)"
  then obtain m where m: "e (f m) = Inr k" "\<forall>i < m. \<exists>x. e (f i) = Inl x" by blast
  then have "retry e f 0 = retry e f m"
    using retry_skip [of m e f 0] by simp
  also have "\<dots> = Some k"
    using m(1) by (subst retry.simps) simp
  finally show "retry e f 0 = Some k" .
qed

theorem retry_first_success_witness:
  "retry no_op_filter (\<lambda>n. if n < 2 then Inl OtherClientError else Inr [1]) 0 = Some [1]"
  unfolding retry_first_success by (intro exI [of _ 2]) (simp add: no_op_filter_def)

end
