(* ===== verification/New_Order.thy ===== *)
theory New_Order
  imports Example_World
begin

text \<open>
  The instruction \<open>new_order\<close> (\<^verbatim>\<open>src/program/src/processor/new_order.rs\<close>): an order is handed to
  the order book, the matched part is settled against the user account at once, the posted part
  is locked, and whatever the free balance does not cover is transferred from the user's wallet
  into the vault.
\<close>

section \<open>Parameters and accounts\<close>

record new_order_params =
  nop_client_order_id :: u128
  nop_limit_price :: u64
  nop_max_base_qty :: u64
  nop_max_quote_qty :: u64
  nop_match_limit :: u64
  nop_side :: u8
  nop_order_type :: u8
  nop_self_trade_behavior :: u8
  nop_has_discount_token_account :: u8
  nop_padding :: u32

definition new_order_params_layout :: "nat list" where
  "new_order_params_layout = [16, 8, 8, 8, 8, 1, 1, 1, 1, 4]"

definition NEW_ORDER_PARAMS_LEN :: nat where
  "NEW_ORDER_PARAMS_LEN = sum_list new_order_params_layout"

definition new_order_params_bytes :: "new_order_params \<Rightarrow> u8 list" where
  "new_order_params_bytes p = concat
     [to_le_bytes (nop_client_order_id p), to_le_bytes (nop_limit_price p),
      to_le_bytes (nop_max_base_qty p), to_le_bytes (nop_max_quote_qty p),
      to_le_bytes (nop_match_limit p), to_le_bytes (nop_side p), to_le_bytes (nop_order_type p),
      to_le_bytes (nop_self_trade_behavior p), to_le_bytes (nop_has_discount_token_account p),
      to_le_bytes (nop_padding p)]"

definition new_order_params_of_bytes :: "u8 list \<Rightarrow> new_order_params" where
  "new_order_params_of_bytes bs =
     (let f = (!) (split_fields new_order_params_layout bs) in
      \<lparr>nop_client_order_id = from_le_bytes (f 0), nop_limit_price = from_le_bytes (f 1),
       nop_max_base_qty = from_le_bytes (f 2), nop_max_quote_qty = from_le_bytes (f 3),
       nop_match_limit = from_le_bytes (f 4), nop_side = from_le_bytes (f 5),
       nop_order_type = from_le_bytes (f 6), nop_self_trade_behavior = from_le_bytes (f 7),
       nop_has_discount_token_account = from_le_bytes (f 8), nop_padding = from_le_bytes (f 9)\<rparr>)"

datatype order_type = Limit | ImmediateOrCancel | FillOrKill | PostOnly

fun order_type_code :: "order_type \<Rightarrow> u8" where
  "order_type_code Limit = 0"
| "order_type_code ImmediateOrCancel = 1"
| "order_type_code FillOrKill = 2"
| "order_type_code PostOnly = 3"

definition order_type_from_u8 :: "u8 \<Rightarrow> order_type option" where
  "order_type_from_u8 n =
     (if n = 0 then Some Limit else if n = 1 then Some ImmediateOrCancel
      else if n = 2 then Some FillOrKill else if n = 3 then Some PostOnly else None)"

record new_order_accounts =
  noa_spl_token_program :: account_info
  noa_system_program :: account_info
  noa_market :: account_info
  noa_orderbook :: account_info
  noa_event_queue :: account_info
  noa_bids :: account_info
  noa_asks :: account_info
  noa_base_vault :: account_info
  noa_quote_vault :: account_info
  noa_user :: account_info
  noa_user_token_account :: account_info
  noa_user_owner :: account_info
  noa_discount_token_account :: "account_info option"
  noa_fee_referral_account :: "account_info option"

definition new_order_read_accounts ::
    "account_info list \<Rightarrow> bool \<Rightarrow> new_order_accounts program_result" where
  "new_order_read_accounts accts has_discount_token_account =
     and_then (next_account_info accts) (\<lambda>(spl_token_program, accts).
     and_then (next_account_info accts) (\<lambda>(system_program, accts).
     and_then (next_account_info accts) (\<lambda>(market, accts).
     and_then (next_account_info accts) (\<lambda>(orderbook, accts).
     and_then (next_account_info accts) (\<lambda>(event_queue, accts).
     and_then (next_account_info accts) (\<lambda>(bids, accts).
     and_then (next_account_info accts) (\<lambda>(asks, accts).
     and_then (next_account_info accts) (\<lambda>(base_vault, accts).
     and_then (next_account_info accts) (\<lambda>(quote_vault, accts).
     and_then (next_account_info accts) (\<lambda>(user, accts).
     and_then (next_account_info accts) (\<lambda>(user_token_account, accts).
     and_then (next_account_info accts) (\<lambda>(user_owner, accts).
     let (discount, accts) =
           (if has_discount_token_account then next_optional accts else (None, accts));
         (referral, accts) = next_optional accts
     in Inr \<lparr>noa_spl_token_program = spl_token_program, noa_system_program = system_program,
          noa_market = market, noa_orderbook = orderbook, noa_event_queue = event_queue,
          noa_bids = bids, noa_asks = asks, noa_base_vault = base_vault,
          noa_quote_vault = quote_vault, noa_user = user,
          noa_user_token_account = user_token_account, noa_user_owner = user_owner,
          noa_discount_token_account = discount, noa_fee_referral_account = referral\<rparr>))))))))))))"

definition new_order_parse ::
    "externals \<Rightarrow> pubkey \<Rightarrow> ledger \<Rightarrow> account_info list \<Rightarrow> bool \<Rightarrow>
     new_order_accounts program_result" where
  "new_order_parse env program_id L accts has_discount_token_account =
     and_then (new_order_read_accounts accts has_discount_token_account) (\<lambda>a.
     and_then (check_signer (noa_user_owner a)) (\<lambda>_.
     and_then (question_mark (check_account_key (noa_spl_token_program a) (spl_token_id env)
       InvalidSplTokenProgram)) (\<lambda>_.
     and_then (question_mark (check_account_key (noa_system_program a) (system_program_id env)
       InvalidSystemProgramAccount)) (\<lambda>_.
     and_then (case noa_discount_token_account a of
         Some discount_account \<Rightarrow> question_mark (check_account_owner L discount_account
           (spl_token_id env) InvalidSplTokenProgram)
       | None \<Rightarrow> Inr ()) (\<lambda>_.
     and_then (question_mark (check_account_owner L (noa_user a) program_id
       InvalidStateAccountOwner)) (\<lambda>_.
     and_then (question_mark (check_account_owner L (noa_market a) program_id
       InvalidStateAccountOwner)) (\<lambda>_.
     Inr a)))))))"

definition new_order_load_user_account ::
    "new_order_accounts \<Rightarrow> u8 list \<Rightarrow> user_account program_result" where
  "new_order_load_user_account a user_account_data =
     and_then (from_buffer user_account_data) (\<lambda>u.
     if uh_owner (ua_header u) \<noteq> key (noa_user_owner a) then prog_fail InvalidArgument
     else if uh_market (ua_header u) \<noteq> key (noa_market a) then prog_fail InvalidArgument
     else if uh_owner (ua_header u) \<noteq> key (noa_user_owner a) then prog_fail InvalidArgument
     else if uh_market (ua_header u) \<noteq> key (noa_market a) then prog_fail InvalidArgument
     else Inr u)"

definition new_order_check_accounts ::
    "dex_state \<Rightarrow> new_order_accounts \<Rightarrow> unit program_result" where
  "new_order_check_accounts s a =
     and_then (question_mark (check_account_key (noa_orderbook a) (ds_orderbook s)
       InvalidOrderbookAccount)) (\<lambda>_.
     and_then (question_mark (check_account_key (noa_base_vault a) (ds_base_vault s)
       InvalidBaseVaultAccount)) (\<lambda>_.
     and_then (question_mark (check_account_key (noa_quote_vault a) (ds_quote_vault s)
       InvalidQuoteVaultAccount)) (\<lambda>_.
     Inr ())))"

section \<open>The handler\<close>

text \<open>The order as it is handed to the order book, in the book's units.\<close>

definition new_order_invoke_params ::
    "dex_state \<Rightarrow> new_order_params \<Rightarrow> u64 \<Rightarrow> callback_info \<Rightarrow> bool \<Rightarrow> bool \<Rightarrow>
     aob_new_order_params program_result" where
  "new_order_invoke_params s p max_quote_qty cb post_only post_allowed =
     and_then (scale_base_amount s (nop_max_base_qty p)) (\<lambda>max_base.
     and_then (scale_quote_amount s max_quote_qty) (\<lambda>max_quote.
     and_then (unwrap (side_from_u8 (nop_side p))) (\<lambda>sd.
     and_then (unwrap (self_trade_behavior_from_u8 (nop_self_trade_behavior p))) (\<lambda>stb.
     Inr \<lparr>aob_max_base_qty = max_base, aob_max_quote_qty = max_quote,
          aob_limit_price = nop_limit_price p, aob_side = sd,
          aob_match_limit = nop_match_limit p, aob_callback_info = cb, aob_post_only = post_only,
          aob_post_allowed = post_allowed, aob_self_trade_behavior = stb\<rparr>))))"

text \<open>
  Settling a bid against the user account: the new account, the order summary with the fees
  added, the amount to transfer in and the referral fee.
\<close>

definition new_order_bid ::
    "dex_state \<Rightarrow> fee_tier \<Rightarrow> user_account \<Rightarrow> order_summary \<Rightarrow> u64 \<Rightarrow>
     (user_account \<times> order_summary \<times> u64 \<times> u64) program_result" where
  "new_order_bid s tier u summary posted_quote_qty =
     (let matched_quote_qty = total_quote_qty summary - posted_quote_qty; h = ua_header u in
      and_then (taker_fee tier matched_quote_qty) (\<lambda>fee.
      and_then (unwrap (checked_mul matched_quote_qty (ds_royalties_bps s))) (\<lambda>bps_qty.
      let royalties_fees = bps_qty div 10000;
          summary' = summary\<lparr>total_quote_qty := total_quote_qty summary + (fee + royalties_fees)\<rparr> in
      and_then (referral_fee tier matched_quote_qty) (\<lambda>referral.
      let q = saturating_sub (total_quote_qty summary') (uh_quote_token_free h) in
      and_then (unwrap (Option.bind
          (checked_sub (total_base_qty summary') (total_base_qty_posted summary'))
          (\<lambda>n. checked_add n (uh_base_token_free h)))) (\<lambda>base_free.
      let h' = h\<lparr>uh_quote_token_free :=
                   saturating_sub (uh_quote_token_free h) (total_quote_qty summary'),
                 uh_quote_token_locked := uh_quote_token_locked h + posted_quote_qty,
                 uh_base_token_free := base_free\<rparr>
      in Inr (u\<lparr>ua_header := h'\<rparr>, summary', q, referral))))))"

definition new_order_ask ::
    "dex_state \<Rightarrow> fee_tier \<Rightarrow> user_account \<Rightarrow> order_summary \<Rightarrow> u64 \<Rightarrow>
     (user_account \<times> order_summary \<times> u64 \<times> u64) program_result" where
  "new_order_ask s tier u summary posted_quote_qty =
     (let h = ua_header u;
          q = saturating_sub (total_base_qty summary) (uh_base_token_free h);
          taken_quote_qty = total_quote_qty summary - posted_quote_qty in
      and_then (taker_fee tier taken_quote_qty) (\<lambda>fee.
      and_then (unwrap (checked_mul taken_quote_qty (ds_royalties_bps s))) (\<lambda>bps_qty.
      let royalties_fees = bps_qty div 10000 in
      and_then (referral_fee tier taken_quote_qty) (\<lambda>referral.
      and_then (unwrap (Option.bind (checked_sub taken_quote_qty (fee + royalties_fees))
          (\<lambda>n. checked_add n (uh_quote_token_free h)))) (\<lambda>quote_free.
      let h' = h\<lparr>uh_base_token_free :=
                   saturating_sub (uh_base_token_free h) (total_base_qty summary),
                 uh_base_token_locked := uh_base_token_locked h + total_base_qty_posted summary,
                 uh_quote_token_free := quote_free\<rparr>
      in Inr (u\<lparr>ua_header := h'\<rparr>, summary, q, referral))))))"

definition new_order_abort ::
    "order_type \<Rightarrow> side \<Rightarrow> order_summary \<Rightarrow> u64 \<Rightarrow> u64 \<Rightarrow> bool" where
  "new_order_abort ot sd summary max_base_qty max_quote_qty =
     (case ot of
        ImmediateOrCancel \<Rightarrow> total_base_qty summary = 0
      | FillOrKill \<Rightarrow>
          (if sd = Bid then total_quote_qty summary < max_quote_qty
           else total_base_qty summary < max_base_qty)
      | PostOnly \<Rightarrow> posted_order_id summary = None
      | Limit \<Rightarrow> False)"

text \<open>The two token transfers: the funding of the order and the referrer's share of the fees.\<close>

definition new_order_funding_cpi :: "new_order_accounts \<Rightarrow> account_info \<Rightarrow> u64 \<Rightarrow> cpi" where
  "new_order_funding_cpi a destination qty =
     \<lparr>cpi_program = key (noa_spl_token_program a),
      cpi_instruction = Transfer (key (noa_user_token_account a)) (key destination)
        (key (noa_user_owner a)) qty,
      cpi_accounts =
        [noa_spl_token_program a, noa_user_token_account a, destination, noa_user_owner a],
      cpi_signers_seeds = []\<rparr>"

definition new_order_referral_cpi ::
    "new_order_accounts \<Rightarrow> dex_state \<Rightarrow> account_info \<Rightarrow> u64 \<Rightarrow> cpi" where
  "new_order_referral_cpi a s referrer fee =
     \<lparr>cpi_program = key (noa_spl_token_program a),
      cpi_instruction = Transfer (key (noa_quote_vault a)) (key referrer)
        (key (noa_user_owner a)) fee,
      cpi_accounts = [noa_spl_token_program a, noa_quote_vault a, referrer, noa_user_owner a],
      cpi_signers_seeds = [market_signer_seeds (noa_market a) s]\<rparr>"

definition new_order_record ::
    "user_account \<Rightarrow> order_summary \<Rightarrow> u64 \<Rightarrow> u128 \<Rightarrow> user_account program_result" where
  "new_order_record u summary posted_quote_qty client_order_id =
     and_then (case posted_order_id summary of
         Some order_id \<Rightarrow>
           question_mark (add_order u \<lparr>o_id = order_id, o_client_id = client_order_id\<rparr>)
       | None \<Rightarrow> Inr u) (\<lambda>u.
     let h = ua_header u in
     Inr (u\<lparr>ua_header := h\<lparr>
       uh_accumulated_taker_base_volume := uh_accumulated_taker_base_volume h
         + saturating_sub (total_base_qty summary) (total_base_qty_posted summary),
       uh_accumulated_taker_quote_volume := uh_accumulated_taker_quote_volume h
         + saturating_sub (total_quote_qty summary) posted_quote_qty\<rparr>\<rparr>))"

text \<open>After the order book has run: settle, check the order type, move the tokens, record.\<close>

definition new_order_settle ::
    "externals \<Rightarrow> pubkey \<Rightarrow> new_order_params \<Rightarrow> new_order_accounts \<Rightarrow> dex_state \<Rightarrow> fee_tier \<Rightarrow>
     order_type \<Rightarrow> side \<Rightarrow> u64 \<Rightarrow> user_account \<Rightarrow> order_summary \<Rightarrow> ledger \<Rightarrow>
     ledger program_result" where
  "new_order_settle env program_id p a s tier ot sd max_quote_qty u summary L =
     and_then (unwrap (unscale_order_summary s summary)) (\<lambda>summary.
     and_then (unwrap (get_quote_from_base s (total_base_qty_posted summary) (nop_limit_price p)))
       (\<lambda>posted_quote_qty.
     and_then (case sd of
         Bid \<Rightarrow> new_order_bid s tier u summary posted_quote_qty
       | Ask \<Rightarrow> new_order_ask s tier u summary posted_quote_qty) (\<lambda>(u, summary, qty, referral).
     let destination = (case sd of Bid \<Rightarrow> noa_quote_vault a | Ask \<Rightarrow> noa_base_vault a) in
     if new_order_abort ot sd summary (nop_max_base_qty p) max_quote_qty
     then dex_fail TransactionAborted
     else and_then (token_invoke env program_id (new_order_funding_cpi a destination qty) L) (\<lambda>L.
     and_then (case noa_fee_referral_account a of
         Some referrer \<Rightarrow>
           token_invoke env program_id (new_order_referral_cpi a s referrer referral) L
       | None \<Rightarrow> Inr L) (\<lambda>L.
     and_then (new_order_record u summary posted_quote_qty (nop_client_order_id p)) (\<lambda>u.
     Inr (user_account_put (key (noa_user a)) u L)))))))"

text \<open>The steps before the order book is called.\<close>

fun order_type_flags :: "order_type \<Rightarrow> bool \<times> bool" where
  "order_type_flags Limit = (False, True)"
| "order_type_flags ImmediateOrCancel = (False, False)"
| "order_type_flags FillOrKill = (False, False)"
| "order_type_flags PostOnly = (True, True)"

definition new_order_fee_tier ::
    "externals \<Rightarrow> ledger \<Rightarrow> dex_state \<Rightarrow> new_order_accounts \<Rightarrow> fee_tier program_result" where
  "new_order_fee_tier env L s a =
     (case noa_discount_token_account a of
        Some d \<Rightarrow> fee_tier_get env [key (noa_market a), key (noa_user a)] L s d
          (key (noa_user_owner a))
      | None \<Rightarrow> Inr Base)"

definition new_order_callback_info :: "new_order_accounts \<Rightarrow> fee_tier \<Rightarrow> callback_info" where
  "new_order_callback_info a tier =
     \<lparr>cb_user_account = key (noa_user a),
      cb_fee_tier = pack_fee_tier tier (noa_fee_referral_account a \<noteq> None)\<rparr>"

definition new_order_budget :: "new_order_params \<Rightarrow> fee_tier \<Rightarrow> u64 program_result" where
  "new_order_budget p tier =
     (if nop_side p = side_code Bid \<and> nop_order_type p \<noteq> order_type_code PostOnly
      then remove_taker_fee tier (nop_max_quote_qty p) else Inr (nop_max_quote_qty p))"

definition new_order_aob_accounts :: "new_order_accounts \<Rightarrow> aob_accounts" where
  "new_order_aob_accounts a =
     \<lparr>aob_market = noa_orderbook a, aob_event_queue = noa_event_queue a, aob_bids = noa_bids a,
      aob_asks = noa_asks a\<rparr>"

definition new_order_process ::
    "externals \<Rightarrow> pubkey \<Rightarrow> account_info list \<Rightarrow> u8 list \<Rightarrow> ledger \<Rightarrow> ledger program_result" where
  "new_order_process env program_id accts instruction_data L =
     and_then (ok_or (try_from_bytes NEW_ORDER_PARAMS_LEN new_order_params_of_bytes instruction_data)
       InvalidInstructionData) (\<lambda>p.
     and_then (new_order_parse env program_id L accts (nop_has_discount_token_account p \<noteq> 0)) (\<lambda>a.
     and_then (dex_state_get L (key (noa_market a))) (\<lambda>s.
     and_then (borrow [key (noa_market a)] (noa_user a)) (\<lambda>_.
     and_then (new_order_load_user_account a (data (L (key (noa_user a))))) (\<lambda>u.
     if nop_max_base_qty p < ds_min_base_order_size s then prog_fail InvalidArgument
     else
     and_then (unwrap_result (new_order_check_accounts s a)) (\<lambda>_.
     and_then (unwrap (order_type_from_u8 (nop_order_type p))) (\<lambda>ot.
     and_then (new_order_fee_tier env L s a) (\<lambda>tier.
     and_then (new_order_budget p tier) (\<lambda>max_quote_qty.
     and_then (new_order_invoke_params s p max_quote_qty (new_order_callback_info a tier)
       (fst (order_type_flags ot)) (snd (order_type_flags ot))) (\<lambda>invoke_params.
     and_then (or_aob_error
       (aob_new_order env program_id (new_order_aob_accounts a) invoke_params L)) (\<lambda>(summary, L).
     new_order_settle env program_id p a s tier ot (aob_side invoke_params) max_quote_qty u
       summary L)))))))))))"

text \<open>
  What the order book reported for an order, in token units: the taker's tier, the summary, the
  quote value of the posted part and the accounts as the order book left them.
\<close>

definition new_order_book_result ::
    "externals \<Rightarrow> pubkey \<Rightarrow> new_order_params \<Rightarrow> new_order_accounts \<Rightarrow> dex_state \<Rightarrow> ledger \<Rightarrow>
     (fee_tier \<times> order_summary \<times> u64 \<times> ledger) program_result" where
  "new_order_book_result env program_id p a s L =
     and_then (unwrap (order_type_from_u8 (nop_order_type p))) (\<lambda>ot.
     and_then (new_order_fee_tier env L s a) (\<lambda>tier.
     and_then (new_order_budget p tier) (\<lambda>max_quote_qty.
     and_then (new_order_invoke_params s p max_quote_qty (new_order_callback_info a tier)
       (fst (order_type_flags ot)) (snd (order_type_flags ot))) (\<lambda>invoke_params.
     and_then (or_aob_error
       (aob_new_order env program_id (new_order_aob_accounts a) invoke_params L)) (\<lambda>(summary, L).
     and_then (unwrap (unscale_order_summary s summary)) (\<lambda>summary.
     and_then (unwrap (get_quote_from_base s (total_base_qty_posted summary) (nop_limit_price p)))
       (\<lambda>posted_quote_qty.
     Inr (tier, summary, posted_quote_qty, L))))))))"

section \<open>Reading the instruction\<close>

interpretation new_order_params_codec:
  codec new_order_params_bytes new_order_params_of_bytes NEW_ORDER_PARAMS_LEN
proof
  fix x :: new_order_params and bs :: "u8 list"
  show "length (new_order_params_bytes x) = NEW_ORDER_PARAMS_LEN"
    by (simp add: new_order_params_bytes_def NEW_ORDER_PARAMS_LEN_def new_order_params_layout_def
        struct_simps)
  show "new_order_params_of_bytes (new_order_params_bytes x) = x"
    unfolding new_order_params_bytes_def new_order_params_of_bytes_def
    by (subst split_fields_concat)
      (simp_all add: Let_def new_order_params_layout_def struct_simps)
  assume "length bs = NEW_ORDER_PARAMS_LEN"
  then obtain xss where "map length xss = new_order_params_layout" and bs: "bs = concat xss"
    by (auto simp: NEW_ORDER_PARAMS_LEN_def elim: bytes_split)
  then show "new_order_params_bytes (new_order_params_of_bytes bs) = bs"
    by (simp add: new_order_params_of_bytes_def split_fields_concat)
      (auto simp: new_order_params_bytes_def Let_def new_order_params_layout_def map_eq_Cons_conv
        struct_inverse)
qed

lemma order_type_from_u8_iff: "order_type_from_u8 n = Some t \<longleftrightarrow> n = order_type_code t"
  by (cases t) (auto simp: order_type_from_u8_def)

lemma order_type_code_inject [simp]: "order_type_code s = order_type_code t \<longleftrightarrow> s = t"
  by (cases s; cases t) simp_all

lemma new_order_parse_checks:
  assumes "new_order_parse env program_id L accts d = Inr a"
  shows "new_order_read_accounts accts d = Inr a" and "is_signer (noa_user_owner a)"
    and "key (noa_spl_token_program a) = spl_token_id env"
    and "owner (L (key (noa_user a))) = program_id"
    and "owner (L (key (noa_market a))) = program_id"
  using assms by (auto simp: new_order_parse_def res_simps)

lemma new_order_load_user_account_eq_Inr [res_simps]:
  "new_order_load_user_account a bs = Inr u \<longleftrightarrow>
     from_buffer bs = Inr u \<and> uh_owner (ua_header u) = key (noa_user_owner a) \<and>
     uh_market (ua_header u) = key (noa_market a)"
  by (auto simp: new_order_load_user_account_def res_simps)

lemma new_order_check_accounts_eq_Inr [res_simps]:
  "new_order_check_accounts s a = Inr x \<longleftrightarrow>
     key (noa_orderbook a) = ds_orderbook s \<and> key (noa_base_vault a) = ds_base_vault s \<and>
     key (noa_quote_vault a) = ds_quote_vault s"
  by (auto simp: new_order_check_accounts_def res_simps)

section \<open>Settling against the user account\<close>

text \<open>
  The quote quantity the program takes as matched, the total of the order book less its own value of
  the posted part: the subtraction is unchecked and wraps when that value is the larger one.
\<close>

definition taken_quote :: "order_summary \<Rightarrow> u64 \<Rightarrow> nat" where
  "taken_quote m posted = (unat (total_quote_qty m) + 2 ^ 64 - unat posted) mod 2 ^ 64"

lemma taken_quote_word: "unat (total_quote_qty m - posted) = taken_quote m posted"
  by (simp only: taken_quote_def unat_sub_wrap)

lemma taken_quote_exact:
  "unat posted \<le> unat (total_quote_qty m) \<Longrightarrow> taken_quote m posted = unat (total_quote_qty m) - unat posted"
  by (simp only: unat_sub_exact flip: taken_quote_word)

definition bid_cost :: "dex_state \<Rightarrow> fee_tier \<Rightarrow> order_summary \<Rightarrow> u64 \<Rightarrow> nat" where
  "bid_cost s tier m posted =
     (unat (total_quote_qty m) + order_fees s tier (taken_quote m posted)) mod 2 ^ 64"

lemma new_order_bid_position:
  assumes "new_order_bid s tier u m posted = Inr (u', m', q, r)"
  shows "position_of u' = place_bid_u64 (bid_cost s tier m posted) (unat posted)
           (unat (total_base_qty m) - unat (total_base_qty_posted m)) (position_of u)"
    and "unat q = bid_deposit (bid_cost s tier m posted) (position_of u)"
    and "unat (total_quote_qty m') = bid_cost s tier m posted"
    and "total_base_qty_posted m \<le> total_base_qty m"
proof -
  let ?matched = "total_quote_qty m - posted" and ?h = "ua_header u"
  from assms obtain fee bps bf where
    fee: "taker_fee tier ?matched = (Inr fee :: u64 program_result)"
    and bps: "checked_mul ?matched (ds_royalties_bps s) = Some bps"
    and bf: "Option.bind (checked_sub (total_base_qty m) (total_base_qty_posted m))
          (\<lambda>n. checked_add n (uh_base_token_free ?h)) = Some bf"
    and m': "m' = m\<lparr>total_quote_qty := total_quote_qty m + (fee + bps div 10000)\<rparr>"
    and q: "q = saturating_sub (total_quote_qty m') (uh_quote_token_free ?h)"
    and u': "u' = u\<lparr>ua_header := ?h\<lparr>
        uh_quote_token_free := saturating_sub (uh_quote_token_free ?h) (total_quote_qty m'),
        uh_quote_token_locked := uh_quote_token_locked ?h + posted, uh_base_token_free := bf\<rparr>\<rparr>"
    by (auto simp: new_order_bid_def Let_def res_simps)
  show cost: "unat (total_quote_qty m') = bid_cost s tier m posted"
    using unat_order_fees [OF fee bps] by (simp add: m' bid_cost_def unat_add_wrap taken_quote_word)
  show "unat q = bid_deposit (bid_cost s tier m posted) (position_of u)"
    using cost by (simp add: q unat_saturating_sub bid_deposit_def position_of_def Let_def)
  from checked_sub_add_SomeD [OF bf]
  show "position_of u' = place_bid_u64 (bid_cost s tier m posted) (unat posted)
           (unat (total_base_qty m) - unat (total_base_qty_posted m)) (position_of u)"
    and "total_base_qty_posted m \<le> total_base_qty m"
    using cost
    by (simp_all add: position_of_def place_bid_u64_def u' unat_saturating_sub Let_def unat_add_wrap
        word_le_nat_alt)
qed

lemma new_order_ask_position:
  assumes "new_order_ask s tier u m posted = Inr (u', m', q, r)"
  defines "taken \<equiv> taken_quote m posted"
  shows "position_of u' = place_ask_u64 (unat (total_base_qty m)) (unat (total_base_qty_posted m))
           (taken - order_fees s tier taken) (position_of u)"
    and "unat q = ask_deposit (unat (total_base_qty m)) (position_of u)"
    and "order_fees s tier taken \<le> taken"
    and "taken * unat (ds_royalties_bps s) < 2 ^ 64"
proof -
  let ?taken = "total_quote_qty m - posted" and ?h = "ua_header u"
  from assms(1) obtain fee bps qf where
    fee: "taker_fee tier ?taken = (Inr fee :: u64 program_result)"
    and bps: "checked_mul ?taken (ds_royalties_bps s) = Some bps"
    and qf: "Option.bind (checked_sub ?taken (fee + bps div 10000))
          (\<lambda>n. checked_add n (uh_quote_token_free ?h)) = Some qf"
    and q: "q = saturating_sub (total_base_qty m) (uh_base_token_free ?h)"
    and u': "u' = u\<lparr>ua_header := ?h\<lparr>
        uh_base_token_free := saturating_sub (uh_base_token_free ?h) (total_base_qty m),
        uh_base_token_locked := uh_base_token_locked ?h + total_base_qty_posted m,
        uh_quote_token_free := qf\<rparr>\<rparr>"
    by (auto simp: new_order_ask_def Let_def res_simps)
  show "taken * unat (ds_royalties_bps s) < 2 ^ 64"
    using bps unat_u64 [of bps] by (simp add: checked_simps taken_quote_word taken_def)
  show n: "order_fees s tier taken \<le> taken"
    and "position_of u' = place_ask_u64 (unat (total_base_qty m)) (unat (total_base_qty_posted m))
           (taken - order_fees s tier taken) (position_of u)"
    using checked_sub_add_SomeD [OF qf] unat_order_fees [OF fee bps]
    by (simp_all add: position_of_def place_ask_u64_def u' unat_saturating_sub Let_def unat_add_wrap
        taken_quote_word taken_def)
  show "unat q = ask_deposit (unat (total_base_qty m)) (position_of u)"
    by (simp add: q unat_saturating_sub ask_deposit_def position_of_def Let_def)
qed

lemma new_order_record_position:
  assumes "new_order_record u m posted cid = Inr u'"
  shows "position_of u' = position_of u"
  using assms
  by (auto simp: new_order_record_def Let_def res_simps position_of_def
      dest!: position_of_add_order split: option.splits)

section \<open>The whole handler\<close>

lemma new_order_processE:
  assumes "new_order_process env program_id accts idata L = Inr L'"
  obtains p a s u ot tier mq ip m L1 where
    "idata = new_order_params_bytes p"
    and "new_order_parse env program_id L accts (nop_has_discount_token_account p \<noteq> 0) = Inr a"
    and "dex_state_get L (key (noa_market a)) = Inr s"
    and "key (noa_user a) \<noteq> key (noa_market a)"
    and "user_account_get L (key (noa_user a)) = Inr u"
    and "uh_owner (ua_header u) = key (noa_user_owner a)"
    and "uh_market (ua_header u) = key (noa_market a)"
    and "ds_min_base_order_size s \<le> nop_max_base_qty p"
    and "new_order_check_accounts s a = Inr ()"
    and "nop_order_type p = order_type_code ot"
    and "new_order_fee_tier env L s a = Inr tier"
    and "new_order_budget p tier = Inr mq"
    and "new_order_invoke_params s p mq (new_order_callback_info a tier)
           (fst (order_type_flags ot)) (snd (order_type_flags ot)) = Inr ip"
    and "aob_new_order env program_id (new_order_aob_accounts a) ip L = Inr (m, L1)"
    and "new_order_settle env program_id p a s tier ot (aob_side ip) mq u m L1 = Inr L'"
  using assms
  by (auto simp: new_order_process_def res_simps new_order_params_codec.try_from_bytes_eq_Some
      user_account_get_def order_type_from_u8_iff not_less)

lemma new_order_invoke_params_eq_Inr:
  "new_order_invoke_params s p mq cb po pa = Inr ip \<longleftrightarrow>
     ds_base_currency_multiplier s \<noteq> 0 \<and> ds_quote_currency_multiplier s \<noteq> 0 \<and>
     nop_side p = side_code (aob_side ip) \<and>
     self_trade_behavior_from_u8 (nop_self_trade_behavior p) = Some (aob_self_trade_behavior ip) \<and>
     ip = \<lparr>aob_max_base_qty = nop_max_base_qty p div ds_base_currency_multiplier s,
           aob_max_quote_qty = mq div ds_quote_currency_multiplier s,
           aob_limit_price = nop_limit_price p, aob_side = aob_side ip,
           aob_match_limit = nop_match_limit p, aob_callback_info = cb, aob_post_only = po,
           aob_post_allowed = pa, aob_self_trade_behavior = aob_self_trade_behavior ip\<rparr>"
  by (cases ip) (auto simp: new_order_invoke_params_def res_simps side_from_u8_iff)

lemma new_order_settleE:
  assumes "new_order_settle env program_id p a s tier ot sd mq u m0 L1 = Inr L'"
  obtains m posted u1 m1 q r L2 L3 u2 where
    "unscale_order_summary s m0 = Some m"
    and "get_quote_from_base s (total_base_qty_posted m) (nop_limit_price p) = Some posted"
    and "(case sd of Bid \<Rightarrow> new_order_bid s tier u m posted | Ask \<Rightarrow> new_order_ask s tier u m posted)
           = Inr (u1, m1, q, r)"
    and "\<not> new_order_abort ot sd m1 (nop_max_base_qty p) mq"
    and "token_invoke env program_id (new_order_funding_cpi a
           (case sd of Bid \<Rightarrow> noa_quote_vault a | Ask \<Rightarrow> noa_base_vault a) q) L1 = Inr L2"
    and "(case noa_fee_referral_account a of
            Some x \<Rightarrow> token_invoke env program_id (new_order_referral_cpi a s x r) L2
          | None \<Rightarrow> Inr L2) = Inr L3"
    and "new_order_record u1 m1 posted (nop_client_order_id p) = Inr u2"
    and "L' = user_account_put (key (noa_user a)) u2 L3"
  using assms unfolding new_order_settle_def Let_def
  by (auto simp: res_simps split: prod.splits)

lemma new_order_record_header:
  assumes "new_order_record u m posted cid = Inr u'"
  shows "uh_tag (ua_header u') = uh_tag (ua_header u)"
    and "uh_owner (ua_header u') = uh_owner (ua_header u)"
    and "uh_market (ua_header u') = uh_market (ua_header u)"
    and "length (ua_orders u') = length (ua_orders u)"
  using assms
  by (auto simp: new_order_record_def Let_def res_simps dest: add_order_frame split: option.splits)

lemma new_order_bid_header:
  assumes "new_order_bid s tier u m posted = Inr (u', m', q, r)"
  shows "uh_tag (ua_header u') = uh_tag (ua_header u)"
    and "uh_number_of_orders (ua_header u') = uh_number_of_orders (ua_header u)"
    and "ua_orders u' = ua_orders u"
    and "posted_order_id m' = posted_order_id m"
  using assms by (auto simp: new_order_bid_def Let_def res_simps)

lemma new_order_ask_header:
  assumes "new_order_ask s tier u m posted = Inr (u', m', q, r)"
  shows "uh_tag (ua_header u') = uh_tag (ua_header u)"
    and "uh_number_of_orders (ua_header u') = uh_number_of_orders (ua_header u)"
    and "ua_orders u' = ua_orders u"
    and "posted_order_id m' = posted_order_id m"
  using assms by (auto simp: new_order_ask_def Let_def res_simps)

lemma new_order_bookE:
  assumes "new_order_process env program_id accts (new_order_params_bytes p) L = Inr L'"
    and "new_order_parse env program_id L accts (nop_has_discount_token_account p \<noteq> 0) = Inr a"
    and "dex_state_get L (key (noa_market a)) = Inr s"
    and "user_account_get L (key (noa_user a)) = Inr u"
    and "new_order_book_result env program_id p a s L = Inr (tier, m, posted, L1)"
  obtains sd u1 m1 q r L2 L3 u2 where "nop_side p = side_code sd"
    and "(case sd of Bid \<Rightarrow> new_order_bid s tier u m posted | Ask \<Rightarrow> new_order_ask s tier u m posted)
           = Inr (u1, m1, q, r)"
    and "token_invoke env program_id (new_order_funding_cpi a
           (case sd of Bid \<Rightarrow> noa_quote_vault a | Ask \<Rightarrow> noa_base_vault a) q) L1 = Inr L2"
    and "(case noa_fee_referral_account a of
            Some x \<Rightarrow> token_invoke env program_id (new_order_referral_cpi a s x r) L2
          | None \<Rightarrow> Inr L2) = Inr L3"
    and "new_order_record u1 m1 posted (nop_client_order_id p) = Inr u2"
    and "L' = user_account_put (key (noa_user a)) u2 L3"
    and "user_account_get L' (key (noa_user a)) = Inr u2"
    and "posted_order_id m1 = posted_order_id m" and "ua_orders u1 = ua_orders u"
    and "uh_number_of_orders (ua_header u1) = uh_number_of_orders (ua_header u)"
proof (rule new_order_processE [OF assms(1)], goal_cases)
  case (1 p' a' s' u' ot tier' mq ip m0 L1')
  from 1(2) have p': "p' = p"
    by (simp add: new_order_params_codec.enc_inject)
  with 1(3) assms(2) have a': "a' = a" by simp
  with 1(4,6) assms(3,4) have su: "s' = s" "u' = u" by auto
  note eqs = p' a' su
  from 1(11-15) assms(5) have
    m: "unscale_order_summary s m0 = Some m"
    and posted: "get_quote_from_base s (total_base_qty_posted m) (nop_limit_price p) = Some posted"
    and tier: "tier' = tier" and L1: "L1' = L1"
    by (auto simp: eqs new_order_book_result_def order_type_from_u8_iff res_simps)
  from 1(14) have sd: "nop_side p = side_code (aob_side ip)"
    by (simp add: eqs new_order_invoke_params_eq_Inr)
  show thesis
  proof (rule new_order_settleE [OF 1(16) [unfolded eqs tier L1]], goal_cases)
    case (1 m' posted' u1 m1 q r L2 L3 u2)
    from 1(1,2) m posted have mp: "m' = m" "posted' = posted" by auto
    have valid: "user_valid u2"
      using user.load_valid [OF assms(4)] 1(3) new_order_record_header(1) [OF 1(7)]
      by (auto simp: user_valid_def dest: new_order_bid_header(1) new_order_ask_header(1)
          split: side.splits)
    have get: "user_account_get L' (key (noa_user a)) = Inr u2"
      using valid by (simp add: 1(8) user_account_get_written user_account_put_def)
    show thesis
      by (rule that [OF sd 1(3,5,6,7) [unfolded mp] 1(8) get])
        (use 1(3) mp in \<open>auto split: side.splits dest: new_order_bid_header new_order_ask_header\<close>)
  qed
qed

text \<open>The program's value of the posted part is the order book's or larger by less than one multiplier.\<close>

lemma new_order_posted_near:
  assumes "new_order_book_result env program_id p a s L = Inr (tier, m, posted, L1)"
  defines "book \<equiv> book_posted_quote s (nop_limit_price p) (unat (total_base_qty_posted m))"
  shows "book \<le> unat posted" and "unat posted < book + unat (ds_quote_currency_multiplier s)"
proof -
  from assms(1) obtain m0 ip mq cb po pa where m: "unscale_order_summary s m0 = Some m"
    and ip: "new_order_invoke_params s p mq cb po pa = Inr ip"
    and posted: "get_quote_from_base s (total_base_qty_posted m) (nop_limit_price p) = Some posted"
    by (auto simp: new_order_book_result_def res_simps)
  have "unat (ds_base_currency_multiplier s) dvd unat (total_base_qty_posted m)"
    using m by (auto simp: unscale_order_summary_eq_Some)
  moreover have "ds_quote_currency_multiplier s \<noteq> 0"
    using ip new_order_invoke_params_eq_Inr by blast
  ultimately show "book \<le> unat posted" and "unat posted < book + unat (ds_quote_currency_multiplier s)"
    unfolding book_def using posted_quote_near [OF posted] by simp_all
qed

lemma wrapped_proceeds:
  assumes "2 ^ 64 - 2 ^ 32 \<le> taken" and "taken < 2 ^ 64" and "taken * unat (ds_royalties_bps s) < 2 ^ 64"
  shows "2 ^ 63 < taken - order_fees s tier taken"
proof -
  have "taken * taker_rate_nat tier \<le> 2 ^ 64 * 1717986"
    using assms(2) taker_rate_nat_le [of tier] by (intro mult_mono) simp_all
  then have "taken * taker_rate_nat tier div 2 ^ 32 \<le> 2 ^ 32 * 1717986"
    by (rule div_le_mono [THEN le_trans]) simp
  moreover have "taken * unat (ds_royalties_bps s) div 10000 \<le> 2 ^ 64 div 10000"
    using assms(3) by (intro div_le_mono) simp
  ultimately have "order_fees s tier taken \<le> 2 ^ 32 * 1717986 + 2 ^ 64 div 10000"
    by (simp add: order_fees_def)
  with assms(1) show ?thesis by simp
qed

section \<open>A concrete order\<close>

definition ex_order_params :: "side \<Rightarrow> new_order_params" where
  "ex_order_params sd =
     \<lparr>nop_client_order_id = 5, nop_limit_price = 8589934592, nop_max_base_qty = 3000,
      nop_max_quote_qty = 20000, nop_match_limit = 10, nop_side = side_code sd, nop_order_type = 0,
      nop_self_trade_behavior = 0, nop_has_discount_token_account = 0, nop_padding = 0\<rparr>"

definition ex_order_infos :: "account_info list" where
  "ex_order_infos = [ex_info 1 False, ex_info 2 False, ex_info 3 False, ex_info 4 False,
     ex_info 5 False, ex_info 6 False, ex_info 7 False, ex_info 8 False, ex_info 9 False,
     ex_info 10 False, ex_info 11 False, ex_info 12 True]"

definition ex_order_accounts :: new_order_accounts where
  "ex_order_accounts =
     \<lparr>noa_spl_token_program = ex_info 1 False, noa_system_program = ex_info 2 False,
      noa_market = ex_info 3 False, noa_orderbook = ex_info 4 False,
      noa_event_queue = ex_info 5 False, noa_bids = ex_info 6 False, noa_asks = ex_info 7 False,
      noa_base_vault = ex_info 8 False, noa_quote_vault = ex_info 9 False,
      noa_user = ex_info 10 False, noa_user_token_account = ex_info 11 False,
      noa_user_owner = ex_info 12 True, noa_discount_token_account = None,
      noa_fee_referral_account = None\<rparr>"

text \<open>The order matches 2500 base tokens for 5000 quote tokens and posts 500 at price 2.\<close>

definition ex_summary :: order_summary where
  "ex_summary =
     \<lparr>posted_order_id = Some 99, total_base_qty = 3000, total_quote_qty = 6000,
      total_base_qty_posted = 500\<rparr>"

lemma ex_order_parse:
  "new_order_parse (ex_env m es) 100 ex_ledger ex_order_infos False = Inr ex_order_accounts"
  by (simp add: new_order_parse_def new_order_read_accounts_def ex_order_infos_def ex_env_def
      ex_info_def next_optional_def ex_order_accounts_def check_signer_def check_account_key_def
      check_account_owner_def)

lemma ex_order_load:
  "dex_state_get ex_ledger (key (noa_market ex_order_accounts)) = Inr ex_market"
  "user_account_get ex_ledger (key (noa_user ex_order_accounts)) = Inr ex_user"
  by (simp_all add: ex_order_accounts_def ex_info_def)

lemmas new_order_eval =
  new_order_read_accounts_def next_optional_def new_order_parse_def new_order_load_user_account_def
  new_order_check_accounts_def new_order_fee_tier_def new_order_budget_def
  new_order_invoke_params_def new_order_callback_info_def new_order_settle_def new_order_bid_def
  new_order_ask_def new_order_abort_def new_order_record_def order_type_from_u8_def eval_defs

lemma ex_order_book:
  "new_order_book_result (ex_env ex_summary es) 100 (ex_order_params sd) ex_order_accounts ex_market
     ex_ledger = Inr (Base, ex_summary, 1000, ex_ledger)"
  by (cases sd) (simp_all add: new_order_book_result_def ex_order_params_def ex_order_accounts_def
      ex_summary_def ex_defs new_order_eval)

lemma ex_order_process:
  "\<exists>L'. new_order_process (ex_env ex_summary es) 100 ex_order_infos
     (new_order_params_bytes (ex_order_params sd)) ex_ledger = Inr L'"
  by (cases sd) (simp_all add: new_order_process_def new_order_params_codec.try_from_bytes_enc ex_order_params_def
      ex_order_infos_def ex_summary_def new_order_eval ex_defs add_order_def new_order_funding_cpi_def new_order_aob_accounts_def)

section \<open>Properties\<close>

text \<open>
  C4: Every bid that succeeds costs the quote total the order book reports plus the taker fee and the
  royalties on the part the program takes as matched, in 64-bit arithmetic: the free balance and
  then the wallet pay that cost, the program's value of the posted part is added to the locked
  balance, and the base tokens bought become free. When the program's value of the posted part is
  at most the total, and the cost and the locked balance stay below \<open>2 ^ 64\<close>, this is the movement
  \<open>place_bid\<close> on natural numbers; the source checks none of the three.
\<close>

theorem new_order_bid_refines:
  assumes "new_order_process env program_id accts (new_order_params_bytes p) L = Inr L'"
    and "new_order_parse env program_id L accts (nop_has_discount_token_account p \<noteq> 0) = Inr a"
    and "dex_state_get L (key (noa_market a)) = Inr s"
    and "user_account_get L (key (noa_user a)) = Inr u"
    and "new_order_book_result env program_id p a s L = Inr (tier, m, posted, L1)"
    and "nop_side p = side_code Bid"
  defines "cost \<equiv> (unat (total_quote_qty m) + order_fees s tier (taken_quote m posted)) mod 2 ^ 64"
    and "bought \<equiv> unat (total_base_qty m) - unat (total_base_qty_posted m)"
    and "exact \<equiv> unat (total_quote_qty m) + order_fees s tier (unat (total_quote_qty m) - unat posted)"
  shows "\<exists>u' q L2. user_account_get L' (key (noa_user a)) = Inr u' \<and>
    position_of u' = place_bid_u64 cost (unat posted) bought (position_of u) \<and>
    unat q = bid_deposit cost (position_of u) \<and>
    token_invoke env program_id (new_order_funding_cpi a (noa_quote_vault a) q) L1 = Inr L2 \<and>
    (unat posted \<le> unat (total_quote_qty m) \<and> exact < 2 ^ 64 \<and>
       quote_locked (position_of u) + unat posted < 2 ^ 64 \<longrightarrow>
     position_of u' = place_bid exact (unat posted) bought (position_of u) \<and>
     unat q = bid_deposit exact (position_of u))"
proof (rule new_order_bookE [OF assms(1-5)], goal_cases)
  case (1 sd u1 m1 q r L2 L3 u2)
  from 1(1) assms(6) have sd: "sd = Bid" by (cases sd) auto
  with 1(2) have bid: "new_order_bid s tier u m posted = Inr (u1, m1, q, r)" by simp
  note pos = new_order_bid_position(1,2) [OF bid, unfolded bid_cost_def, folded cost_def bought_def]
  have "unat posted \<le> unat (total_quote_qty m) \<Longrightarrow> exact < 2 ^ 64 \<Longrightarrow> cost = exact"
    by (simp add: cost_def exact_def taken_quote_exact)
  with 1 sd pos new_order_record_position [OF 1(5)] show ?thesis
    by (intro exI [of _ u2] exI [of _ q] exI [of _ L2]) (simp add: place_u64_exact)
qed

theorem new_order_bid_refines_witness:
  "\<exists>L' u'. new_order_process (ex_env ex_summary []) 100 ex_order_infos
     (new_order_params_bytes (ex_order_params Bid)) ex_ledger = Inr L' \<and>
   user_account_get L' 10 = Inr u' \<and>
   position_of u' = place_bid 6001 1000 2500 (position_of ex_user)"
proof -
  obtain L' where run: "new_order_process (ex_env ex_summary []) 100 ex_order_infos
     (new_order_params_bytes (ex_order_params Bid)) ex_ledger = Inr L'"
    using ex_order_process by blast
  show ?thesis
    using new_order_bid_refines [OF run _ _ _ ex_order_book] run
    by (simp add: ex_order_parse ex_order_params_def)
      (auto simp: ex_order_accounts_def ex_info_def ex_summary_def order_fees_def ex_market_def
        position_of_def ex_user_def user_account_header_new_def)
qed

text \<open>
  C11: Every ask that succeeds takes all its base tokens from the free balance and then the wallet,
  adds the posted part to the locked balance in 64-bit arithmetic, and makes free the quote tokens
  the program takes as matched, less the taker fee and the royalties on them. When the program's
  value of the posted part is at most the quote total of the order book, and the locked balance
  stays below \<open>2 ^ 64\<close>, this is the movement \<open>place_ask\<close> on natural numbers; the source checks
  neither.
\<close>

theorem new_order_ask_refines:
  assumes "new_order_process env program_id accts (new_order_params_bytes p) L = Inr L'"
    and "new_order_parse env program_id L accts (nop_has_discount_token_account p \<noteq> 0) = Inr a"
    and "dex_state_get L (key (noa_market a)) = Inr s"
    and "user_account_get L (key (noa_user a)) = Inr u"
    and "new_order_book_result env program_id p a s L = Inr (tier, m, posted, L1)"
    and "nop_side p = side_code Ask"
  defines "taken \<equiv> taken_quote m posted"
    and "exact \<equiv> unat (total_quote_qty m) - unat posted"
  shows "\<exists>u' q L2. user_account_get L' (key (noa_user a)) = Inr u' \<and>
    position_of u' = place_ask_u64 (unat (total_base_qty m)) (unat (total_base_qty_posted m))
      (taken - order_fees s tier taken) (position_of u) \<and>
    order_fees s tier taken \<le> taken \<and>
    unat q = ask_deposit (unat (total_base_qty m)) (position_of u) \<and>
    token_invoke env program_id (new_order_funding_cpi a (noa_base_vault a) q) L1 = Inr L2 \<and>
    (unat posted \<le> unat (total_quote_qty m) \<and>
       base_locked (position_of u) + unat (total_base_qty_posted m) < 2 ^ 64 \<longrightarrow>
     position_of u' = place_ask (unat (total_base_qty m)) (unat (total_base_qty_posted m))
       (exact - order_fees s tier exact) (position_of u))"
proof (rule new_order_bookE [OF assms(1-5)], goal_cases)
  case (1 sd u1 m1 q r L2 L3 u2)
  from 1(1) assms(6) have sd: "sd = Ask" by (cases sd) auto
  with 1(2) have ask: "new_order_ask s tier u m posted = Inr (u1, m1, q, r)" by simp
  note pos = new_order_ask_position(1-3) [OF ask, folded taken_def]
  have "unat posted \<le> unat (total_quote_qty m) \<Longrightarrow> taken = exact"
    by (simp add: taken_def exact_def taken_quote_exact)
  with 1 sd pos new_order_record_position [OF 1(5)] show ?thesis
    by (intro exI [of _ u2] exI [of _ q] exI [of _ L2]) (simp add: place_u64_exact)
qed

theorem new_order_ask_refines_witness:
  "\<exists>L' u'. new_order_process (ex_env ex_summary []) 100 ex_order_infos
     (new_order_params_bytes (ex_order_params Ask)) ex_ledger = Inr L' \<and>
   user_account_get L' 10 = Inr u' \<and>
   position_of u' = place_ask 3000 500 4999 (position_of ex_user)"
proof -
  obtain L' where run: "new_order_process (ex_env ex_summary []) 100 ex_order_infos
     (new_order_params_bytes (ex_order_params Ask)) ex_ledger = Inr L'"
    using ex_order_process by blast
  show ?thesis
    using new_order_ask_refines [OF run _ _ _ ex_order_book] run
    by (simp add: ex_order_parse ex_order_params_def)
      (auto simp: ex_order_accounts_def ex_info_def ex_summary_def order_fees_def ex_market_def
        position_of_def ex_user_def user_account_header_new_def)
qed

text \<open>A market on which both multipliers are two, and an ask for two base tokens at one and a half.\<close>

definition ex_round_market :: dex_state where
  "ex_round_market = ex_market\<lparr>ds_base_currency_multiplier := 2, ds_quote_currency_multiplier := 2\<rparr>"

definition ex_round_ledger :: ledger where
  "ex_round_ledger = ex_ledger(3 := \<lparr>lamports = 10, data = dex_state_bytes ex_round_market, owner = 100\<rparr>)"

definition ex_round_params :: new_order_params where
  "ex_round_params = (ex_order_params Ask)\<lparr>nop_limit_price := 6442450944\<rparr>"

text \<open>What the book answers, in its own units: one unit posted, at a value of one and a half rounded down.\<close>

definition ex_round_summary :: order_summary where
  "ex_round_summary =
     \<lparr>posted_order_id = Some 99, total_base_qty = 1, total_quote_qty = 1, total_base_qty_posted = 1\<rparr>"

definition ex_round_unscaled :: order_summary where
  "ex_round_unscaled = ex_round_summary\<lparr>total_base_qty := 2, total_quote_qty := 2, total_base_qty_posted := 2\<rparr>"

lemma ex_round_load:
  "dex_state_get ex_round_ledger 3 = Inr ex_round_market"
  "user_account_get ex_round_ledger 10 = Inr ex_user"
  using ex_load(2) user.load_cong [of ex_round_ledger 10 ex_ledger]
  by (auto intro!: dex_state_get_written [where rest = "[]"]
      simp: ex_round_ledger_def ex_round_market_def market_valid_def ex_market_def)

lemma ex_round_parse:
  "new_order_parse (ex_env ex_round_summary []) 100 ex_round_ledger ex_order_infos
     (nop_has_discount_token_account ex_round_params \<noteq> 0) = Inr ex_order_accounts"
  by (simp add: new_order_parse_def new_order_read_accounts_def ex_order_infos_def ex_env_def
      ex_info_def next_optional_def ex_order_accounts_def ex_order_params_def ex_round_params_def
      ex_round_ledger_def check_signer_def check_account_key_def check_account_owner_def)

lemma ex_round_book:
  "new_order_book_result (ex_env ex_round_summary []) 100 ex_round_params ex_order_accounts ex_round_market
     ex_round_ledger = Inr (Base, ex_round_unscaled, 3, ex_round_ledger)"
  by (simp add: new_order_book_result_def ex_order_params_def ex_order_accounts_def ex_round_params_def
      ex_round_summary_def ex_round_unscaled_def ex_round_market_def ex_defs new_order_eval)

lemma ex_round_word:
  "unat (- 1 :: u64) = 18446744073709551615" "ucast (- 1 :: u64) = (18446744073709551615 :: u128)"
proof -
  show "unat (- 1 :: u64) = 18446744073709551615"
    using unat_sub_wrap [of 0 1] by simp
  then have "unat (ucast (- 1 :: u64) :: u128) = unat (18446744073709551615 :: u128)"
    by (simp add: unat_ucast_widen)
  then show "ucast (- 1 :: u64) = (18446744073709551615 :: u128)"
    by (simp only: word_unat_eq_iff)
qed

lemma ex_round_process:
  "\<exists>L'. new_order_process (ex_env ex_round_summary []) 100 ex_order_infos
     (new_order_params_bytes ex_round_params) ex_round_ledger = Inr L'"
proof -
  have "from_buffer (data (ex_round_ledger 10)) = Inr ex_user"
    using ex_round_load(2) by (simp add: user_account_get_def)
  then show ?thesis
    by (simp add: new_order_process_def new_order_params_codec.try_from_bytes_enc ex_round_parse
        ex_order_accounts_def ex_round_load(1))
      (simp add: ex_round_params_def ex_order_params_def ex_round_summary_def ex_round_market_def
        new_order_eval ex_defs add_order_def new_order_funding_cpi_def new_order_aob_accounts_def
        ex_round_word Let_def)
qed

text \<open>
  C39: An ask that matches nothing and is posted whole can credit its owner with more than \<open>2 ^ 63\<close>
  quote tokens that nobody has paid. The order book rounds the value of the posted part in its
  own units, the program after the conversion; where the program's value is the larger one, which
  takes a quote multiplier of at least two, the subtraction wraps and the difference to \<open>2 ^ 64\<close>,
  less fees, becomes free. The multiplier is taken to be at most \<open>2 ^ 32\<close>.
\<close>

theorem unmatched_ask_overcredits:
  assumes "new_order_process env program_id accts (new_order_params_bytes p) L = Inr L'"
    and "new_order_parse env program_id L accts (nop_has_discount_token_account p \<noteq> 0) = Inr a"
    and "dex_state_get L (key (noa_market a)) = Inr s"
    and "user_account_get L (key (noa_user a)) = Inr u"
    and "new_order_book_result env program_id p a s L = Inr (tier, m, posted, L1)"
    and "nop_side p = side_code Ask"
    and nothing_matched: "unat (total_quote_qty m)
      = book_posted_quote s (nop_limit_price p) (unat (total_base_qty_posted m))"
    and rounded_apart: "unat posted \<noteq> unat (total_quote_qty m)"
    and "unat (ds_quote_currency_multiplier s) \<le> 2 ^ 32"
  defines "taken \<equiv> 2 ^ 64 - (unat posted - unat (total_quote_qty m))"
  shows "2 \<le> unat (ds_quote_currency_multiplier s) \<and>
    (\<exists>u'. user_account_get L' (key (noa_user a)) = Inr u' \<and>
      quote_free (position_of u') = quote_free (position_of u) + (taken - order_fees s tier taken) \<and>
      2 ^ 63 < quote_free (position_of u'))"
proof -
  note near = new_order_posted_near [OF assms(5), folded nothing_matched]
  have wraps: "unat (total_quote_qty m) < unat posted"
    using near(1) rounded_apart by simp
  have "taken_quote m posted = unat (total_quote_qty m) + 2 ^ 64 - unat posted"
    unfolding taken_quote_def using wraps by (intro mod_less) simp
  then have taken: "taken_quote m posted = taken"
    using wraps unat_u64 [of posted] by (simp add: taken_def)
  have "2 ^ 64 - 2 ^ 32 \<le> taken" "taken < 2 ^ 64"
    using near(2) wraps assms(9) by (simp_all add: taken_def)
  note proceeds = wrapped_proceeds [OF this, of s tier]
  show ?thesis
  proof (rule new_order_bookE [OF assms(1-5)], goal_cases)
    case (1 sd u1 m1 q r L2 L3 u2)
    from 1(1) assms(6) have "sd = Ask" by (cases sd) auto
    with 1(2) have "new_order_ask s tier u m posted = Inr (u1, m1, q, r)" by simp
    note pos = new_order_ask_position(1,4) [OF this, unfolded taken]
    have "quote_free (position_of u2) = quote_free (position_of u) + (taken - order_fees s tier taken)"
      using pos(1) new_order_record_position [OF 1(5)] by (simp add: place_ask_u64_def)
    with 1(7) proceeds [OF pos(2)] near wraps show ?thesis
      by auto
  qed
qed

theorem unmatched_ask_overcredits_witness:
  "\<exists>L' u'. new_order_process (ex_env ex_round_summary []) 100 ex_order_infos
      (new_order_params_bytes ex_round_params) ex_round_ledger = Inr L' \<and>
    user_account_get L' 10 = Inr u' \<and> 2 ^ 63 < quote_free (position_of u')"
proof -
  obtain L' where run: "new_order_process (ex_env ex_round_summary []) 100 ex_order_infos
     (new_order_params_bytes ex_round_params) ex_round_ledger = Inr L'"
    using ex_round_process by blast
  have load: "dex_state_get ex_round_ledger (key (noa_market ex_order_accounts)) = Inr ex_round_market"
    "user_account_get ex_round_ledger (key (noa_user ex_order_accounts)) = Inr ex_user"
    using ex_round_load by (simp_all add: ex_order_accounts_def)
  show ?thesis
    using unmatched_ask_overcredits [OF run ex_round_parse load ex_round_book] run
    by (auto simp: ex_round_params_def ex_order_params_def ex_round_unscaled_def ex_round_summary_def
        book_posted_quote_def ex_round_market_def ex_market_def ex_order_accounts_def)
qed

text \<open>
  C18: A bid that is not post-only takes from its owner, out of the free balance and the wallet
  together, no more than the quote quantity stated in the instruction plus the royalties on the
  matched part. The order book is relied on to keep to the maximum it was given, and the
  program's value of the posted part must be at most the quote total, which the source does not
  check. The taker fee is set aside before the order reaches the book, the royalties are not.
\<close>

theorem new_order_bid_within_budget:
  assumes "new_order_process env program_id accts (new_order_params_bytes p) L = Inr L'"
    and "new_order_parse env program_id L accts (nop_has_discount_token_account p \<noteq> 0) = Inr a"
    and "dex_state_get L (key (noa_market a)) = Inr s"
    and "user_account_get L (key (noa_user a)) = Inr u"
    and "new_order_book_result env program_id p a s L = Inr (tier, m, posted, L1)"
    and "nop_side p = side_code Bid" and "nop_order_type p \<noteq> order_type_code PostOnly"
    and posted_within_total: "unat posted \<le> unat (total_quote_qty m)"
    and book_keeps_maximum: "\<And>acc ip K m0 K'. aob_new_order env program_id acc ip K = Inr (m0, K') \<Longrightarrow>
      total_quote_qty m0 \<le> aob_max_quote_qty ip"
  defines "matched \<equiv> unat (total_quote_qty m) - unat posted"
    and "cost \<equiv> (unat (total_quote_qty m) + order_fees s tier (unat (total_quote_qty m) - unat posted)) mod 2 ^ 64"
  shows "\<exists>u' q L2. user_account_get L' (key (noa_user a)) = Inr u' \<and>
    token_invoke env program_id (new_order_funding_cpi a (noa_quote_vault a) q) L1 = Inr L2 \<and>
    quote_free (position_of u') \<le> quote_free (position_of u) \<and>
    unat q + (quote_free (position_of u) - quote_free (position_of u')) = cost \<and>
    cost \<le> unat (nop_max_quote_qty p) + matched * unat (ds_royalties_bps s) div 10000"
proof -
  from assms(5) obtain ot mq ip m0 where mq: "new_order_budget p tier = Inr mq"
    and ip: "new_order_invoke_params s p mq (new_order_callback_info a tier)
       (fst (order_type_flags ot)) (snd (order_type_flags ot)) = Inr ip"
    and book: "aob_new_order env program_id (new_order_aob_accounts a) ip L = Inr (m0, L1)"
    and m: "unscale_order_summary s m0 = Some m"
    by (auto simp: new_order_book_result_def res_simps)
  have budget: "remove_taker_fee tier (nop_max_quote_qty p) = (Inr mq :: u64 program_result)"
    using mq assms(6,7) by (simp add: new_order_budget_def)
  have "unat (total_quote_qty m0) \<le> unat (mq div ds_quote_currency_multiplier s)"
    using book_keeps_maximum [OF book] ip new_order_invoke_params_eq_Inr
    by (metis (no_types, lifting) aob_new_order_params.select_convs(2) word_le_nat_alt)
  then have tq: "unat (total_quote_qty m) \<le> unat mq"
    using m by (simp add: unscale_order_summary_eq_Some unscale_scale_le)
  obtain f where f: "taker_fee tier (total_quote_qty m) = (Inr f :: u64 program_result)"
    using taker_fee_total by blast
  have "matched * taker_rate_nat tier div 2 ^ 32 \<le> unat f"
    using f by (simp only: taker_fee_iff matched_def) (intro div_le_mono mult_le_mono1, simp)
  with remove_taker_fee_budget [OF budget tq f] have
    "unat (total_quote_qty m) + order_fees s tier matched
       \<le> unat (nop_max_quote_qty p) + matched * unat (ds_royalties_bps s) div 10000"
    by (simp add: order_fees_def)
  then have bound: "cost \<le> unat (nop_max_quote_qty p) + matched * unat (ds_royalties_bps s) div 10000"
    unfolding cost_def matched_def by (rule le_trans [OF mod_less_eq_dividend])
  have cost: "bid_cost s tier m posted = cost"
    by (simp add: bid_cost_def cost_def taken_quote_exact [OF posted_within_total])
  show ?thesis
  proof (rule new_order_bookE [OF assms(1-5)], goal_cases)
    case (1 sd u1 m1 q r L2 L3 u2)
    from 1(1) assms(6) have sd: "sd = Bid" by (cases sd) auto
    with 1(2) have bid: "new_order_bid s tier u m posted = Inr (u1, m1, q, r)" by simp
    note pos = new_order_bid_position(1,2) [OF bid]
    have "unat q + (quote_free (position_of u) - quote_free (position_of u1)) = cost"
      using pos cost by (simp add: place_bid_u64_def bid_deposit_def)
    with 1 sd pos(1) bound new_order_record_position [OF 1(5)] show ?thesis
      by (intro exI [of _ u2] exI [of _ q] exI [of _ L2]) (simp add: place_bid_u64_def)
  qed
qed

theorem new_order_bid_within_budget_witness:
  "\<exists>L' u' q. new_order_process (ex_env ex_summary []) 100 ex_order_infos
      (new_order_params_bytes (ex_order_params Bid)) ex_ledger = Inr L' \<and>
    user_account_get L' 10 = Inr u' \<and>
    unat (q :: u64) + (2000 - quote_free (position_of u')) = 6001 \<and> (6001 :: nat) \<le> 20000"
proof -
  obtain L' where run: "new_order_process (ex_env ex_summary []) 100 ex_order_infos
     (new_order_params_bytes (ex_order_params Bid)) ex_ledger = Inr L'"
    using ex_order_process by blast
  have parse: "new_order_parse (ex_env ex_summary []) 100 ex_ledger ex_order_infos
     (nop_has_discount_token_account (ex_order_params Bid) \<noteq> 0) = Inr ex_order_accounts"
    by (simp add: ex_order_parse ex_order_params_def)
  have "\<And>acc ip K m0 K'. aob_new_order (ex_env ex_summary []) 100 acc ip K = Inr (m0, K') \<Longrightarrow>
      total_quote_qty m0 \<le> aob_max_quote_qty ip"
    by (auto simp: ex_env_def split: if_splits)
  moreover have "unat (1000 :: u64) \<le> unat (total_quote_qty ex_summary)"
    by (simp add: ex_summary_def)
  ultimately show ?thesis
    using new_order_bid_within_budget [OF run parse ex_order_load ex_order_book] run
    by (auto simp: ex_order_params_def ex_order_accounts_def ex_market_def position_of_def ex_user_def
        user_account_header_new_def order_fees_def ex_summary_def)
qed

text \<open>
  C19: When the order book posts a part of the order, the order's identifier and the client's
  identifier for it become the last open order of the user account, and the account still has a
  well-formed table; when nothing is posted the table is unchanged.
\<close>

theorem new_order_records_posted_order:
  assumes "new_order_process env program_id accts (new_order_params_bytes p) L = Inr L'"
    and "new_order_parse env program_id L accts (nop_has_discount_token_account p \<noteq> 0) = Inr a"
    and "dex_state_get L (key (noa_market a)) = Inr s"
    and "user_account_get L (key (noa_user a)) = Inr u"
    and "new_order_book_result env program_id p a s L = Inr (tier, m, posted, L1)"
    and "orders_wf u"
  shows "\<exists>u'. user_account_get L' (key (noa_user a)) = Inr u' \<and> orders_wf u' \<and>
    open_orders u' = open_orders u @
      (case posted_order_id m of
         None \<Rightarrow> []
       | Some oid \<Rightarrow> [\<lparr>o_id = oid, o_client_id = nop_client_order_id p\<rparr>])"
proof (rule new_order_bookE [OF assms(1-5)], goal_cases)
  case (1 sd u1 m1 q r L2 L3 u2)
  have "open_orders u1 = open_orders u" and wf: "orders_wf u1"
    using assms(6) 1(9,10) by (simp_all add: open_orders_def orders_wf_def)
  moreover have "orders_wf u2 \<and> open_orders u2 = open_orders u1 @ (case posted_order_id m of None \<Rightarrow> []
       | Some oid \<Rightarrow> [\<lparr>o_id = oid, o_client_id = nop_client_order_id p\<rparr>])"
    using 1(5,8) wf orders.add_Inr [OF wf]
    by (fastforce simp: new_order_record_def Let_def res_simps open_orders_def orders_wf_def
        split: option.splits)
  ultimately show ?thesis
    using 1(7) by auto
qed

theorem new_order_records_posted_order_witness:
  "\<exists>L' u'. new_order_process (ex_env ex_summary []) 100 ex_order_infos
     (new_order_params_bytes (ex_order_params Bid)) ex_ledger = Inr L' \<and>
   user_account_get L' 10 = Inr u' \<and>
   open_orders u' = [ex_order, \<lparr>o_id = 99, o_client_id = 5\<rparr>]"
proof -
  obtain L' where run: "new_order_process (ex_env ex_summary []) 100 ex_order_infos
     (new_order_params_bytes (ex_order_params Bid)) ex_ledger = Inr L'"
    using ex_order_process by blast
  have "orders_wf ex_user" and "open_orders ex_user = [ex_order]"
    by (simp_all add: orders_wf_def open_orders_def ex_defs)
  then show ?thesis
    using new_order_records_posted_order [OF run _ _ _ ex_order_book] run
    by (simp add: ex_order_parse ex_order_params_def)
      (auto simp: ex_order_accounts_def ex_order_params_def ex_info_def ex_summary_def)
qed

text \<open>
  An order is accepted only from the owner of the user account, who signed the transaction,
  for accounts the program owns, on the market the user account belongs to, and with the vaults
  and the order book of that market.
\<close>

theorem new_order_authorised:
  assumes "new_order_process env program_id accts idata L = Inr L'"
  shows "\<exists>p a s u. idata = new_order_params_bytes p \<and>
    new_order_read_accounts accts (nop_has_discount_token_account p \<noteq> 0) = Inr a \<and>
    dex_state_get L (key (noa_market a)) = Inr s \<and> user_account_get L (key (noa_user a)) = Inr u \<and>
    is_signer (noa_user_owner a) \<and> uh_owner (ua_header u) = key (noa_user_owner a) \<and>
    uh_market (ua_header u) = key (noa_market a) \<and>
    owner (L (key (noa_user a))) = program_id \<and> owner (L (key (noa_market a))) = program_id \<and>
    key (noa_orderbook a) = ds_orderbook s \<and> key (noa_base_vault a) = ds_base_vault s \<and>
    key (noa_quote_vault a) = ds_quote_vault s \<and> ds_min_base_order_size s \<le> nop_max_base_qty p"
proof (rule new_order_processE [OF assms], goal_cases)
  case (1 p a s u ot tier mq ip m L1)
  then show ?thesis
    using new_order_parse_checks [OF 1(2)]
    by (intro exI [of _ p] exI [of _ a] exI [of _ s] exI [of _ u]) (simp add: res_simps)
qed

theorem new_order_authorised_witness:
  "\<exists>a. new_order_read_accounts ex_order_infos False = Inr a \<and> is_signer (noa_user_owner a)"
proof -
  obtain L' where run: "new_order_process (ex_env ex_summary []) 100 ex_order_infos
     (new_order_params_bytes (ex_order_params Bid)) ex_ledger = Inr L'"
    using ex_order_process by blast
  show ?thesis
    using new_order_authorised [OF run]
    by (auto simp: new_order_params_codec.enc_inject ex_order_params_def)
qed

end
