(* ===== verification/Swap.thy ===== *)
theory Swap
  imports Example_World
begin

text \<open>
  The instruction \<open>swap\<close> (\<^verbatim>\<open>src/program/src/processor/swap.rs\<close>): an order that is matched at once
  and never posted, paid from and to the wallet's token accounts without a user account.
\<close>

section \<open>Parameters and accounts\<close>

record swap_params =
  swp_base_qty :: u64
  swp_quote_qty :: u64
  swp_match_limit :: u64
  swp_side :: u8
  swp_has_discount_token_account :: u8
  swp_padding :: "48 word"

definition swap_params_layout :: "nat list" where
  "swap_params_layout = [8, 8, 8, 1, 1, 6]"

definition SWAP_PARAMS_LEN :: nat where
  "SWAP_PARAMS_LEN = sum_list swap_params_layout"

definition swap_params_bytes :: "swap_params \<Rightarrow> u8 list" where
  "swap_params_bytes p = concat
     [to_le_bytes (swp_base_qty p), to_le_bytes (swp_quote_qty p), to_le_bytes (swp_match_limit p),
      to_le_bytes (swp_side p), to_le_bytes (swp_has_discount_token_account p),
      to_le_bytes (swp_padding p)]"

definition swap_params_of_bytes :: "u8 list \<Rightarrow> swap_params" where
  "swap_params_of_bytes bs =
     (let f = (!) (split_fields swap_params_layout bs) in
      \<lparr>swp_base_qty = from_le_bytes (f 0), swp_quote_qty = from_le_bytes (f 1),
       swp_match_limit = from_le_bytes (f 2), swp_side = from_le_bytes (f 3),
       swp_has_discount_token_account = from_le_bytes (f 4), swp_padding = from_le_bytes (f 5)\<rparr>)"

record swap_accounts =
  swa_spl_token_program :: account_info
  swa_system_program :: account_info
  swa_market :: account_info
  swa_orderbook :: account_info
  swa_event_queue :: account_info
  swa_bids :: account_info
  swa_asks :: account_info
  swa_base_vault :: account_info
  swa_quote_vault :: account_info
  swa_market_signer :: account_info
  swa_user_base_account :: account_info
  swa_user_quote_account :: account_info
  swa_user_owner :: account_info
  swa_discount_token_account :: "account_info option"
  swa_fee_referral_account :: "account_info option"

definition swap_read_accounts :: "account_info list \<Rightarrow> bool \<Rightarrow> swap_accounts program_result" where
  "swap_read_accounts accts has_discount_token_account =
     and_then (next_account_info accts) (\<lambda>(spl_token_program, accts).
     and_then (next_account_info accts) (\<lambda>(system_program, accts).
     and_then (next_account_info accts) (\<lambda>(market, accts).
     and_then (next_account_info accts) (\<lambda>(orderbook, accts).
     and_then (next_account_info accts) (\<lambda>(event_queue, accts).
     and_then (next_account_info accts) (\<lambda>(bids, accts).
     and_then (next_account_info accts) (\<lambda>(asks, accts).
     and_then (next_account_info accts) (\<lambda>(base_vault, accts).
     and_then (next_account_info accts) (\<lambda>(quote_vault, accts).
     and_then (next_account_info accts) (\<lambda>(market_signer, accts).
     and_then (next_account_info accts) (\<lambda>(user_base_account, accts).
     and_then (next_account_info accts) (\<lambda>(user_quote_account, accts).
     and_then (next_account_info accts) (\<lambda>(user_owner, accts).
     let (discount, accts) =
           (if has_discount_token_account then next_optional accts else (None, accts));
         (referral, accts) = next_optional accts
     in Inr \<lparr>swa_spl_token_program = spl_token_program, swa_system_program = system_program,
          swa_market = market, swa_orderbook = orderbook, swa_event_queue = event_queue,
          swa_bids = bids, swa_asks = asks, swa_base_vault = base_vault,
          swa_quote_vault = quote_vault, swa_market_signer = market_signer,
          swa_user_base_account = user_base_account, swa_user_quote_account = user_quote_account,
          swa_user_owner = user_owner, swa_discount_token_account = discount,
          swa_fee_referral_account = referral\<rparr>)))))))))))))"

definition swap_parse ::
    "externals \<Rightarrow> pubkey \<Rightarrow> ledger \<Rightarrow> account_info list \<Rightarrow> bool \<Rightarrow> swap_accounts program_result" where
  "swap_parse env program_id L accts has_discount_token_account =
     and_then (swap_read_accounts accts has_discount_token_account) (\<lambda>a.
     and_then (check_signer (swa_user_owner a)) (\<lambda>_.
     and_then (question_mark (check_account_key (swa_spl_token_program a) (spl_token_id env)
       InvalidSplTokenProgram)) (\<lambda>_.
     and_then (question_mark (check_account_key (swa_system_program a) (system_program_id env)
       InvalidSystemProgramAccount)) (\<lambda>_.
     and_then (case swa_discount_token_account a of
         Some discount_account \<Rightarrow> question_mark (check_account_owner L discount_account
           (spl_token_id env) InvalidSplTokenProgram)
       | None \<Rightarrow> Inr ()) (\<lambda>_.
     and_then (question_mark (check_account_owner L (swa_market a) program_id
       InvalidStateAccountOwner)) (\<lambda>_.
     Inr a))))))"

definition swap_check_accounts ::
    "externals \<Rightarrow> pubkey \<Rightarrow> dex_state \<Rightarrow> swap_accounts \<Rightarrow> unit program_result" where
  "swap_check_accounts env program_id s a =
     and_then (create_program_address env (market_signer_seeds (swa_market a) s) program_id)
       (\<lambda>market_signer.
     and_then (question_mark (check_account_key (swa_market_signer a) market_signer
       InvalidMarketSignerAccount)) (\<lambda>_.
     and_then (question_mark (check_account_key (swa_orderbook a) (ds_orderbook s)
       InvalidOrderbookAccount)) (\<lambda>_.
     and_then (question_mark (check_account_key (swa_base_vault a) (ds_base_vault s)
       InvalidBaseVaultAccount)) (\<lambda>_.
     and_then (question_mark (check_account_key (swa_quote_vault a) (ds_quote_vault s)
       InvalidQuoteVaultAccount)) (\<lambda>_.
     Inr ())))))"

section \<open>The handler\<close>

definition swap_fee_tier ::
    "externals \<Rightarrow> ledger \<Rightarrow> dex_state \<Rightarrow> swap_accounts \<Rightarrow> fee_tier program_result" where
  "swap_fee_tier env L s a =
     (case swa_discount_token_account a of
        Some d \<Rightarrow> fee_tier_get env [key (swa_market a)] L s d (key (swa_user_owner a))
      | None \<Rightarrow> Inr Base)"

text \<open>The order goes to the book under the default key, so it is nobody's own trade.\<close>

definition swap_callback_info :: "swap_accounts \<Rightarrow> fee_tier \<Rightarrow> callback_info" where
  "swap_callback_info a tier =
     \<lparr>cb_user_account = 0, cb_fee_tier = pack_fee_tier tier (swa_fee_referral_account a \<noteq> None)\<rparr>"

definition swap_budget :: "swap_params \<Rightarrow> fee_tier \<Rightarrow> u64 program_result" where
  "swap_budget p tier =
     (if swp_side p = side_code Bid then remove_taker_fee tier (swp_quote_qty p)
      else Inr (swp_quote_qty p))"

text \<open>The largest multiple of the tick size; the remainder by zero panics.\<close>

definition highest_price :: "u64 \<Rightarrow> u64 program_result" where
  "highest_price tick_size =
     (if tick_size = 0 then Inl Panic else Inr (- 1 - (- 1) mod tick_size))"

definition swap_limits ::
    "dex_state \<Rightarrow> swap_params \<Rightarrow> u64 \<Rightarrow> u64 \<Rightarrow> side \<Rightarrow> (u64 \<times> u64 \<times> u64) program_result" where
  "swap_limits s p quote_qty tick_size sd =
     (case sd of
        Bid \<Rightarrow>
          and_then (scale_quote_amount s quote_qty) (\<lambda>max_quote.
          and_then (highest_price tick_size) (\<lambda>limit_price.
          Inr (- 1, max_quote, limit_price)))
      | Ask \<Rightarrow>
          and_then (scale_base_amount s (swp_base_qty p)) (\<lambda>max_base. Inr (max_base, - 1, 0)))"

definition swap_invoke_params ::
    "swap_params \<Rightarrow> side \<Rightarrow> callback_info \<Rightarrow> u64 \<times> u64 \<times> u64 \<Rightarrow> aob_new_order_params" where
  "swap_invoke_params p sd cb limits =
     (case limits of (max_base_qty, max_quote_qty, limit_price) \<Rightarrow>
      \<lparr>aob_max_base_qty = max_base_qty, aob_max_quote_qty = max_quote_qty,
       aob_limit_price = limit_price, aob_side = sd, aob_match_limit = swp_match_limit p,
       aob_callback_info = cb, aob_post_only = False, aob_post_allowed = False,
       aob_self_trade_behavior = DecrementTake\<rparr>)"

definition swap_aob_accounts :: "swap_accounts \<Rightarrow> aob_accounts" where
  "swap_aob_accounts a =
     \<lparr>aob_market = swa_orderbook a, aob_event_queue = swa_event_queue a, aob_bids = swa_bids a,
      aob_asks = swa_asks a\<rparr>"

text \<open>
  Whether the swap meets its minimum, the base and quote amounts to transfer, and the referral
  fee.
\<close>

definition swap_amounts ::
    "dex_state \<Rightarrow> fee_tier \<Rightarrow> side \<Rightarrow> u64 \<Rightarrow> u64 \<Rightarrow> order_summary \<Rightarrow>
     (bool \<times> u64 \<times> u64 \<times> u64) program_result" where
  "swap_amounts s tier sd base_qty quote_qty summary =
     and_then (referral_fee tier (total_quote_qty summary)) (\<lambda>referral.
     and_then (unwrap (checked_mul (total_quote_qty summary) (ds_royalties_bps s))) (\<lambda>bps_qty.
     let royalties_fees = bps_qty div 10000 in
     and_then (taker_fee tier (total_quote_qty summary)) (\<lambda>fee.
     case sd of
       Bid \<Rightarrow>
         let total_quote = total_quote_qty summary + (fee + royalties_fees) in
         Inr (total_base_qty summary \<ge> base_qty, total_base_qty summary, total_quote, referral)
     | Ask \<Rightarrow>
         let is_valid = total_quote_qty summary \<ge> quote_qty in
         and_then (unwrap (checked_sub (total_quote_qty summary) (fee + royalties_fees))) (\<lambda>received.
         Inr (is_valid, total_base_qty summary, received, referral)))))"

definition swap_in_cpi :: "swap_accounts \<Rightarrow> account_info \<Rightarrow> account_info \<Rightarrow> u64 \<Rightarrow> cpi" where
  "swap_in_cpi a from_account to_account qty =
     \<lparr>cpi_program = key (swa_spl_token_program a),
      cpi_instruction = Transfer (key from_account) (key to_account) (key (swa_user_owner a)) qty,
      cpi_accounts = [swa_spl_token_program a, from_account, to_account, swa_user_owner a],
      cpi_signers_seeds = []\<rparr>"

definition swap_out_cpi ::
    "swap_accounts \<Rightarrow> dex_state \<Rightarrow> account_info \<Rightarrow> account_info \<Rightarrow> u64 \<Rightarrow> cpi" where
  "swap_out_cpi a s from_account to_account qty =
     \<lparr>cpi_program = key (swa_spl_token_program a),
      cpi_instruction = Transfer (key from_account) (key to_account) (key (swa_market_signer a)) qty,
      cpi_accounts = [swa_spl_token_program a, from_account, to_account, swa_market_signer a],
      cpi_signers_seeds = [market_signer_seeds (swa_market a) s]\<rparr>"

definition swap_referral_cpi :: "swap_accounts \<Rightarrow> dex_state \<Rightarrow> account_info \<Rightarrow> u64 \<Rightarrow> cpi" where
  "swap_referral_cpi a s fee_token_account fee =
     \<lparr>cpi_program = key (swa_spl_token_program a),
      cpi_instruction = Transfer (key (swa_quote_vault a)) (key fee_token_account)
        (key (swa_user_owner a)) fee,
      cpi_accounts = [swa_spl_token_program a, swa_quote_vault a, fee_token_account,
        swa_user_owner a],
      cpi_signers_seeds = [market_signer_seeds (swa_market a) s]\<rparr>"

text \<open>The two legs of the swap, in the order in which they are paid.\<close>

definition swap_legs :: "swap_accounts \<Rightarrow> dex_state \<Rightarrow> side \<Rightarrow> u64 \<Rightarrow> u64 \<Rightarrow> cpi \<times> cpi" where
  "swap_legs a s sd base_qty quote_qty =
     (case sd of
        Bid \<Rightarrow> (swap_in_cpi a (swa_user_quote_account a) (swa_quote_vault a) quote_qty,
                swap_out_cpi a s (swa_base_vault a) (swa_user_base_account a) base_qty)
      | Ask \<Rightarrow> (swap_in_cpi a (swa_user_base_account a) (swa_base_vault a) base_qty,
                swap_out_cpi a s (swa_quote_vault a) (swa_user_quote_account a) quote_qty))"

definition swap_process ::
    "externals \<Rightarrow> pubkey \<Rightarrow> account_info list \<Rightarrow> u8 list \<Rightarrow> ledger \<Rightarrow> ledger program_result" where
  "swap_process env program_id accts instruction_data L =
     and_then (ok_or (try_from_bytes SWAP_PARAMS_LEN swap_params_of_bytes instruction_data)
       InvalidInstructionData) (\<lambda>p.
     and_then (swap_parse env program_id L accts (swp_has_discount_token_account p \<noteq> 0)) (\<lambda>a.
     and_then (dex_state_get L (key (swa_market a))) (\<lambda>s.
     if swp_base_qty p < ds_min_base_order_size s then prog_fail InvalidArgument
     else
     and_then (unwrap_result (swap_check_accounts env program_id s a)) (\<lambda>_.
     and_then (swap_fee_tier env L s a) (\<lambda>tier.
     and_then (swap_budget p tier) (\<lambda>quote_qty.
     and_then (borrow [key (swa_market a)] (swa_orderbook a)) (\<lambda>_.
     and_then (market_state_from_buffer env (data (L (key (swa_orderbook a))))) (\<lambda>orderbook.
     and_then (unwrap (side_from_u8 (swp_side p))) (\<lambda>sd.
     and_then (swap_limits s p quote_qty (aobm_tick_size orderbook) sd) (\<lambda>limits.
     and_then (or_aob_error (aob_new_order env program_id (swap_aob_accounts a)
       (swap_invoke_params p sd (swap_callback_info a tier) limits) L)) (\<lambda>(summary, L).
     and_then (unwrap (unscale_order_summary s summary)) (\<lambda>summary.
     and_then (swap_amounts s tier sd (swp_base_qty p) quote_qty summary)
       (\<lambda>(is_valid, base_transfer_qty, quote_transfer_qty, referral).
     if \<not> is_valid then dex_fail TransactionAborted
     else
     and_then (token_invoke env program_id
       (fst (swap_legs a s sd base_transfer_qty quote_transfer_qty)) L) (\<lambda>L.
     and_then (token_invoke env program_id
       (snd (swap_legs a s sd base_transfer_qty quote_transfer_qty)) L) (\<lambda>L.
     case swa_fee_referral_account a of
       Some fee_token_account \<Rightarrow>
         token_invoke env program_id (swap_referral_cpi a s fee_token_account referral) L
     | None \<Rightarrow> Inr L)))))))))))))))"

section \<open>Reading the instruction\<close>

interpretation swap_params_codec: codec swap_params_bytes swap_params_of_bytes SWAP_PARAMS_LEN
proof
  fix x :: swap_params and bs :: "u8 list"
  show "length (swap_params_bytes x) = SWAP_PARAMS_LEN"
    by (simp add: swap_params_bytes_def SWAP_PARAMS_LEN_def swap_params_layout_def struct_simps)
  show "swap_params_of_bytes (swap_params_bytes x) = x"
    unfolding swap_params_bytes_def swap_params_of_bytes_def
    by (subst split_fields_concat) (simp_all add: Let_def swap_params_layout_def struct_simps)
  assume "length bs = SWAP_PARAMS_LEN"
  then obtain xss where "map length xss = swap_params_layout" and bs: "bs = concat xss"
    by (auto simp: SWAP_PARAMS_LEN_def elim: bytes_split)
  then show "swap_params_bytes (swap_params_of_bytes bs) = bs"
    by (simp add: swap_params_of_bytes_def split_fields_concat)
      (auto simp: swap_params_bytes_def Let_def swap_params_layout_def map_eq_Cons_conv
        struct_inverse)
qed

section \<open>The amounts of a swap\<close>

text \<open>
  What the order book reported for a swap, in token units: the taker's tier, the quote budget,
  the summary and the accounts as the order book left them.
\<close>

definition swap_book_result ::
    "externals \<Rightarrow> pubkey \<Rightarrow> swap_params \<Rightarrow> swap_accounts \<Rightarrow> dex_state \<Rightarrow> ledger \<Rightarrow>
     (fee_tier \<times> u64 \<times> order_summary \<times> ledger) program_result" where
  "swap_book_result env program_id p a s L =
     and_then (swap_fee_tier env L s a) (\<lambda>tier.
     and_then (swap_budget p tier) (\<lambda>quote_qty.
     and_then (market_state_from_buffer env (data (L (key (swa_orderbook a))))) (\<lambda>orderbook.
     and_then (unwrap (side_from_u8 (swp_side p))) (\<lambda>sd.
     and_then (swap_limits s p quote_qty (aobm_tick_size orderbook) sd) (\<lambda>limits.
     and_then (or_aob_error (aob_new_order env program_id (swap_aob_accounts a)
       (swap_invoke_params p sd (swap_callback_info a tier) limits) L)) (\<lambda>(summary, L).
     and_then (unwrap (unscale_order_summary s summary)) (\<lambda>summary.
     Inr (tier, quote_qty, summary, L))))))))"

lemma swap_amounts_bid:
  assumes "swap_amounts s tier Bid base_qty quote_qty m = Inr (valid, b, q, r)"
  shows "valid \<longleftrightarrow> base_qty \<le> total_base_qty m" and "b = total_base_qty m"
    and "unat q = (unat (total_quote_qty m) + order_fees s tier (unat (total_quote_qty m))) mod 2 ^ 64"
proof -
  from assms obtain fee bps where fee: "taker_fee tier (total_quote_qty m) = (Inr fee :: u64 program_result)"
    and bps: "checked_mul (total_quote_qty m) (ds_royalties_bps s) = Some bps"
    and eqs: "valid \<longleftrightarrow> base_qty \<le> total_base_qty m" "b = total_base_qty m"
      "q = total_quote_qty m + (fee + bps div 10000)"
    by (auto simp: swap_amounts_def Let_def res_simps)
  then show "valid \<longleftrightarrow> base_qty \<le> total_base_qty m" and "b = total_base_qty m"
    by blast+
  show "unat q = (unat (total_quote_qty m) + order_fees s tier (unat (total_quote_qty m))) mod 2 ^ 64"
    unfolding eqs(3) by (subst unat_add_wrap) (simp only: unat_order_fees [OF fee bps])
qed

lemma swap_amounts_ask:
  assumes "swap_amounts s tier Ask base_qty quote_qty m = Inr (valid, b, q, r)"
  shows "valid \<longleftrightarrow> quote_qty \<le> total_quote_qty m" and "b = total_base_qty m"
    and "unat q + order_fees s tier (unat (total_quote_qty m)) = unat (total_quote_qty m)"
proof -
  from assms obtain fee bps where fee: "taker_fee tier (total_quote_qty m) = (Inr fee :: u64 program_result)"
    and bps: "checked_mul (total_quote_qty m) (ds_royalties_bps s) = Some bps"
    and eqs: "valid \<longleftrightarrow> quote_qty \<le> total_quote_qty m" "b = total_base_qty m"
      "checked_sub (total_quote_qty m) (fee + bps div 10000) = Some q"
    by (auto simp: swap_amounts_def Let_def res_simps)
  then show "valid \<longleftrightarrow> quote_qty \<le> total_quote_qty m" and "b = total_base_qty m"
    by blast+
  show "unat q + order_fees s tier (unat (total_quote_qty m)) = unat (total_quote_qty m)"
    using eqs(3) by (simp add: checked_simps unat_order_fees [OF fee bps])
qed

lemma swap_processE:
  assumes "swap_process env program_id accts (swap_params_bytes p) L = Inr L'"
    and "swap_parse env program_id L accts (swp_has_discount_token_account p \<noteq> 0) = Inr a"
    and "dex_state_get L (key (swa_market a)) = Inr s"
    and "swap_book_result env program_id p a s L = Inr (tier, mq, m, L1)"
  obtains sd b q r L2 L3 where "swp_side p = side_code sd"
    and "ds_min_base_order_size s \<le> swp_base_qty p"
    and "swap_check_accounts env program_id s a = Inr ()"
    and "swap_amounts s tier sd (swp_base_qty p) mq m = Inr (True, b, q, r)"
    and "token_invoke env program_id (fst (swap_legs a s sd b q)) L1 = Inr L2"
    and "token_invoke env program_id (snd (swap_legs a s sd b q)) L2 = Inr L3"
    and "(case swa_fee_referral_account a of
            Some x \<Rightarrow> token_invoke env program_id (swap_referral_cpi a s x r) L3
          | None \<Rightarrow> Inr L3) = Inr L'"
  using assms
  by (auto simp: swap_process_def swap_book_result_def swap_params_codec.try_from_bytes_enc
      side_from_u8_iff not_less res_simps split: prod.splits)

section \<open>A concrete swap\<close>

definition ex_swap_params :: "side \<Rightarrow> swap_params" where
  "ex_swap_params sd =
     \<lparr>swp_base_qty = 2500, swp_quote_qty = (case sd of Bid \<Rightarrow> 6000 | Ask \<Rightarrow> 5000), swp_match_limit = 10, swp_side = side_code sd,
      swp_has_discount_token_account = 0, swp_padding = 0\<rparr>"

definition ex_swap_summary :: order_summary where
  "ex_swap_summary =
     \<lparr>posted_order_id = None, total_base_qty = 2500, total_quote_qty = 5000,
      total_base_qty_posted = 0\<rparr>"

definition ex_swap_infos :: "account_info list" where
  "ex_swap_infos = [ex_info 1 False, ex_info 2 False, ex_info 3 False, ex_info 4 False,
     ex_info 5 False, ex_info 6 False, ex_info 7 False, ex_info 8 False, ex_info 9 False,
     ex_info 13 False, ex_info 50 False, ex_info 51 False, ex_info 12 True]"

definition ex_swap_accounts :: swap_accounts where
  "ex_swap_accounts =
     \<lparr>swa_spl_token_program = ex_info 1 False, swa_system_program = ex_info 2 False,
      swa_market = ex_info 3 False, swa_orderbook = ex_info 4 False,
      swa_event_queue = ex_info 5 False, swa_bids = ex_info 6 False, swa_asks = ex_info 7 False,
      swa_base_vault = ex_info 8 False, swa_quote_vault = ex_info 9 False,
      swa_market_signer = ex_info 13 False, swa_user_base_account = ex_info 50 False,
      swa_user_quote_account = ex_info 51 False, swa_user_owner = ex_info 12 True,
      swa_discount_token_account = None, swa_fee_referral_account = None\<rparr>"

lemma ex_swap_parse:
  "swap_parse (ex_env m es) 100 ex_ledger ex_swap_infos (swp_has_discount_token_account (ex_swap_params sd) \<noteq> 0)
     = Inr ex_swap_accounts"
  by (simp add: swap_parse_def swap_read_accounts_def ex_swap_infos_def ex_env_def ex_swap_params_def
      next_optional_def ex_swap_accounts_def eval_defs)

lemma ex_swap_load: "dex_state_get ex_ledger (key (swa_market ex_swap_accounts)) = Inr ex_market"
  by (simp add: ex_swap_accounts_def)

lemmas swap_eval = swap_check_accounts_def swap_fee_tier_def swap_budget_def highest_price_def
  swap_limits_def swap_invoke_params_def swap_amounts_def eval_defs

lemma ex_swap_book:
  "swap_book_result (ex_env ex_swap_summary []) 100 (ex_swap_params Bid) ex_swap_accounts ex_market
     ex_ledger = Inr (Base, 5997, ex_swap_summary, ex_ledger)"
  "swap_book_result (ex_env ex_swap_summary []) 100 (ex_swap_params Ask) ex_swap_accounts ex_market
     ex_ledger = Inr (Base, 5000, ex_swap_summary, ex_ledger)"
  by (simp_all add: swap_book_result_def ex_swap_params_def ex_swap_accounts_def ex_swap_summary_def
      ex_defs swap_eval)

lemma ex_swap_runs:
  "swap_process (ex_env ex_swap_summary []) 100 ex_swap_infos (swap_params_bytes (ex_swap_params sd))
     ex_ledger = Inr ex_ledger"
  using ex_swap_parse [of ex_swap_summary "[]" sd]
  by (cases sd)
    (simp_all add: swap_process_def swap_params_codec.try_from_bytes_enc,
      simp_all add: ex_swap_params_def ex_swap_accounts_def ex_swap_summary_def
      ex_defs swap_eval)

section \<open>Properties\<close>

text \<open>
  C20: A swap that buys pays into the quote vault exactly what the order book reports plus the
  taker fee and the royalties, in 64-bit arithmetic that is not checked, and receives from the
  base vault exactly the base tokens the book reports, which are at least the stated minimum. The
  quote quantity stated in the instruction limits the order, it is not the amount that is paid.
\<close>

theorem swap_bid_exact:
  assumes "swap_process env program_id accts (swap_params_bytes p) L = Inr L'"
    and "swap_parse env program_id L accts (swp_has_discount_token_account p \<noteq> 0) = Inr a"
    and "dex_state_get L (key (swa_market a)) = Inr s"
    and "swap_book_result env program_id p a s L = Inr (tier, mq, m, L1)"
    and "swp_side p = side_code Bid"
  shows "\<exists>q L2 L3.
    unat q = (unat (total_quote_qty m) + order_fees s tier (unat (total_quote_qty m))) mod 2 ^ 64 \<and>
    swp_base_qty p \<le> total_base_qty m \<and>
    token_invoke env program_id
      (swap_in_cpi a (swa_user_quote_account a) (swa_quote_vault a) q) L1 = Inr L2 \<and>
    token_invoke env program_id
      (swap_out_cpi a s (swa_base_vault a) (swa_user_base_account a) (total_base_qty m)) L2 = Inr L3 \<and>
    (swa_fee_referral_account a = None \<longrightarrow> L' = L3)"
proof (rule swap_processE [OF assms(1-4)], goal_cases)
  case (1 sd b q r L2 L3)
  with assms(5) have "sd = Bid" by (cases sd) auto
  with 1 swap_amounts_bid [OF 1(4) [unfolded \<open>sd = Bid\<close>]] show ?thesis
    by (intro exI [of _ q] exI [of _ L2] exI [of _ L3]) (auto simp: swap_legs_def)
qed

theorem swap_bid_exact_witness:
  "\<exists>q. unat (q :: u64) = 5001 \<and>
    token_invoke (ex_env ex_swap_summary []) 100
      (swap_in_cpi ex_swap_accounts (ex_info 51 False) (ex_info 9 False) q) ex_ledger = Inr ex_ledger"
proof -
  from swap_bid_exact [OF ex_swap_runs ex_swap_parse ex_swap_load ex_swap_book(1)]
  show ?thesis
    by (simp add: ex_swap_params_def)
      (auto simp: ex_swap_summary_def ex_swap_accounts_def order_fees_def ex_market_def ex_env_def)
qed



text \<open>
  The minimum output of a swap that sells is compared with the amount before fees: a swap can
  succeed and transfer out less than the stated minimum.
\<close>

theorem swap_ask_below_minimum:
  "\<exists>q. swap_process (ex_env ex_swap_summary []) 100 ex_swap_infos
      (swap_params_bytes (ex_swap_params Ask)) ex_ledger = Inr ex_ledger \<and>
    swap_amounts ex_market Base Ask 2500 (swp_quote_qty (ex_swap_params Ask)) ex_swap_summary
      = Inr (True, 2500, q, 0) \<and>
    q < swp_quote_qty (ex_swap_params Ask)"
proof -
  have "swap_amounts ex_market Base Ask 2500 (swp_quote_qty (ex_swap_params Ask)) ex_swap_summary
      = Inr (True, 2500, 4999, 0)"
    by (simp add: ex_swap_params_def ex_swap_summary_def ex_defs swap_eval)
  then show ?thesis
    using ex_swap_runs [of Ask] by (auto simp: ex_swap_params_def)
qed

text \<open>
  C30: A swap is paid by a wallet that signed the transaction, and its other side comes from the
  vaults of the market under the address derived for that market.
\<close>

theorem swap_authorised:
  assumes "swap_process env program_id accts (swap_params_bytes p) L = Inr L'"
  shows "\<exists>a s. swap_parse env program_id L accts (swp_has_discount_token_account p \<noteq> 0) = Inr a \<and>
    dex_state_get L (key (swa_market a)) = Inr s \<and> is_signer (swa_user_owner a) \<and>
    owner (L (key (swa_market a))) = program_id \<and>
    create_program_address env (market_signer_seeds (swa_market a) s) program_id
      = Inr (key (swa_market_signer a)) \<and>
    key (swa_orderbook a) = ds_orderbook s \<and> key (swa_base_vault a) = ds_base_vault s \<and>
    key (swa_quote_vault a) = ds_quote_vault s \<and> ds_min_base_order_size s \<le> swp_base_qty p"
proof -
  from assms obtain a s where
    a: "swap_parse env program_id L accts (swp_has_discount_token_account p \<noteq> 0) = Inr a"
    and s: "dex_state_get L (key (swa_market a)) = Inr s" "ds_min_base_order_size s \<le> swp_base_qty p"
      "swap_check_accounts env program_id s a = Inr ()"
    by (auto simp: swap_process_def swap_params_codec.try_from_bytes_enc not_less res_simps)
  from a have "is_signer (swa_user_owner a)" "owner (L (key (swa_market a))) = program_id"
    by (auto simp: swap_parse_def res_simps)
  with a s show ?thesis
    by (intro exI [of _ a] exI [of _ s]) (auto simp: swap_check_accounts_def res_simps)
qed

theorem swap_authorised_witness:
  "\<exists>a. swap_parse (ex_env ex_swap_summary []) 100 ex_ledger ex_swap_infos
      (swp_has_discount_token_account (ex_swap_params Bid) \<noteq> 0) = Inr a \<and> is_signer (swa_user_owner a)"
  using swap_authorised [OF ex_swap_runs] by blast

end
