(* ===== verification/Cancel_Order.thy ===== *)
theory Cancel_Order
  imports Example_World
begin

text \<open>
  The instruction \<open>cancel_order\<close> (\<^verbatim>\<open>src/program/src/processor/cancel_order.rs\<close>): the owner of an
  open order, named by its slot and identifier or by the identifier the client gave it, takes it
  out of the order book, gets back what it had locked, and frees its slot.
\<close>

section \<open>Parameters and accounts\<close>

record cancel_order_params =
  cop_order_id :: u128
  cop_order_index :: u64
  cop_is_client_id :: bool
  cop_padding :: "56 word"

definition CANCEL_ORDER_PARAMS_LEN :: nat where
  "CANCEL_ORDER_PARAMS_LEN = 32"

definition cancel_order_params_bytes :: "cancel_order_params \<Rightarrow> u8 list" where
  "cancel_order_params_bytes p = concat
     [to_le_bytes (cop_order_id p), to_le_bytes (cop_order_index p),
      to_le_bytes (of_bool (cop_is_client_id p) :: u8), to_le_bytes (cop_padding p)]"

text \<open>
  \<open>bytemuck::checked::try_from_bytes\<close>: besides the length, the byte of the boolean must be a
  valid bit pattern.
\<close>

definition cancel_order_params_checked :: "u8 list \<Rightarrow> cancel_order_params option" where
  "cancel_order_params_checked bs =
     (if length bs = CANCEL_ORDER_PARAMS_LEN then
        let f = (!) (split_fields [16, 8, 1, 7] bs); flag = (from_le_bytes (f 2) :: u8) in
        if flag = 0 \<or> flag = 1 then
          Some \<lparr>cop_order_id = from_le_bytes (f 0), cop_order_index = from_le_bytes (f 1),
                cop_is_client_id = (flag = 1), cop_padding = from_le_bytes (f 3)\<rparr>
        else None
      else None)"

record cancel_order_accounts =
  coa_market :: account_info
  coa_orderbook :: account_info
  coa_event_queue :: account_info
  coa_bids :: account_info
  coa_asks :: account_info
  coa_user :: account_info
  coa_user_owner :: account_info

definition cancel_order_parse ::
    "pubkey \<Rightarrow> ledger \<Rightarrow> account_info list \<Rightarrow> cancel_order_accounts program_result" where
  "cancel_order_parse program_id L accts =
     and_then (next_account_info accts) (\<lambda>(market, accts).
     and_then (next_account_info accts) (\<lambda>(orderbook, accts).
     and_then (next_account_info accts) (\<lambda>(event_queue, accts).
     and_then (next_account_info accts) (\<lambda>(bids, accts).
     and_then (next_account_info accts) (\<lambda>(asks, accts).
     and_then (next_account_info accts) (\<lambda>(user, accts).
     and_then (next_account_info accts) (\<lambda>(user_owner, accts).
     and_then (check_signer user_owner) (\<lambda>_.
     and_then (question_mark (check_account_owner L market program_id InvalidStateAccountOwner)) (\<lambda>_.
     and_then (question_mark (check_account_owner L user program_id InvalidStateAccountOwner)) (\<lambda>_.
     Inr \<lparr>coa_market = market, coa_orderbook = orderbook, coa_event_queue = event_queue,
          coa_bids = bids, coa_asks = asks, coa_user = user, coa_user_owner = user_owner\<rparr>))))))))))"

definition cancel_order_load_user_account ::
    "cancel_order_accounts \<Rightarrow> u8 list \<Rightarrow> user_account program_result" where
  "cancel_order_load_user_account a user_account_data =
     and_then (from_buffer user_account_data) (\<lambda>u.
     if uh_owner (ua_header u) \<noteq> key (coa_user_owner a) then prog_fail InvalidArgument
     else if uh_market (ua_header u) \<noteq> key (coa_market a) then prog_fail InvalidArgument
     else Inr u)"

definition cancel_order_check_accounts ::
    "dex_state \<Rightarrow> cancel_order_accounts \<Rightarrow> unit program_result" where
  "cancel_order_check_accounts s a =
     question_mark (check_account_key (coa_orderbook a) (ds_orderbook s) InvalidOrderbookAccount)"

section \<open>The handler\<close>

text \<open>The slot and the identifier of the order to cancel.\<close>

definition cancel_order_target ::
    "cancel_order_params \<Rightarrow> user_account \<Rightarrow> (u64 \<times> u128) program_result" where
  "cancel_order_target p u =
     (if cop_is_client_id p
      then unwrap_result (find_order_id_and_index_by_client_id u (cop_order_id p))
      else and_then (question_mark (read_order u (unat (cop_order_index p)))) (\<lambda>ord.
        if cop_order_id p \<noteq> o_id ord then prog_fail InvalidArgument
        else Inr (cop_order_index p, cop_order_id p)))"

definition cancel_order_release ::
    "side \<Rightarrow> order_summary \<Rightarrow> user_account_header \<Rightarrow> user_account_header program_result" where
  "cancel_order_release sd summary h =
     (case sd of
        Bid \<Rightarrow>
          and_then (unwrap (checked_add (uh_quote_token_free h) (total_quote_qty summary))) (\<lambda>free.
          and_then (unwrap (checked_sub (uh_quote_token_locked h) (total_quote_qty summary))) (\<lambda>locked.
          Inr (h\<lparr>uh_quote_token_free := free, uh_quote_token_locked := locked\<rparr>)))
      | Ask \<Rightarrow>
          and_then (unwrap (checked_add (uh_base_token_free h) (total_base_qty summary))) (\<lambda>free.
          and_then (unwrap (checked_sub (uh_base_token_locked h) (total_base_qty summary))) (\<lambda>locked.
          Inr (h\<lparr>uh_base_token_free := free, uh_base_token_locked := locked\<rparr>))))"

definition cancel_order_aob_accounts :: "cancel_order_accounts \<Rightarrow> aob_accounts" where
  "cancel_order_aob_accounts a =
     \<lparr>aob_market = coa_orderbook a, aob_event_queue = coa_event_queue a, aob_bids = coa_bids a,
      aob_asks = coa_asks a\<rparr>"

definition cancel_order_process ::
    "externals \<Rightarrow> pubkey \<Rightarrow> account_info list \<Rightarrow> u8 list \<Rightarrow> ledger \<Rightarrow> ledger program_result" where
  "cancel_order_process env program_id accts instruction_data L =
     and_then (ok_or (cancel_order_params_checked instruction_data) InvalidInstructionData) (\<lambda>p.
     and_then (cancel_order_parse program_id L accts) (\<lambda>a.
     and_then (dex_state_get L (key (coa_market a))) (\<lambda>s.
     and_then (borrow [key (coa_market a)] (coa_user a)) (\<lambda>_.
     and_then (cancel_order_load_user_account a (data (L (key (coa_user a))))) (\<lambda>u.
     and_then (unwrap_result (cancel_order_check_accounts s a)) (\<lambda>_.
     and_then (cancel_order_target p u) (\<lambda>(order_index, order_id).
     and_then (or_aob_error
       (aob_cancel_order env program_id (cancel_order_aob_accounts a) order_id L)) (\<lambda>(summary, L).
     let sd = get_side_from_order_id env order_id in
     and_then (unwrap (unscale_order_summary s summary)) (\<lambda>summary.
     and_then (cancel_order_release sd summary (ua_header u)) (\<lambda>h.
     and_then (question_mark (remove_order (u\<lparr>ua_header := h\<rparr>) (unat order_index))) (\<lambda>u.
     Inr (user_account_put (key (coa_user a)) u L))))))))))))"

section \<open>Reading the instruction\<close>

lemma cancel_order_params_checked_bytes: "cancel_order_params_checked (cancel_order_params_bytes p) = Some p"
proof -
  have "split_fields [16, 8, 1, 7] (cancel_order_params_bytes p) =
      [to_le_bytes (cop_order_id p), to_le_bytes (cop_order_index p),
       to_le_bytes (of_bool (cop_is_client_id p) :: u8), to_le_bytes (cop_padding p)]"
    unfolding cancel_order_params_bytes_def
    by (rule split_fields_concat) (simp add: struct_simps)
  moreover have "length (cancel_order_params_bytes p) = CANCEL_ORDER_PARAMS_LEN"
    by (simp add: cancel_order_params_bytes_def CANCEL_ORDER_PARAMS_LEN_def struct_simps)
  ultimately show ?thesis
    by (simp add: cancel_order_params_checked_def Let_def struct_simps)
qed

lemma cancel_order_params_bytes_inject:
  "cancel_order_params_bytes p = cancel_order_params_bytes q \<longleftrightarrow> p = q"
  by (metis cancel_order_params_checked_bytes option.inject)

lemma byte_eq_to_le_bytes: "length bs = Suc 0 \<Longrightarrow> from_le_bytes bs = (w :: u8) \<Longrightarrow> bs = to_le_bytes w"
  using u8_codec.enc_dec by auto

lemma cancel_order_params_checked_eq_Some:
  "cancel_order_params_checked bs = Some p \<longleftrightarrow> bs = cancel_order_params_bytes p"
proof
  assume some: "cancel_order_params_checked bs = Some p"
  then have "length bs = sum_list [16, 8, 1, 7]"
    by (simp add: cancel_order_params_checked_def CANCEL_ORDER_PARAMS_LEN_def split: if_splits)
  then obtain xss where xss: "map length xss = [16, 8, 1, 7]" and bs: "bs = concat xss"
    by (rule bytes_split)
  with some show "bs = cancel_order_params_bytes p"
    by (simp add: cancel_order_params_checked_def split_fields_concat [OF xss] split: if_splits)
      (auto simp: cancel_order_params_bytes_def Let_def map_eq_Cons_conv struct_inverse
        split: if_splits intro: byte_eq_to_le_bytes)
qed (simp add: cancel_order_params_checked_bytes)

section \<open>The effect of a cancellation\<close>

lemma cancel_order_load_user_account_eq_Inr [res_simps]:
  "cancel_order_load_user_account a bs = Inr u \<longleftrightarrow>
     from_buffer bs = Inr u \<and> uh_owner (ua_header u) = key (coa_user_owner a) \<and>
     uh_market (ua_header u) = key (coa_market a)"
  by (auto simp: cancel_order_load_user_account_def res_simps)

lemma cancel_order_parse_checks:
  assumes "cancel_order_parse program_id L accts = Inr a"
  shows "is_signer (coa_user_owner a)" and "owner (L (key (coa_market a))) = program_id"
    and "owner (L (key (coa_user a))) = program_id"
  using assms by (auto simp: cancel_order_parse_def res_simps)

lemma cancel_order_processE:
  assumes "cancel_order_process env program_id accts idata L = Inr L'"
  obtains p a s u i oid m0 m L1 h u' where "idata = cancel_order_params_bytes p"
    and "cancel_order_parse program_id L accts = Inr a"
    and "dex_state_get L (key (coa_market a)) = Inr s"
    and "key (coa_user a) \<noteq> key (coa_market a)"
    and "user_account_get L (key (coa_user a)) = Inr u"
    and "uh_owner (ua_header u) = key (coa_user_owner a)"
    and "uh_market (ua_header u) = key (coa_market a)"
    and "key (coa_orderbook a) = ds_orderbook s"
    and "cancel_order_target p u = Inr (i, oid)"
    and "aob_cancel_order env program_id (cancel_order_aob_accounts a) oid L = Inr (m0, L1)"
    and "unscale_order_summary s m0 = Some m"
    and "cancel_order_release (get_side_from_order_id env oid) m (ua_header u) = Inr h"
    and "remove_order (u\<lparr>ua_header := h\<rparr>) (unat i) = Inr u'"
    and "L' = user_account_put (key (coa_user a)) u' L1"
  using assms
  by (auto simp: cancel_order_process_def cancel_order_params_checked_eq_Some user_account_get_def
      cancel_order_check_accounts_def Let_def res_simps)

lemma cancel_order_release_eq_Inr:
  assumes "cancel_order_release sd m (ua_header u) = Inr h"
  shows "position_of (u\<lparr>ua_header := h\<rparr>)
      = release_movement sd (unat (total_base_qty m)) (unat (total_quote_qty m)) (position_of u)"
    and "release_covers sd (unat (total_base_qty m)) (unat (total_quote_qty m)) (position_of u)"
    and "uh_tag h = uh_tag (ua_header u)" and "uh_number_of_orders h = uh_number_of_orders (ua_header u)"
  using assms
  by (cases sd; auto simp: cancel_order_release_def res_simps checked_simps position_of_def
      release_base_def release_quote_def Let_def)+

text \<open>The order at the slot that is freed is the order the caller named.\<close>

definition named_by :: "cancel_order_params \<Rightarrow> order \<Rightarrow> bool" where
  "named_by p x \<longleftrightarrow>
     (if cop_is_client_id p then o_client_id x = cop_order_id p else o_id x = cop_order_id p)"

lemma cancel_order_target_named:
  assumes "cancel_order_target p u = Inr (i, oid)" and "orders_wf u"
    and "unat i < length (open_orders u)"
  shows "named_by p (open_orders u ! unat i)" and "o_id (open_orders u ! unat i) = oid"
proof -
  have open_nth: "open_orders u ! unat i = ua_orders u ! unat i"
    using assms(3) by (simp add: open_orders_def)
  have "named_by p (ua_orders u ! unat i) \<and> o_id (ua_orders u ! unat i) = oid"
  proof (cases "cop_is_client_id p")
    case True
    with assms(1) obtain k x where
      k: "find_index_from 0 (\<lambda>b. o_client_id b = cop_order_id p) (ua_orders u) = Some (k, x)"
      and "i = of_nat k" "oid = o_id x"
      by (auto simp: cancel_order_target_def find_order_id_and_index_by_client_id_def res_simps)
    moreover from k have "k < length (ua_orders u)" "x = ua_orders u ! k" "o_client_id x = cop_order_id p"
      by (auto simp: find_index_from_eq_Some)
    moreover have "unat (of_nat k :: u64) = k"
      using calculation(4) assms(2) by (simp add: orders_wf_def unat_of_nat)
    ultimately show ?thesis
      using True by (simp add: named_by_def)
  next
    case False
    with assms(1) show ?thesis
      by (auto simp: cancel_order_target_def read_order_def named_by_def res_simps)
  qed
  then show "named_by p (open_orders u ! unat i)" and "o_id (open_orders u ! unat i) = oid"
    by (simp_all add: open_nth)
qed

section \<open>A concrete cancellation\<close>

definition ex_cancel_infos :: "account_info list" where
  "ex_cancel_infos = [ex_info 3 False, ex_info 4 False, ex_info 5 False, ex_info 6 False,
     ex_info 7 False, ex_info 10 False, ex_info 12 True]"

definition ex_cancel_accounts :: cancel_order_accounts where
  "ex_cancel_accounts =
     \<lparr>coa_market = ex_info 3 False, coa_orderbook = ex_info 4 False,
      coa_event_queue = ex_info 5 False, coa_bids = ex_info 6 False, coa_asks = ex_info 7 False,
      coa_user = ex_info 10 False, coa_user_owner = ex_info 12 True\<rparr>"

definition ex_cancel_params :: cancel_order_params where
  "ex_cancel_params =
     \<lparr>cop_order_id = 77, cop_order_index = 9, cop_is_client_id = True, cop_padding = 0\<rparr>"

definition ex_cancel_env :: externals where
  "ex_cancel_env = ex_env \<lparr>posted_order_id = None, total_base_qty = 300, total_quote_qty = 600,
     total_base_qty_posted = 300\<rparr> []"

lemma ex_cancel_parse: "cancel_order_parse 100 ex_ledger ex_cancel_infos = Inr ex_cancel_accounts"
  by (simp add: cancel_order_parse_def ex_cancel_infos_def ex_cancel_accounts_def
      check_signer_def check_account_owner_def)

lemma ex_cancel_load:
  "dex_state_get ex_ledger (key (coa_market ex_cancel_accounts)) = Inr ex_market"
  "user_account_get ex_ledger (key (coa_user ex_cancel_accounts)) = Inr ex_user"
  by (simp_all add: ex_cancel_accounts_def)

lemma ex_cancel_runs:
  "\<exists>L'. cancel_order_process ex_cancel_env 100 ex_cancel_infos
     (cancel_order_params_bytes ex_cancel_params) ex_ledger = Inr L'"
  by (simp add: cancel_order_process_def cancel_order_params_checked_bytes ex_cancel_parse
      ex_cancel_accounts_def cancel_order_load_user_account_def)
    (simp add: ex_defs ex_cancel_params_def ex_cancel_env_def cancel_order_check_accounts_def
      cancel_order_target_def find_order_id_and_index_by_client_id_def cancel_order_release_def
      remove_order_def eval_defs)

section \<open>Properties\<close>

text \<open>
  C7: A cancellation that succeeds takes the order the caller named, by its identifier or by the
  client's, and no other, out of the user's table and out of the order book, and moves exactly
  the quantity the book returns for it from locked to free; the user's claims stay the same.
\<close>

theorem cancel_order_refines:
  assumes "cancel_order_process env program_id accts (cancel_order_params_bytes p) L = Inr L'"
    and "cancel_order_parse program_id L accts = Inr a"
    and "dex_state_get L (key (coa_market a)) = Inr s"
    and "user_account_get L (key (coa_user a)) = Inr u" and "orders_wf u"
  shows "\<exists>u' x m0 L1 m. user_account_get L' (key (coa_user a)) = Inr u' \<and>
    named_by p x \<and> mset (open_orders u) = add_mset x (mset (open_orders u')) \<and> orders_wf u' \<and>
    aob_cancel_order env program_id (cancel_order_aob_accounts a) (o_id x) L = Inr (m0, L1) \<and>
    unscale_order_summary s m0 = Some m \<and>
    position_of u' = release_movement (get_side_from_order_id env (o_id x))
      (unat (total_base_qty m)) (unat (total_quote_qty m)) (position_of u) \<and>
    base_claim (position_of u') = base_claim (position_of u) \<and>
    quote_claim (position_of u') = quote_claim (position_of u)"
proof (rule cancel_order_processE [OF assms(1)], goal_cases)
  case (1 p' a' s' u0 i oid m0 m L1 h u')
  from 1(1-3,5) assms(2-4) have eqs: "p' = p" "a' = a" "s' = s" "u0 = u"
    by (simp_all add: cancel_order_params_bytes_inject)
  let ?u = "u\<lparr>ua_header := h\<rparr>"
  note rel = cancel_order_release_eq_Inr [OF 1(12) [unfolded eqs]]
  have wf: "orders_wf ?u" and o: "open_orders ?u = open_orders u"
    using assms(5) rel(4) by (simp_all add: orders_wf_def open_orders_def)
  note rem = 1(13) [unfolded eqs]
  have i: "unat i < length (open_orders u)" and wf': "orders_wf u'"
    using orders.remove_Inr [OF wf rem] by (simp_all add: o)
  have mset: "mset (open_orders u) = add_mset (open_orders u ! unat i) (mset (open_orders u'))"
    using orders.remove_Inr_mset [OF wf rem] by (simp add: o)
  note named = cancel_order_target_named [OF 1(9) [unfolded eqs] assms(5) i]
  have "user_valid u'"
    using user.load_valid [OF assms(4)] remove_order_frame(1) [OF rem] rel(3)
    by (simp add: user_valid_def)
  then have get: "user_account_get L' (key (coa_user a)) = Inr u'"
    by (simp add: 1(14) eqs user_account_get_written user_account_put_def)
  show ?thesis
    using 1(10,11) rel(1,2) position_of_remove_order [OF rem] get mset wf' named
    by (intro exI [of _ u'] exI [of _ "open_orders u ! unat i"] exI [of _ m0] exI [of _ L1] exI [of _ m])
      (simp add: eqs release_movement_conserves)
qed

theorem cancel_order_refines_witness:
  "\<exists>u'. open_orders u' = [] \<and> position_of u' = release_base 300 (position_of ex_user)"
proof -
  obtain L' where run: "cancel_order_process ex_cancel_env 100 ex_cancel_infos
     (cancel_order_params_bytes ex_cancel_params) ex_ledger = Inr L'"
    using ex_cancel_runs by blast
  have "orders_wf ex_user" and "open_orders ex_user = [ex_order]"
    by (simp_all add: orders_wf_def open_orders_def ex_defs)
  then show ?thesis
    using cancel_order_refines [OF run ex_cancel_parse ex_cancel_load]
    by (auto simp: ex_cancel_env_def ex_env_def ex_order_def unscale_order_summary_eq_Some
        ex_market_def)
qed

text \<open>
  An order is cancelled only at the request of the owner of the user account, who signed the
  transaction, on the market the account belongs to and in that market's order book.
\<close>

theorem cancel_order_authorised:
  assumes "cancel_order_process env program_id accts idata L = Inr L'"
  shows "\<exists>a s u. cancel_order_parse program_id L accts = Inr a \<and>
    dex_state_get L (key (coa_market a)) = Inr s \<and> user_account_get L (key (coa_user a)) = Inr u \<and>
    is_signer (coa_user_owner a) \<and> uh_owner (ua_header u) = key (coa_user_owner a) \<and>
    uh_market (ua_header u) = key (coa_market a) \<and> key (coa_orderbook a) = ds_orderbook s \<and>
    owner (L (key (coa_user a))) = program_id \<and> owner (L (key (coa_market a))) = program_id"
proof (rule cancel_order_processE [OF assms], goal_cases)
  case (1 p a s u i oid m0 m L1 h u')
  then show ?thesis
    using cancel_order_parse_checks [OF 1(2)] by blast
qed

theorem cancel_order_authorised_witness:
  "\<exists>a. cancel_order_parse 100 ex_ledger ex_cancel_infos = Inr a \<and> is_signer (coa_user_owner a)"
proof -
  obtain L' where run: "cancel_order_process ex_cancel_env 100 ex_cancel_infos
     (cancel_order_params_bytes ex_cancel_params) ex_ledger = Inr L'"
    using ex_cancel_runs by blast
  show ?thesis
    using cancel_order_authorised [OF run] by blast
qed

end
