(* ===== verification/Settle.thy ===== *)
theory Settle
  imports Example_World
begin

text \<open>
  The instruction \<open>settle\<close> (\<^verbatim>\<open>src/program/src/processor/settle.rs\<close>): the free balances of a user
  account are paid out of the market's vaults.
\<close>

section \<open>Accounts\<close>

record settle_accounts =
  sea_spl_token_program :: account_info
  sea_market :: account_info
  sea_base_vault :: account_info
  sea_quote_vault :: account_info
  sea_market_signer :: account_info
  sea_user :: account_info
  sea_user_owner :: account_info
  sea_destination_base_account :: account_info
  sea_destination_quote_account :: account_info

definition settle_parse ::
    "externals \<Rightarrow> pubkey \<Rightarrow> ledger \<Rightarrow> account_info list \<Rightarrow> settle_accounts program_result" where
  "settle_parse env program_id L accts =
     and_then (next_account_info accts) (\<lambda>(spl_token_program, accts).
     and_then (next_account_info accts) (\<lambda>(market, accts).
     and_then (next_account_info accts) (\<lambda>(base_vault, accts).
     and_then (next_account_info accts) (\<lambda>(quote_vault, accts).
     and_then (next_account_info accts) (\<lambda>(market_signer, accts).
     and_then (next_account_info accts) (\<lambda>(user, accts).
     and_then (next_account_info accts) (\<lambda>(user_owner, accts).
     and_then (next_account_info accts) (\<lambda>(destination_base_account, accts).
     and_then (next_account_info accts) (\<lambda>(destination_quote_account, accts).
     and_then (check_signer user_owner) (\<lambda>_.
     and_then (question_mark
       (check_account_key spl_token_program (spl_token_id env) InvalidSplTokenProgram)) (\<lambda>_.
     and_then (question_mark (check_account_owner L market program_id InvalidStateAccountOwner)) (\<lambda>_.
     and_then (question_mark (check_account_owner L user program_id InvalidStateAccountOwner)) (\<lambda>_.
     Inr \<lparr>sea_spl_token_program = spl_token_program, sea_market = market,
          sea_base_vault = base_vault, sea_quote_vault = quote_vault,
          sea_market_signer = market_signer, sea_user = user, sea_user_owner = user_owner,
          sea_destination_base_account = destination_base_account,
          sea_destination_quote_account = destination_quote_account\<rparr>)))))))))))))"

definition settle_load_user_account ::
    "settle_accounts \<Rightarrow> u8 list \<Rightarrow> user_account program_result" where
  "settle_load_user_account a user_account_data =
     and_then (from_buffer user_account_data) (\<lambda>u.
     if uh_owner (ua_header u) \<noteq> key (sea_user_owner a) then prog_fail InvalidArgument
     else if uh_market (ua_header u) \<noteq> key (sea_market a) then prog_fail InvalidArgument
     else Inr u)"

definition settle_check_accounts ::
    "externals \<Rightarrow> pubkey \<Rightarrow> dex_state \<Rightarrow> settle_accounts \<Rightarrow> unit program_result" where
  "settle_check_accounts env program_id s a =
     and_then (create_program_address env (market_signer_seeds (sea_market a) s) program_id)
       (\<lambda>market_signer.
     and_then (question_mark (check_account_key (sea_market_signer a) market_signer
       InvalidMarketSignerAccount)) (\<lambda>_.
     and_then (question_mark (check_account_key (sea_base_vault a) (ds_base_vault s)
       InvalidBaseVaultAccount)) (\<lambda>_.
     and_then (question_mark (check_account_key (sea_quote_vault a) (ds_quote_vault s)
       InvalidQuoteVaultAccount)) (\<lambda>_.
     Inr ()))))"

section \<open>The handler\<close>

definition settle_quote_cpi :: "externals \<Rightarrow> settle_accounts \<Rightarrow> dex_state \<Rightarrow> u64 \<Rightarrow> cpi" where
  "settle_quote_cpi env a s amount =
     \<lparr>cpi_program = spl_token_id env,
      cpi_instruction = Transfer (ds_quote_vault s) (key (sea_destination_quote_account a))
        (key (sea_market_signer a)) amount,
      cpi_accounts = [sea_spl_token_program a, sea_quote_vault a, sea_destination_quote_account a,
        sea_market_signer a],
      cpi_signers_seeds = [market_signer_seeds (sea_market a) s]\<rparr>"

definition settle_base_cpi :: "externals \<Rightarrow> settle_accounts \<Rightarrow> dex_state \<Rightarrow> u64 \<Rightarrow> cpi" where
  "settle_base_cpi env a s amount =
     \<lparr>cpi_program = spl_token_id env,
      cpi_instruction = Transfer (ds_base_vault s) (key (sea_destination_base_account a))
        (key (sea_market_signer a)) amount,
      cpi_accounts = [sea_spl_token_program a, sea_base_vault a, sea_destination_base_account a,
        sea_market_signer a],
      cpi_signers_seeds = [market_signer_seeds (sea_market a) s]\<rparr>"

definition settle_process ::
    "externals \<Rightarrow> pubkey \<Rightarrow> account_info list \<Rightarrow> ledger \<Rightarrow> ledger program_result" where
  "settle_process env program_id accts L =
     and_then (settle_parse env program_id L accts) (\<lambda>a.
     and_then (dex_state_get L (key (sea_market a))) (\<lambda>s.
     and_then (borrow [key (sea_market a)] (sea_user a)) (\<lambda>_.
     and_then (settle_load_user_account a (data (L (key (sea_user a))))) (\<lambda>u.
     and_then (unwrap_result (settle_check_accounts env program_id s a)) (\<lambda>_.
     and_then (token_invoke env program_id
       (settle_quote_cpi env a s (uh_quote_token_free (ua_header u))) L) (\<lambda>L.
     and_then (token_invoke env program_id
       (settle_base_cpi env a s (uh_base_token_free (ua_header u))) L) (\<lambda>L.
     Inr (user_account_put (key (sea_user a))
       (u\<lparr>ua_header := (ua_header u)\<lparr>uh_quote_token_free := 0, uh_base_token_free := 0\<rparr>\<rparr>) L))))))))"

section \<open>Lemmas\<close>

lemma settle_load_user_account_eq_Inr [res_simps]:
  "settle_load_user_account a bs = Inr u \<longleftrightarrow>
     from_buffer bs = Inr u \<and> uh_owner (ua_header u) = key (sea_user_owner a) \<and>
     uh_market (ua_header u) = key (sea_market a)"
  by (auto simp: settle_load_user_account_def res_simps)

lemma settle_check_accounts_eq_Inr [res_simps]:
  "settle_check_accounts env program_id s a = Inr x \<longleftrightarrow>
     create_program_address env (market_signer_seeds (sea_market a) s) program_id
       = Inr (key (sea_market_signer a)) \<and>
     key (sea_base_vault a) = ds_base_vault s \<and> key (sea_quote_vault a) = ds_quote_vault s"
  by (auto simp: settle_check_accounts_def res_simps)

lemma settle_parse_checks:
  assumes "settle_parse env program_id L accts = Inr a"
  shows "is_signer (sea_user_owner a)" and "owner (L (key (sea_user a))) = program_id"
    and "owner (L (key (sea_market a))) = program_id"
    and "key (sea_spl_token_program a) = spl_token_id env"
  using assms by (auto simp: settle_parse_def res_simps)

lemma settle_processE:
  assumes "settle_process env program_id accts L = Inr L'"
  obtains a s u L1 L2 where "settle_parse env program_id L accts = Inr a"
    and "dex_state_get L (key (sea_market a)) = Inr s"
    and "user_account_get L (key (sea_user a)) = Inr u"
    and "uh_owner (ua_header u) = key (sea_user_owner a)"
    and "uh_market (ua_header u) = key (sea_market a)"
    and "settle_check_accounts env program_id s a = Inr ()"
    and "token_invoke env program_id
           (settle_quote_cpi env a s (uh_quote_token_free (ua_header u))) L = Inr L1"
    and "token_invoke env program_id
           (settle_base_cpi env a s (uh_base_token_free (ua_header u))) L1 = Inr L2"
    and "L' = user_account_put (key (sea_user a))
       (u\<lparr>ua_header := (ua_header u)\<lparr>uh_quote_token_free := 0, uh_base_token_free := 0\<rparr>\<rparr>) L2"
  using assms by (auto simp: settle_process_def user_account_get_def res_simps)

section \<open>A concrete settlement\<close>

definition ex_settle_infos :: "account_info list" where
  "ex_settle_infos = [ex_info 1 False, ex_info 3 False, ex_info 8 False, ex_info 9 False,
     ex_info 13 False, ex_info 10 False, ex_info 12 True, ex_info 50 False, ex_info 51 False]"

lemma ex_settle_runs: "\<exists>L'. settle_process ex_plain_env 100 ex_settle_infos ex_ledger = Inr L'"
  by (simp add: settle_process_def settle_parse_def ex_settle_infos_def settle_load_user_account_def
      ex_plain_env_def ex_env_def eval_defs settle_check_accounts_def)
    (simp add: ex_defs)

section \<open>Properties\<close>

text \<open>
  C8: A settlement pays out exactly the free balances, each from its vault to the destination
  account under the market's signature, sets both to zero, and keeps the locked balances and
  the open orders.
\<close>

theorem settle_pays_free_balances:
  assumes "settle_process env program_id accts L = Inr L'"
    and "settle_parse env program_id L accts = Inr a"
    and "dex_state_get L (key (sea_market a)) = Inr s"
    and "user_account_get L (key (sea_user a)) = Inr u"
  shows "\<exists>u' q b L1 L2. user_account_get L' (key (sea_user a)) = Inr u' \<and>
    position_of u' = withdraw (position_of u) \<and> open_orders u' = open_orders u \<and>
    unat q = quote_free (position_of u) \<and> unat b = base_free (position_of u) \<and>
    token_invoke env program_id (settle_quote_cpi env a s q) L = Inr L1 \<and>
    token_invoke env program_id (settle_base_cpi env a s b) L1 = Inr L2 \<and>
    (\<forall>k. k \<noteq> key (sea_user a) \<longrightarrow> L' k = L2 k)"
proof (rule settle_processE [OF assms(1)], goal_cases)
  case (1 a' s' u' L1 L2)
  from 1(1-3) assms(2-4) have eqs: "a' = a" "s' = s" "u' = u" by auto
  let ?u = "u\<lparr>ua_header := (ua_header u)\<lparr>uh_quote_token_free := 0, uh_base_token_free := 0\<rparr>\<rparr>"
  have "user_valid ?u"
    using user.load_valid [OF assms(4)] by (simp add: user_valid_def)
  then have "user_account_get L' (key (sea_user a)) = Inr ?u"
    by (simp add: 1(9) eqs user_account_get_written user_account_put_def)
  with 1(7-9) show ?thesis
    by (intro exI [of _ ?u] exI [of _ "uh_quote_token_free (ua_header u)"]
        exI [of _ "uh_base_token_free (ua_header u)"] exI [of _ L1] exI [of _ L2])
      (simp add: eqs position_of_def withdraw_def open_orders_def Let_def user.store_other)
qed

theorem settle_pays_free_balances_witness:
  "\<exists>L' u'. settle_process ex_plain_env 100 ex_settle_infos ex_ledger = Inr L' \<and>
     user_account_get L' 10 = Inr u' \<and> position_of u' = withdraw (position_of ex_user)"
proof -
  obtain L' where run: "settle_process ex_plain_env 100 ex_settle_infos ex_ledger = Inr L'"
    using ex_settle_runs by blast
  moreover obtain a where parse: "settle_parse ex_plain_env 100 ex_ledger ex_settle_infos = Inr a"
    and "key (sea_market a) = 3" "key (sea_user a) = 10"
    by (simp add: settle_parse_def ex_settle_infos_def ex_plain_env_def ex_env_def eval_defs)
  ultimately show ?thesis
    using settle_pays_free_balances [OF run parse, of ex_market ex_user] by auto
qed

text \<open>
  A user account is settled only at the request of its owner, who signed the transaction,
  and the payments come from the vaults of the market the account belongs to, under the address
  derived for that market.
\<close>

theorem settle_authorised:
  assumes "settle_process env program_id accts L = Inr L'"
  shows "\<exists>a s u. settle_parse env program_id L accts = Inr a \<and>
    dex_state_get L (key (sea_market a)) = Inr s \<and> user_account_get L (key (sea_user a)) = Inr u \<and>
    is_signer (sea_user_owner a) \<and> uh_owner (ua_header u) = key (sea_user_owner a) \<and>
    uh_market (ua_header u) = key (sea_market a) \<and>
    create_program_address env (market_signer_seeds (sea_market a) s) program_id
      = Inr (key (sea_market_signer a)) \<and>
    key (sea_base_vault a) = ds_base_vault s \<and> key (sea_quote_vault a) = ds_quote_vault s \<and>
    owner (L (key (sea_user a))) = program_id \<and> owner (L (key (sea_market a))) = program_id"
proof (rule settle_processE [OF assms], goal_cases)
  case (1 a s u L1 L2)
  then show ?thesis
    using settle_parse_checks [OF 1(1)]
    by (intro exI [of _ a] exI [of _ s] exI [of _ u]) (simp add: res_simps)
qed

theorem settle_authorised_witness:
  "\<exists>a. settle_parse ex_plain_env 100 ex_ledger ex_settle_infos = Inr a \<and> is_signer (sea_user_owner a)"
proof -
  obtain L' where run: "settle_process ex_plain_env 100 ex_settle_infos ex_ledger = Inr L'"
    using ex_settle_runs by blast
  show ?thesis
    using settle_authorised [OF run] by blast
qed

end
