(* ===== verification/Metadata_Checks.thy ===== *)
theory Metadata_Checks
  imports Externals
begin

text \<open>
  The checks of \<^verbatim>\<open>src/program/src/utils.rs\<close> on the token metadata account from which a market takes
  its royalties.
\<close>

text \<open>\<open>held\<close> are the accounts whose data the caller borrows: \<open>data_len\<close> borrows the data too.\<close>

definition check_metadata_account ::
    "externals \<Rightarrow> pubkey list \<Rightarrow> ledger \<Rightarrow> account_info \<Rightarrow> pubkey \<Rightarrow> unit program_result" where
  "check_metadata_account env held L account mint =
     (let expected = find_metadata_account env mint in
      and_then (question_mark (check_account_key account expected InvalidMetadataKey)) (\<lambda>_.
      and_then (borrow held account) (\<lambda>_.
      if length (data (L (key account))) \<noteq> 0
      then question_mark
        (check_account_owner L account (mpl_token_metadata_id env) InvalidMetadataOwner)
      else Inr ())))"

definition get_verified_creators ::
    "externals \<Rightarrow> account \<Rightarrow> ('e, creator list option) result" where
  "get_verified_creators env account =
     and_then (unwrap_result (metadata_from_account_info env account)) (\<lambda>metadata.
     Inr (case md_creators metadata of
            Some creators \<Rightarrow> Some (filter cr_verified creators)
          | None \<Rightarrow> None))"

text \<open>The shares are summed in a \<open>u8\<close>, which wraps.\<close>

definition verify_metadata :: "creator list \<Rightarrow> unit program_result" where
  "verify_metadata creators =
     (let sum = sum_list (map cr_share creators) in
      if sum \<noteq> 100 then prog_fail InvalidArgument else Inr ())"

lemma check_metadata_account_eq_Inr [res_simps]:
  "check_metadata_account env held L a mint = Inr u \<longleftrightarrow>
     key a = find_metadata_account env mint \<and> key a \<notin> set held \<and>
     (data (L (key a)) \<noteq> [] \<longrightarrow> owner (L (key a)) = mpl_token_metadata_id env)"
  by (auto simp: check_metadata_account_def Let_def res_simps)

lemma verify_metadata_eq_Inr [res_simps]:
  "verify_metadata creators = Inr u \<longleftrightarrow> sum_list (map cr_share creators) = 100"
  by (simp add: verify_metadata_def)

end
