(* ===== verification/Sweep_Fees.thy ===== *)
theory Sweep_Fees
  imports Example_World Metadata_Checks
begin

text \<open>
  The instruction \<open>sweep_fees\<close> (\<^verbatim>\<open>src/program/src/processor/sweep_fees.rs\<close>): the royalties a market
  has accumulated are paid to the creators named in the token's metadata, by their shares, and
  the fees to a token account of the sweep authority.
\<close>

section \<open>Accounts\<close>

record sweep_fees_accounts =
  sfa_market :: account_info
  sfa_market_signer :: account_info
  sfa_quote_vault :: account_info
  sfa_destination_token_account :: account_info
  sfa_spl_token_program :: account_info
  sfa_token_metadata :: account_info
  sfa_creators_token_accounts :: "account_info list"

definition sweep_fees_parse ::
    "externals \<Rightarrow> pubkey \<Rightarrow> ledger \<Rightarrow> account_info list \<Rightarrow> sweep_fees_accounts program_result" where
  "sweep_fees_parse env program_id L accts =
     and_then (next_account_info accts) (\<lambda>(market, accts).
     and_then (next_account_info accts) (\<lambda>(market_signer, accts).
     and_then (next_account_info accts) (\<lambda>(quote_vault, accts).
     and_then (next_account_info accts) (\<lambda>(destination_token_account, accts).
     and_then (next_account_info accts) (\<lambda>(spl_token_program, accts).
     and_then (next_account_info accts) (\<lambda>(token_metadata, accts).
     and_then (question_mark
       (check_account_key spl_token_program (spl_token_id env) InvalidSplTokenProgram)) (\<lambda>_.
     and_then (question_mark (check_account_owner L market program_id InvalidStateAccountOwner)) (\<lambda>_.
     Inr \<lparr>sfa_market = market, sfa_market_signer = market_signer, sfa_quote_vault = quote_vault,
          sfa_destination_token_account = destination_token_account,
          sfa_spl_token_program = spl_token_program, sfa_token_metadata = token_metadata,
          sfa_creators_token_accounts = accts\<rparr>))))))))"

definition sweep_fees_check_accounts ::
    "externals \<Rightarrow> pubkey \<Rightarrow> ledger \<Rightarrow> dex_state \<Rightarrow> sweep_fees_accounts \<Rightarrow> unit program_result" where
  "sweep_fees_check_accounts env program_id L s a =
     and_then (create_program_address env (market_signer_seeds (sfa_market a) s) program_id)
       (\<lambda>market_signer.
     and_then (question_mark (check_account_key (sfa_market_signer a) market_signer
       InvalidMarketSignerAccount)) (\<lambda>_.
     and_then (question_mark (check_account_key (sfa_quote_vault a) (ds_quote_vault s)
       InvalidQuoteVaultAccount)) (\<lambda>_.
     check_token_account_owner env (L (key (sfa_destination_token_account a))) SWEEP_AUTHORITY)))"

section \<open>The handler\<close>

definition sweep_fees_cpi ::
    "externals \<Rightarrow> sweep_fees_accounts \<Rightarrow> dex_state \<Rightarrow> account_info \<Rightarrow> u64 \<Rightarrow> cpi" where
  "sweep_fees_cpi env a s token_destination amount =
     \<lparr>cpi_program = spl_token_id env,
      cpi_instruction = Transfer (key (sfa_quote_vault a)) (key token_destination)
        (key (sfa_market_signer a)) amount,
      cpi_accounts = [sfa_spl_token_program a, sfa_quote_vault a, token_destination,
        sfa_market_signer a],
      cpi_signers_seeds = [market_signer_seeds (sfa_market a) s]\<rparr>"

text \<open>The loop over the creators; the shares are summed in a \<open>u8\<close>, which wraps.\<close>

fun sweep_creators ::
    "externals \<Rightarrow> pubkey \<Rightarrow> sweep_fees_accounts \<Rightarrow> dex_state \<Rightarrow> nat \<Rightarrow> creator list \<Rightarrow> u8 \<Rightarrow> u64 \<Rightarrow>
     ledger \<Rightarrow> (u8 \<times> u64 \<times> ledger) program_result" where
  "sweep_creators env program_id a s idx [] share_sum royalties_sum L =
     Inr (share_sum, royalties_sum, L)"
| "sweep_creators env program_id a s idx (creator # creators) share_sum royalties_sum L =
     (let share_sum = share_sum + cr_share creator in
      and_then (index_slice (sfa_creators_token_accounts a) idx) (\<lambda>token_destination.
      and_then (question_mark (ok_or
        (checked_mul (ds_accumulated_royalties s) (ucast (cr_share creator))) NumericalOverflow))
        (\<lambda>product.
      let amount = product div 100 in
      and_then (question_mark (ok_or (checked_add royalties_sum amount) NumericalOverflow))
        (\<lambda>royalties_sum.
      and_then (check_token_account_owner env (L (key token_destination)) (cr_address creator)) (\<lambda>_.
      and_then (token_invoke env program_id (sweep_fees_cpi env a s token_destination amount) L) (\<lambda>L.
      sweep_creators env program_id a s (Suc idx) creators share_sum royalties_sum L))))))"

definition sweep_royalties ::
    "externals \<Rightarrow> pubkey \<Rightarrow> sweep_fees_accounts \<Rightarrow> dex_state \<Rightarrow> ledger \<Rightarrow>
     (bool \<times> dex_state \<times> ledger) program_result" where
  "sweep_royalties env program_id a s L =
     (if data (L (key (sfa_token_metadata a))) \<noteq> [] \<and> ds_accumulated_royalties s \<noteq> 0 then
        and_then (metadata_from_account_info env (L (key (sfa_token_metadata a)))) (\<lambda>metadata.
        case md_creators metadata of
          Some creators \<Rightarrow>
            and_then (sweep_creators env program_id a s 0 creators 0 0 L)
              (\<lambda>(share_sum, royalties_sum, L).
            if share_sum \<noteq> 100 then prog_fail InvalidAccountData
            else and_then (question_mark (ok_or
              (checked_sub (ds_accumulated_royalties s) royalties_sum) NumericalOverflow)) (\<lambda>royalties.
            Inr (False, s\<lparr>ds_accumulated_royalties := royalties\<rparr>, L)))
        | None \<Rightarrow> Inr (False, s, L))
      else Inr (True, s, L))"

definition sweep_market_fees ::
    "externals \<Rightarrow> pubkey \<Rightarrow> sweep_fees_accounts \<Rightarrow> bool \<Rightarrow> dex_state \<Rightarrow> ledger \<Rightarrow>
     (bool \<times> dex_state \<times> ledger) program_result" where
  "sweep_market_fees env program_id a no_op s L =
     (if ds_accumulated_fees s \<noteq> 0 then
        and_then (token_invoke env program_id (sweep_fees_cpi env a s
          (sfa_destination_token_account a) (ds_accumulated_fees s)) L) (\<lambda>L.
        Inr (False, s\<lparr>ds_accumulated_fees := 0\<rparr>, L))
      else Inr (no_op, s, L))"

definition sweep_fees_process ::
    "externals \<Rightarrow> pubkey \<Rightarrow> account_info list \<Rightarrow> ledger \<Rightarrow> ledger program_result" where
  "sweep_fees_process env program_id accts L =
     and_then (sweep_fees_parse env program_id L accts) (\<lambda>a.
     and_then (dex_state_get L (key (sfa_market a))) (\<lambda>s.
     and_then (sweep_fees_check_accounts env program_id L s a) (\<lambda>_.
     and_then (check_metadata_account env [key (sfa_market a)] L (sfa_token_metadata a)
       (ds_base_mint s)) (\<lambda>_.
     and_then (sweep_royalties env program_id a s L) (\<lambda>(no_op, s, L).
     and_then (sweep_market_fees env program_id a no_op s L) (\<lambda>(no_op, s, L).
     if no_op then dex_fail NoOp
     else Inr (dex_state_put (key (sfa_market a)) s L)))))))"

section \<open>What the creators receive\<close>

definition creator_cut :: "dex_state \<Rightarrow> creator \<Rightarrow> nat" where
  "creator_cut s c = unat (ds_accumulated_royalties s) * unat (cr_share c) div 100"

text \<open>A sequence of invocations of the token program.\<close>

fun token_invoke_all :: "externals \<Rightarrow> pubkey \<Rightarrow> cpi list \<Rightarrow> ledger \<Rightarrow> ledger program_result" where
  "token_invoke_all env program_id [] L = Inr L"
| "token_invoke_all env program_id (c # cs) L =
     and_then (token_invoke env program_id c L) (token_invoke_all env program_id cs)"

text \<open>
  The creators are paid one after the other, each into a token account that passes the owner check
  for that creator's address at the time of the payment.
\<close>

fun creators_paid ::
    "externals \<Rightarrow> pubkey \<Rightarrow> sweep_fees_accounts \<Rightarrow> dex_state \<Rightarrow> (account_info \<times> creator) list \<Rightarrow>
     ledger \<Rightarrow> ledger \<Rightarrow> bool" where
  "creators_paid env program_id a s [] L L' \<longleftrightarrow> L' = L"
| "creators_paid env program_id a s ((dest, c) # rest) L L' \<longleftrightarrow>
     check_token_account_owner env (L (key dest)) (cr_address c) = Inr () \<and>
     (\<exists>L1. token_invoke env program_id (sweep_fees_cpi env a s dest (of_nat (creator_cut s c))) L = Inr L1 \<and>
       creators_paid env program_id a s rest L1 L')"

lemma unat_ucast_u8 [simp]: "unat (ucast (x :: u8) :: u64) = unat x"
  by (simp add: unat_ucast_widen)

lemma sweep_creatorsD:
  assumes "sweep_creators env program_id a s idx cs share paid L = Inr (share', paid', L')"
  shows "share' = share + sum_list (map cr_share cs) \<and>
    unat paid' = unat paid + (\<Sum>c\<leftarrow>cs. creator_cut s c) \<and>
    (cs = [] \<or> idx + length cs \<le> length (sfa_creators_token_accounts a)) \<and>
    token_invoke_all env program_id
      (map2 (\<lambda>dest c. sweep_fees_cpi env a s dest (of_nat (creator_cut s c)))
        (drop idx (sfa_creators_token_accounts a)) cs) L = Inr L' \<and>
    creators_paid env program_id a s (zip (drop idx (sfa_creators_token_accounts a)) cs) L L'"
  using assms
proof (induction cs arbitrary: idx share paid L)
  case (Cons c cs)
  let ?accts = "sfa_creators_token_accounts a"
  from Cons.prems obtain product paid1 L1 where idx: "idx < length ?accts"
    and prod: "checked_mul (ds_accumulated_royalties s) (ucast (cr_share c)) = Some product"
    and paid1: "checked_add paid (product div 100) = Some paid1"
    and own: "check_token_account_owner env (L (key (?accts ! idx))) (cr_address c) = Inr ()"
    and pay: "token_invoke env program_id
      (sweep_fees_cpi env a s (?accts ! idx) (product div 100)) L = Inr L1"
    and rest: "sweep_creators env program_id a s (Suc idx) cs (share + cr_share c) paid1 L1
      = Inr (share', paid', L')"
    by (auto simp: Let_def res_simps)
  from prod have cut: "unat (product div 100) = creator_cut s c"
    by (simp add: checked_simps creator_cut_def unat_div)
  then have amount: "of_nat (creator_cut s c) = product div 100"
    by (metis of_nat_unat ucast_id)
  have "drop idx ?accts = ?accts ! idx # drop (Suc idx) ?accts"
    using idx by (simp add: Cons_nth_drop_Suc)
  with Cons.IH [OF rest] idx paid1 own pay cut show ?case
    by (auto simp: amount checked_simps add.assoc)
qed simp

lemma creator_cuts_dust:
  assumes "(\<Sum>c\<leftarrow>cs. unat (cr_share c)) = 100"
  shows "unat (ds_accumulated_royalties s) < (\<Sum>c\<leftarrow>cs. creator_cut s c) + length cs"
proof -
  let ?r = "unat (ds_accumulated_royalties s)"
  have "?r * (\<Sum>c\<leftarrow>cs. unat (cr_share c)) \<le> 100 * (\<Sum>c\<leftarrow>cs. creator_cut s c) + 99 * length cs"
  proof (induction cs)
    case (Cons c cs)
    have "?r * unat (cr_share c) \<le> 100 * creator_cut s c + 99"
      by (simp add: creator_cut_def)
    with Cons show ?case
      by (simp add: algebra_simps)
  qed simp
  moreover have "cs \<noteq> []"
    using assms by auto
  ultimately show ?thesis
    using assms by (cases cs) auto
qed

lemma sweep_fees_processE:
  assumes "sweep_fees_process env program_id accts L = Inr L'"
  obtains a s b1 s1 L1 s2 L2 where "sweep_fees_parse env program_id L accts = Inr a"
    and "dex_state_get L (key (sfa_market a)) = Inr s"
    and "sweep_fees_check_accounts env program_id L s a = Inr ()"
    and "check_metadata_account env [key (sfa_market a)] L (sfa_token_metadata a) (ds_base_mint s) = Inr ()"
    and "sweep_royalties env program_id a s L = Inr (b1, s1, L1)"
    and "sweep_market_fees env program_id a b1 s1 L1 = Inr (False, s2, L2)"
    and "L' = dex_state_put (key (sfa_market a)) s2 L2"
  using assms unfolding sweep_fees_process_def
  by (elim and_then_InrE) (auto simp: if_Inl_eq_Inr and_then_eq_Inr split: prod.split_asm)

section \<open>A concrete sweep\<close>

definition ex_sweep_infos :: "account_info list" where
  "ex_sweep_infos = [ex_info 3 False, ex_info 13 False, ex_info 9 False, ex_info 60 False,
     ex_info 1 False, ex_info 31 False, ex_info 61 False, ex_info 62 False]"

definition ex_sweep_accounts :: sweep_fees_accounts where
  "ex_sweep_accounts =
     \<lparr>sfa_market = ex_info 3 False, sfa_market_signer = ex_info 13 False,
      sfa_quote_vault = ex_info 9 False, sfa_destination_token_account = ex_info 60 False,
      sfa_spl_token_program = ex_info 1 False, sfa_token_metadata = ex_info 31 False,
      sfa_creators_token_accounts = [ex_info 61 False, ex_info 62 False]\<rparr>"

definition ex_sweep_ledger :: ledger where
  "ex_sweep_ledger = ex_ledger(31 := \<lparr>lamports = 1, data = [1], owner = 30\<rparr>)"

definition ex_creators :: "creator list" where
  "ex_creators = [\<lparr>cr_address = 40, cr_verified = True, cr_share = 60\<rparr>,
     \<lparr>cr_address = 41, cr_verified = True, cr_share = 40\<rparr>]"

lemma ex_sweep_parse: "sweep_fees_parse ex_plain_env 100 ex_sweep_ledger ex_sweep_infos = Inr ex_sweep_accounts"
  by (simp add: sweep_fees_parse_def ex_sweep_infos_def ex_sweep_accounts_def ex_plain_env_def
      ex_env_def eval_defs ex_sweep_ledger_def)

lemma ex_sweep_load: "dex_state_get ex_sweep_ledger 3 = Inr ex_market"
  using ex_load(1) by (subst market.load_cong [of _ _ ex_ledger]) (simp_all add: ex_sweep_ledger_def)

lemma ex_sweep_runs: "\<exists>L'. sweep_fees_process ex_plain_env 100 ex_sweep_infos ex_sweep_ledger = Inr L'"
  by (simp add: sweep_fees_process_def ex_sweep_parse ex_sweep_accounts_def ex_sweep_load
      sweep_fees_check_accounts_def check_metadata_account_def)
    (simp add: ex_defs eval_defs sweep_royalties_def sweep_market_fees_def ex_sweep_ledger_def)

section \<open>Properties\<close>

text \<open>
  C22: When a market has royalties and its metadata names creators, a sweep pays each creator its
  share of the royalties, rounded down, in order, into a token account that passed the owner check
  for that creator's address, then pays all fees into a token account that passed the owner check
  for the sweep authority; the fees become zero and the royalties shrink by exactly what was paid.
  The shares add up to 100 in eight bits; if they do so as numbers, less than one token per creator
  stays behind.
\<close>

theorem sweep_fees_pays_creators:
  assumes "sweep_fees_process env program_id accts L = Inr L'"
    and "sweep_fees_parse env program_id L accts = Inr a"
    and "dex_state_get L (key (sfa_market a)) = Inr s"
    and "data (L (key (sfa_token_metadata a))) \<noteq> []" and "ds_accumulated_royalties s \<noteq> 0"
    and "metadata_from_account_info env (L (key (sfa_token_metadata a))) = Inr md"
    and "md_creators md = Some creators"
  shows "\<exists>s' L1 L2. dex_state_get L' (key (sfa_market a)) = Inr s' \<and>
    creators_paid env program_id a s (zip (sfa_creators_token_accounts a) creators) L L1 \<and>
    check_token_account_owner env (L (key (sfa_destination_token_account a))) SWEEP_AUTHORITY = Inr () \<and>
    length creators \<le> length (sfa_creators_token_accounts a) \<and>
    sum_list (map cr_share creators) = 100 \<and>
    (if ds_accumulated_fees s = 0 then L2 = L1
     else token_invoke env program_id (sweep_fees_cpi env a s (sfa_destination_token_account a)
       (ds_accumulated_fees s)) L1 = Inr L2) \<and>
    ds_accumulated_fees s' = 0 \<and>
    unat (ds_accumulated_royalties s') + (\<Sum>c\<leftarrow>creators. creator_cut s c)
      = unat (ds_accumulated_royalties s) \<and>
    ((\<Sum>c\<leftarrow>creators. unat (cr_share c)) = 100 \<longrightarrow>
      unat (ds_accumulated_royalties s') < length creators)"
proof (rule sweep_fees_processE [OF assms(1)], goal_cases)
  case (1 a' s0 b1 s1 L1 s2 L2)
  from 1(1,2) assms(2,3) have eqs: "a' = a" "s0 = s" by auto
  from 1(5) assms(4-7) obtain paid royalties where
    loop: "sweep_creators env program_id a s 0 creators 0 0 L = Inr (100, paid, L1)"
    and sub: "checked_sub (ds_accumulated_royalties s) paid = Some royalties"
    and s1: "s1 = s\<lparr>ds_accumulated_royalties := royalties\<rparr>"
    by (auto simp: eqs sweep_royalties_def res_simps)
  note paid = sweep_creatorsD [OF loop]
  have auth: "check_token_account_owner env (L (key (sfa_destination_token_account a))) SWEEP_AUTHORITY = Inr ()"
    using 1(3) by (auto simp: eqs sweep_fees_check_accounts_def res_simps)
  have s2: "ds_accumulated_fees s2 = 0" "ds_accumulated_royalties s2 = royalties"
    "ds_tag s2 = ds_tag s"
    "if ds_accumulated_fees s = 0 then L2 = L1
     else token_invoke env program_id (sweep_fees_cpi env a s (sfa_destination_token_account a)
       (ds_accumulated_fees s)) L1 = Inr L2"
    using 1(6)
    by (auto simp: eqs sweep_market_fees_def s1 sweep_fees_cpi_def market_signer_seeds_def res_simps
        split: if_splits)
  have "market_valid s2"
    using market.load_valid [OF assms(3)] s2(3) by (simp add: market_valid_def)
  then have get: "dex_state_get L' (key (sfa_market a)) = Inr s2"
    by (simp add: 1(7) eqs dex_state_get_written dex_state_put_def)
  have total: "unat royalties + (\<Sum>c\<leftarrow>creators. creator_cut s c) = unat (ds_accumulated_royalties s)"
    using sub paid by (simp add: checked_simps)
  show ?thesis
    using get s2 total paid auth creator_cuts_dust [of creators s]
    by (intro exI [of _ s2] exI [of _ L1] exI [of _ L2]) auto
qed

theorem sweep_fees_pays_creators_witness:
  "\<exists>L' s'. sweep_fees_process ex_plain_env 100 ex_sweep_infos ex_sweep_ledger = Inr L' \<and>
     dex_state_get L' 3 = Inr s' \<and>
     unat (ds_accumulated_royalties s') = 0 \<and> ds_accumulated_fees s' = 0"
proof -
  obtain L' where run: "sweep_fees_process ex_plain_env 100 ex_sweep_infos ex_sweep_ledger = Inr L'"
    using ex_sweep_runs by blast
  show ?thesis
    using run sweep_fees_pays_creators [OF run ex_sweep_parse, of ex_market
        "\<lparr>md_seller_fee_basis_points = 250, md_creators = Some ex_creators\<rparr>" ex_creators]
    by (simp add: ex_sweep_accounts_def ex_sweep_load)
      (force simp: ex_sweep_ledger_def ex_market_def ex_plain_env_def ex_env_def ex_creators_def
        creator_cut_def)
qed



end
