(* ===== verification/Create_Market.thy ===== *)
theory Create_Market
  imports Example_World Metadata_Checks
begin

text \<open>
  The instruction \<open>create_market\<close> (\<^verbatim>\<open>src/program/src/processor/create_market.rs\<close>): a market account
  that was never used is filled in for a pair of vaults, and its order book is created. The
  checks of the token metadata are those of the default build, without the feature
  \<open>disable-mpl-checks\<close>.
\<close>

section \<open>Parameters and accounts\<close>

record create_market_params =
  cmp_signer_nonce :: u64
  cmp_min_base_order_size :: u64
  cmp_tick_size :: u64
  cmp_base_currency_multiplier :: u64
  cmp_quote_currency_multiplier :: u64

definition create_market_params_layout :: "nat list" where
  "create_market_params_layout = [8, 8, 8, 8, 8]"

definition CREATE_MARKET_PARAMS_LEN :: nat where
  "CREATE_MARKET_PARAMS_LEN = sum_list create_market_params_layout"

definition create_market_params_bytes :: "create_market_params \<Rightarrow> u8 list" where
  "create_market_params_bytes p = concat
     [to_le_bytes (cmp_signer_nonce p), to_le_bytes (cmp_min_base_order_size p),
      to_le_bytes (cmp_tick_size p), to_le_bytes (cmp_base_currency_multiplier p),
      to_le_bytes (cmp_quote_currency_multiplier p)]"

definition create_market_params_of_bytes :: "u8 list \<Rightarrow> create_market_params" where
  "create_market_params_of_bytes bs =
     (let f = (!) (split_fields create_market_params_layout bs) in
      \<lparr>cmp_signer_nonce = from_le_bytes (f 0), cmp_min_base_order_size = from_le_bytes (f 1),
       cmp_tick_size = from_le_bytes (f 2), cmp_base_currency_multiplier = from_le_bytes (f 3),
       cmp_quote_currency_multiplier = from_le_bytes (f 4)\<rparr>)"

record create_market_accounts =
  cma_market :: account_info
  cma_orderbook :: account_info
  cma_base_vault :: account_info
  cma_quote_vault :: account_info
  cma_market_admin :: account_info
  cma_event_queue :: account_info
  cma_asks :: account_info
  cma_bids :: account_info
  cma_token_metadata :: account_info

definition create_market_parse ::
    "externals \<Rightarrow> pubkey \<Rightarrow> ledger \<Rightarrow> account_info list \<Rightarrow> create_market_accounts program_result" where
  "create_market_parse env program_id L accts =
     and_then (next_account_info accts) (\<lambda>(market, accts).
     and_then (next_account_info accts) (\<lambda>(orderbook, accts).
     and_then (next_account_info accts) (\<lambda>(base_vault, accts).
     and_then (next_account_info accts) (\<lambda>(quote_vault, accts).
     and_then (next_account_info accts) (\<lambda>(market_admin, accts).
     and_then (next_account_info accts) (\<lambda>(event_queue, accts).
     and_then (next_account_info accts) (\<lambda>(asks, accts).
     and_then (next_account_info accts) (\<lambda>(bids, accts).
     and_then (next_account_info accts) (\<lambda>(token_metadata, accts).
     and_then (question_mark (check_account_owner L market program_id InvalidStateAccountOwner)) (\<lambda>_.
     and_then (question_mark (check_account_owner L orderbook program_id InvalidStateAccountOwner)) (\<lambda>_.
     and_then (question_mark
       (check_account_owner L base_vault (spl_token_id env) InvalidStateAccountOwner)) (\<lambda>_.
     and_then (question_mark
       (check_account_owner L quote_vault (spl_token_id env) InvalidStateAccountOwner)) (\<lambda>_.
     Inr \<lparr>cma_market = market, cma_orderbook = orderbook, cma_base_vault = base_vault,
          cma_quote_vault = quote_vault, cma_market_admin = market_admin,
          cma_event_queue = event_queue, cma_asks = asks, cma_bids = bids,
          cma_token_metadata = token_metadata\<rparr>)))))))))))))"

section \<open>The handler\<close>

definition check_rent :: "externals \<Rightarrow> ledger \<Rightarrow> create_market_accounts \<Rightarrow> unit program_result" where
  "check_rent env L a =
     and_then (check_rent_exempt env (L (key (cma_market a)))) (\<lambda>_.
     and_then (check_rent_exempt env (L (key (cma_orderbook a)))) (\<lambda>_.
     and_then (check_rent_exempt env (L (key (cma_base_vault a)))) (\<lambda>_.
     and_then (check_rent_exempt env (L (key (cma_quote_vault a)))) (\<lambda>_.
     and_then (check_rent_exempt env (L (key (cma_event_queue a)))) (\<lambda>_.
     and_then (check_rent_exempt env (L (key (cma_asks a)))) (\<lambda>_.
     and_then (check_rent_exempt env (L (key (cma_bids a)))) (\<lambda>_.
     Inr ())))))))"

definition check_vault_account_and_get_mint ::
    "externals \<Rightarrow> ledger \<Rightarrow> account_info \<Rightarrow> pubkey \<Rightarrow> pubkey program_result" where
  "check_vault_account_and_get_mint env L account market_signer =
     and_then (token_unpack env (data (L (key account)))) (\<lambda>acc.
     if ta_owner acc \<noteq> market_signer then prog_fail InvalidArgument
     else if ta_close_authority acc \<noteq> None \<or> ta_delegate acc \<noteq> None then prog_fail InvalidArgument
     else Inr (ta_mint acc))"

definition create_market_royalties_bps ::
    "externals \<Rightarrow> account \<Rightarrow> u16 program_result" where
  "create_market_royalties_bps env token_metadata =
     (if data token_metadata \<noteq> [] then
        and_then (metadata_from_account_info env token_metadata) (\<lambda>metadata.
        case md_creators metadata of
          Some creators \<Rightarrow>
            and_then (verify_metadata creators) (\<lambda>_. Inr (md_seller_fee_basis_points metadata))
        | None \<Rightarrow> Inr 0)
      else Inr 0)"

definition create_market_state ::
    "create_market_params \<Rightarrow> create_market_accounts \<Rightarrow> pubkey \<Rightarrow> pubkey \<Rightarrow> u64 \<Rightarrow> u16 \<Rightarrow> dex_state" where
  "create_market_state p a base_mint quote_mint current_timestamp royalties_bps =
     \<lparr>ds_tag = account_tag_code DexStateTag, ds_base_mint = base_mint, ds_quote_mint = quote_mint,
      ds_base_vault = key (cma_base_vault a), ds_quote_vault = key (cma_quote_vault a),
      ds_orderbook = key (cma_orderbook a), ds_admin = key (cma_market_admin a),
      ds_creation_timestamp = current_timestamp, ds_base_volume = 0, ds_quote_volume = 0,
      ds_accumulated_fees = 0, ds_min_base_order_size = cmp_min_base_order_size p,
      ds_royalties_bps = ucast royalties_bps, ds_accumulated_royalties = 0,
      ds_base_currency_multiplier = cmp_base_currency_multiplier p,
      ds_quote_currency_multiplier = cmp_quote_currency_multiplier p,
      ds_signer_nonce = ucast (cmp_signer_nonce p), ds_fee_type = market_fee_type_code DefaultFees,
      ds_padding = (0, 0, 0, 0, 0, 0)\<rparr>"

definition create_market_aob_accounts :: "create_market_accounts \<Rightarrow> aob_accounts" where
  "create_market_aob_accounts a =
     \<lparr>aob_market = cma_orderbook a, aob_event_queue = cma_event_queue a, aob_bids = cma_bids a,
      aob_asks = cma_asks a\<rparr>"

definition create_market_process ::
    "externals \<Rightarrow> pubkey \<Rightarrow> account_info list \<Rightarrow> u8 list \<Rightarrow> ledger \<Rightarrow> ledger program_result" where
  "create_market_process env program_id accts instruction_data L =
     and_then (create_market_parse env program_id L accts) (\<lambda>a.
     and_then (check_rent env L a) (\<lambda>_.
     and_then (ok_or (try_from_bytes CREATE_MARKET_PARAMS_LEN create_market_params_of_bytes
       instruction_data) InvalidInstructionData) (\<lambda>p.
     if cmp_base_currency_multiplier p = 0 \<or> cmp_quote_currency_multiplier p = 0
       \<or> cmp_tick_size p = 0
     then prog_fail InvalidArgument
     else
     and_then (create_program_address env
       [pubkey_to_bytes (key (cma_market a)), [ucast (cmp_signer_nonce p)]] program_id)
       (\<lambda>market_signer.
     and_then (check_vault_account_and_get_mint env L (cma_base_vault a) market_signer) (\<lambda>base_mint.
     and_then (check_vault_account_and_get_mint env L (cma_quote_vault a) market_signer) (\<lambda>quote_mint.
     and_then (check_metadata_account env [] L (cma_token_metadata a) base_mint) (\<lambda>_.
     and_then (clock_unix_timestamp env) (\<lambda>current_timestamp.
     and_then (index_slice (data (L (key (cma_market a)))) 0) (\<lambda>first_byte.
     if first_byte \<noteq> ucast (account_tag_code Uninitialized) then prog_fail InvalidArgument
     else
     and_then (dex_state_get_unchecked (data (L (key (cma_market a))))) (\<lambda>_.
     and_then (borrow [key (cma_market a)] (cma_token_metadata a)) (\<lambda>_.
     and_then (create_market_royalties_bps env (L (key (cma_token_metadata a)))) (\<lambda>royalties_bps.
     let L = dex_state_put (key (cma_market a))
       (create_market_state p a base_mint quote_mint current_timestamp royalties_bps) L in
     and_then (div_or_panic (cmp_min_base_order_size p) (cmp_base_currency_multiplier p))
       (\<lambda>min_base_order_size.
     or_aob_error (aob_create_market env program_id (create_market_aob_accounts a)
       min_base_order_size (cmp_tick_size p) L))))))))))))))"

section \<open>Lemmas\<close>

interpretation create_market_params_codec:
  codec create_market_params_bytes create_market_params_of_bytes CREATE_MARKET_PARAMS_LEN
proof
  fix x :: create_market_params and bs :: "u8 list"
  show "length (create_market_params_bytes x) = CREATE_MARKET_PARAMS_LEN"
    by (simp add: create_market_params_bytes_def CREATE_MARKET_PARAMS_LEN_def
        create_market_params_layout_def struct_simps)
  show "create_market_params_of_bytes (create_market_params_bytes x) = x"
    unfolding create_market_params_bytes_def create_market_params_of_bytes_def
    by (subst split_fields_concat)
      (simp_all add: Let_def create_market_params_layout_def struct_simps)
  assume "length bs = CREATE_MARKET_PARAMS_LEN"
  then obtain xss where "map length xss = create_market_params_layout" and bs: "bs = concat xss"
    by (auto simp: CREATE_MARKET_PARAMS_LEN_def elim: bytes_split)
  then show "create_market_params_bytes (create_market_params_of_bytes bs) = bs"
    by (simp add: create_market_params_of_bytes_def split_fields_concat)
      (auto simp: create_market_params_bytes_def Let_def create_market_params_layout_def
        map_eq_Cons_conv struct_inverse)
qed

lemma check_vault_account_eq_Inr:
  "check_vault_account_and_get_mint env L v signer = Inr mint \<longleftrightarrow>
     (\<exists>acc. token_unpack env (data (L (key v))) = Inr acc \<and> ta_owner acc = signer \<and>
       ta_close_authority acc = None \<and> ta_delegate acc = None \<and> ta_mint acc = mint)"
  by (auto simp: check_vault_account_and_get_mint_def res_simps)

text \<open>
  The royalty rate that a metadata account asks for, in basis points: none without metadata or
  without creators, and otherwise the stated rate, provided the shares add up to 100.
\<close>

definition metadata_royalties :: "externals \<Rightarrow> account \<Rightarrow> nat \<Rightarrow> bool" where
  "metadata_royalties env acct bps =
     (if data acct = [] then bps = 0
      else case metadata_from_account_info env acct of
        Inl _ \<Rightarrow> False
      | Inr md \<Rightarrow>
          (case md_creators md of
             None \<Rightarrow> bps = 0
           | Some creators \<Rightarrow> sum_list (map cr_share creators) = 100 \<and>
               bps = unat (md_seller_fee_basis_points md)))"

lemma create_market_royalties_bps_metadata:
  "create_market_royalties_bps env acct = Inr bps \<Longrightarrow>
   metadata_royalties env acct (unat (ucast bps :: u64))"
  by (auto simp: create_market_royalties_bps_def metadata_royalties_def unat_ucast_widen res_simps
      split: if_splits option.splits sum.splits)

lemma create_market_processE:
  assumes "create_market_process env program_id accts (create_market_params_bytes p) L = Inr L'"
    and "create_market_parse env program_id L accts = Inr a"
  obtains signer base_mint quote_mint t bps where
    "cmp_base_currency_multiplier p \<noteq> 0" and "cmp_quote_currency_multiplier p \<noteq> 0"
    and "create_program_address env
       [pubkey_to_bytes (key (cma_market a)), [ucast (cmp_signer_nonce p)]] program_id = Inr signer"
    and "check_vault_account_and_get_mint env L (cma_base_vault a) signer = Inr base_mint"
    and "check_vault_account_and_get_mint env L (cma_quote_vault a) signer = Inr quote_mint"
    and "check_metadata_account env [] L (cma_token_metadata a) base_mint = Inr ()"
    and "data (L (key (cma_market a))) \<noteq> []" and "data (L (key (cma_market a))) ! 0 = 0"
    and "create_market_royalties_bps env (L (key (cma_token_metadata a))) = Inr bps"
    and "aob_create_market env program_id (create_market_aob_accounts a)
       (cmp_min_base_order_size p div cmp_base_currency_multiplier p) (cmp_tick_size p)
       (dex_state_put (key (cma_market a))
         (create_market_state p a base_mint quote_mint t bps) L) = Inr L'"
  using assms
  by (auto simp: create_market_process_def create_market_params_codec.try_from_bytes_enc Let_def
      res_simps simp del: check_metadata_account_eq_Inr)

section \<open>A concrete market\<close>

definition ex_create_ledger :: ledger where
  "ex_create_ledger = ex_ledger(3 := \<lparr>lamports = 1, data = replicate DEX_STATE_LEN 0, owner = 100\<rparr>,
     31 := \<lparr>lamports = 1, data = [1], owner = 30\<rparr>)"

definition ex_create_infos :: "account_info list" where
  "ex_create_infos = [ex_info 3 False, ex_info 4 False, ex_info 8 False, ex_info 9 False,
     ex_info 15 False, ex_info 5 False, ex_info 7 False, ex_info 6 False, ex_info 31 False]"

definition ex_create_params :: create_market_params where
  "ex_create_params =
     \<lparr>cmp_signer_nonce = 5, cmp_min_base_order_size = 10, cmp_tick_size = 1,
      cmp_base_currency_multiplier = 1, cmp_quote_currency_multiplier = 1\<rparr>"

definition ex_create_accounts :: create_market_accounts where
  "ex_create_accounts =
     \<lparr>cma_market = ex_info 3 False, cma_orderbook = ex_info 4 False,
      cma_base_vault = ex_info 8 False, cma_quote_vault = ex_info 9 False,
      cma_market_admin = ex_info 15 False, cma_event_queue = ex_info 5 False,
      cma_asks = ex_info 7 False, cma_bids = ex_info 6 False,
      cma_token_metadata = ex_info 31 False\<rparr>"

lemma ex_create_parse:
  "create_market_parse ex_plain_env 100 ex_create_ledger ex_create_infos = Inr ex_create_accounts"
  by (simp add: create_market_parse_def ex_create_infos_def ex_create_accounts_def
      ex_create_ledger_def ex_plain_env_def ex_env_def eval_defs)

lemma ex_create_runs:
  "\<exists>L'. create_market_process ex_plain_env 100 ex_create_infos
     (create_market_params_bytes ex_create_params) ex_create_ledger = Inr L'"
  by (simp add: create_market_process_def create_market_params_codec.try_from_bytes_enc
      ex_create_parse ex_create_accounts_def ex_create_params_def)
    (simp add: check_rent_def ex_plain_env_def ex_env_def ex_create_ledger_def
      check_vault_account_and_get_mint_def ex_token_account_def check_metadata_account_def
      index_slice_def dex_state_get_unchecked_def DEX_STATE_LEN_def dex_state_layout_def eval_defs
      create_market_royalties_bps_def verify_metadata_def Let_def)

section \<open>Properties\<close>

text \<open>
  C23: A market is created only in an account of the program whose tag byte is zero, with vaults
  that the market's signer owns and nobody else can spend from or close, with non-zero
  multipliers and with the royalty rate of the base token's metadata, whose shares must add up
  to 100 in eight bits; the market state that is written reads back as a valid market whose fees,
  royalties and volumes are zero and whose admin, order book, vaults and sizes are the ones given.
\<close>

theorem create_market_establishes:
  assumes "create_market_process env program_id accts (create_market_params_bytes p) L = Inr L'"
    and "create_market_parse env program_id L accts = Inr a"
  shows "\<exists>s L1 signer base quote.
    hd (data (L (key (cma_market a)))) = 0 \<and> owner (L (key (cma_market a))) = program_id \<and>
    dex_state_get L1 (key (cma_market a)) = Inr s \<and>
    (\<forall>k. k \<noteq> key (cma_market a) \<longrightarrow> L1 k = L k) \<and>
    aob_create_market env program_id (create_market_aob_accounts a)
      (ds_min_base_order_size s div ds_base_currency_multiplier s) (cmp_tick_size p) L1 = Inr L' \<and>
    create_program_address env (market_signer_seeds (cma_market a) s) program_id = Inr signer \<and>
    token_unpack env (data (L (ds_base_vault s))) = Inr base \<and>
    token_unpack env (data (L (ds_quote_vault s))) = Inr quote \<and>
    ta_owner base = signer \<and> ta_owner quote = signer \<and>
    ta_delegate base = None \<and> ta_delegate quote = None \<and>
    ta_close_authority base = None \<and> ta_close_authority quote = None \<and>
    ds_base_mint s = ta_mint base \<and> ds_quote_mint s = ta_mint quote \<and>
    key (cma_token_metadata a) = find_metadata_account env (ds_base_mint s) \<and>
    ds_base_currency_multiplier s \<noteq> 0 \<and> ds_quote_currency_multiplier s \<noteq> 0 \<and>
    ds_accumulated_fees s = 0 \<and> ds_accumulated_royalties s = 0 \<and>
    ds_base_volume s = 0 \<and> ds_quote_volume s = 0 \<and>
    ds_admin s = key (cma_market_admin a) \<and> ds_orderbook s = key (cma_orderbook a) \<and>
    ds_base_vault s = key (cma_base_vault a) \<and> ds_quote_vault s = key (cma_quote_vault a) \<and>
    ds_min_base_order_size s = cmp_min_base_order_size p \<and>
    ds_base_currency_multiplier s = cmp_base_currency_multiplier p \<and>
    ds_quote_currency_multiplier s = cmp_quote_currency_multiplier p \<and>
    metadata_royalties env (L (key (cma_token_metadata a))) (unat (ds_royalties_bps s))"
proof -
  have own: "owner (L (key (cma_market a))) = program_id"
    using assms(2) by (auto simp: create_market_parse_def res_simps)
  show ?thesis
  proof (rule create_market_processE [OF assms], goal_cases)
    case (1 signer base_mint quote_mint t bps)
    from 1(4,5) obtain base quote where
      base: "token_unpack env (data (L (key (cma_base_vault a)))) = Inr base" "ta_owner base = signer"
        "ta_close_authority base = None" "ta_delegate base = None" "ta_mint base = base_mint"
      and quote: "token_unpack env (data (L (key (cma_quote_vault a)))) = Inr quote" "ta_owner quote = signer"
        "ta_close_authority quote = None" "ta_delegate quote = None" "ta_mint quote = quote_mint"
      by (auto simp: check_vault_account_eq_Inr)
    let ?s = "create_market_state p a base_mint quote_mint t bps"
    have "market_valid ?s"
      by (simp add: create_market_state_def market_valid_def)
    then have get: "dex_state_get (dex_state_put (key (cma_market a)) ?s L) (key (cma_market a)) = Inr ?s"
      by (simp add: dex_state_get_written dex_state_put_def)
    note bps = create_market_royalties_bps_metadata [OF 1(9)]
    show ?thesis
      using own 1(1-3,6-8,10) base quote get bps
      by (intro exI [of _ ?s] exI [of _ "dex_state_put (key (cma_market a)) ?s L"]
          exI [of _ signer] exI [of _ base] exI [of _ quote])
        (simp add: create_market_state_def market_signer_seeds_def hd_conv_nth market.store_other
          check_metadata_account_eq_Inr)
  qed
qed

theorem create_market_establishes_witness:
  "\<exists>s L1 L'. create_market_process ex_plain_env 100 ex_create_infos
      (create_market_params_bytes ex_create_params) ex_create_ledger = Inr L' \<and>
    dex_state_get L1 3 = Inr s \<and> ds_base_currency_multiplier s \<noteq> 0 \<and> ds_base_volume s = 0"
proof -
  obtain L' where run: "create_market_process ex_plain_env 100 ex_create_infos
     (create_market_params_bytes ex_create_params) ex_create_ledger = Inr L'"
    using ex_create_runs by blast
  show ?thesis
    using run create_market_establishes [OF run ex_create_parse]
    by (auto simp: ex_create_accounts_def)
qed

end
