(* ===== verification/Initialize_Account.thy ===== *)
theory Initialize_Account
  imports Example_World
begin

text \<open>
  The instruction \<open>initialize_account\<close> (\<^verbatim>\<open>src/program/src/processor/initialize_account.rs\<close>): a
  user account for one owner and one market is allocated at its derived address, with room for
  the given number of orders.
\<close>

section \<open>Parameters and accounts\<close>

record initialize_account_params =
  iap_market :: pubkey
  iap_max_orders :: u64

definition INITIALIZE_ACCOUNT_PARAMS_LEN :: nat where
  "INITIALIZE_ACCOUNT_PARAMS_LEN = 40"

definition initialize_account_params_bytes :: "initialize_account_params \<Rightarrow> u8 list" where
  "initialize_account_params_bytes p =
     pubkey_to_bytes (iap_market p) @ to_le_bytes (iap_max_orders p)"

definition initialize_account_params_of_bytes :: "u8 list \<Rightarrow> initialize_account_params" where
  "initialize_account_params_of_bytes bs =
     \<lparr>iap_market = pubkey_from_bytes (take 32 bs), iap_max_orders = from_le_bytes (drop 32 bs)\<rparr>"

record initialize_account_accounts =
  iaa_system_program :: account_info
  iaa_user :: account_info
  iaa_user_owner :: account_info
  iaa_fee_payer :: account_info

definition initialize_account_parse ::
    "externals \<Rightarrow> ledger \<Rightarrow> account_info list \<Rightarrow> initialize_account_accounts program_result" where
  "initialize_account_parse env L accts =
     and_then (next_account_info accts) (\<lambda>(system_program, accts).
     and_then (next_account_info accts) (\<lambda>(user, accts).
     and_then (next_account_info accts) (\<lambda>(user_owner, accts).
     and_then (next_account_info accts) (\<lambda>(fee_payer, accts).
     and_then (check_signer user_owner) (\<lambda>_.
     and_then (question_mark (check_account_key system_program (system_program_id env)
       InvalidSystemProgramAccount)) (\<lambda>_.
     and_then (question_mark (check_account_owner L user (system_program_id env)
       InvalidStateAccountOwner)) (\<lambda>_.
     Inr \<lparr>iaa_system_program = system_program, iaa_user = user, iaa_user_owner = user_owner,
          iaa_fee_payer = fee_payer\<rparr>)))))))"

section \<open>The handler\<close>

definition user_account_space :: "u64 \<Rightarrow> u64 dex_result" where
  "user_account_space max_orders =
     ok_or (Option.bind (checked_mul max_orders (of_nat ORDER_LEN))
       (\<lambda>n. checked_add n (of_nat USER_ACCOUNT_HEADER_LEN))) NumericalOverflow"

definition initialize_account_process ::
    "externals \<Rightarrow> pubkey \<Rightarrow> account_info list \<Rightarrow> u8 list \<Rightarrow> ledger \<Rightarrow> ledger program_result" where
  "initialize_account_process env program_id accts instruction_data L =
     and_then (initialize_account_parse env L accts) (\<lambda>a.
     and_then (ok_or (try_from_bytes INITIALIZE_ACCOUNT_PARAMS_LEN
       initialize_account_params_of_bytes instruction_data) InvalidInstructionData) (\<lambda>p.
     let market_key_bytes = pubkey_to_bytes (iap_market p);
         owner_bytes = pubkey_to_bytes (key (iaa_user_owner a));
         (user_account_key, user_account_nonce) =
           find_program_address env [market_key_bytes, owner_bytes] program_id in
     if user_account_key \<noteq> key (iaa_user a) then prog_fail InvalidArgument
     else if iap_max_orders p = 0 then prog_fail InvalidArgument
     else
     and_then (question_mark (user_account_space (iap_max_orders p))) (\<lambda>space.
     and_then (rent_minimum_balance env space) (\<lambda>lamports.
     and_then (system_create_account env (key (iaa_fee_payer a)) (key (iaa_user a)) lamports space
       program_id [iaa_system_program a, iaa_fee_payer a, iaa_user a]
       [[market_key_bytes, owner_bytes, [user_account_nonce]]] L) (\<lambda>L.
     and_then (from_buffer_unchecked (data (L (key (iaa_user a))))) (\<lambda>u.
     Inr (user_account_put (key (iaa_user a))
       (u\<lparr>ua_header := user_account_header_new (iap_market p) (key (iaa_user_owner a))\<rparr>) L)))))))"

section \<open>Lemmas\<close>

interpretation initialize_account_params_codec:
  codec initialize_account_params_bytes initialize_account_params_of_bytes
    INITIALIZE_ACCOUNT_PARAMS_LEN
  by unfold_locales
    (simp_all add: initialize_account_params_bytes_def initialize_account_params_of_bytes_def
      INITIALIZE_ACCOUNT_PARAMS_LEN_def struct_simps struct_inverse)

lemma user_account_space_eq_Inr:
  "user_account_space n = Inr space \<longleftrightarrow> unat space = USER_ACCOUNT_HEADER_LEN + unat n * ORDER_LEN"
proof -
  have "user_account_space n = Inr space \<longleftrightarrow>
      (\<exists>k :: u64. unat k = unat n * 32 \<and> unat space = unat k + 152)"
    by (simp add: user_account_space_def res_simps bind_eq_Some_conv checked_simps ORDER_LEN_def
        USER_ACCOUNT_HEADER_LEN_def)
  also have "\<dots> \<longleftrightarrow> unat space = 152 + unat n * 32"
    using unat_u64 [of space] ex_u64 [of "unat n * 32"] by (auto, metis add.commute)
  finally show ?thesis
    by (simp add: USER_ACCOUNT_HEADER_LEN_def ORDER_LEN_def)
qed

lemma initialize_account_processE:
  assumes "initialize_account_process env program_id accts idata L = Inr L'"
  obtains a p nonce space lam L1 u where "initialize_account_parse env L accts = Inr a"
    and "idata = initialize_account_params_bytes p"
    and "find_program_address env
      [pubkey_to_bytes (iap_market p), pubkey_to_bytes (key (iaa_user_owner a))] program_id
      = (key (iaa_user a), nonce)"
    and "iap_max_orders p \<noteq> 0"
    and "user_account_space (iap_max_orders p) = Inr space"
    and "rent_minimum_balance env space = Inr lam"
    and "system_create_account env (key (iaa_fee_payer a)) (key (iaa_user a)) lam space
       program_id [iaa_system_program a, iaa_fee_payer a, iaa_user a]
       [[pubkey_to_bytes (iap_market p), pubkey_to_bytes (key (iaa_user_owner a)), [nonce]]] L = Inr L1"
    and "from_buffer_unchecked (data (L1 (key (iaa_user a)))) = Inr u"
    and "L' = user_account_put (key (iaa_user a))
       (u\<lparr>ua_header := user_account_header_new (iap_market p) (key (iaa_user_owner a))\<rparr>) L1"
  using assms
  by (auto simp: initialize_account_process_def Let_def res_simps
      initialize_account_params_codec.try_from_bytes_eq_Some case_prod_beta prod_eq_iff)

lemma length_orders_from_buffer:
  assumes "from_buffer_unchecked bs = Inr u"
  shows "length bs = USER_ACCOUNT_HEADER_LEN + ORDER_LEN * length (ua_orders u)"
proof -
  have "length (user_account_bytes u) = USER_ACCOUNT_HEADER_LEN + ORDER_LEN * length (ua_orders u)"
    by (simp add: user_account_bytes_def user_header_codec.length_enc order_codec.length_array)
  then show ?thesis
    by (simp add: user_account_bytes_from_buffer [OF assms])
qed

section \<open>A concrete initialisation\<close>

definition ex_init_infos :: "account_info list" where
  "ex_init_infos = [ex_info 2 False, ex_info 10 False, ex_info 12 True, ex_info 17 True]"

definition ex_init_params :: initialize_account_params where
  "ex_init_params = \<lparr>iap_market = 3, iap_max_orders = 2\<rparr>"

definition ex_init_ledger :: ledger where
  "ex_init_ledger k = \<lparr>lamports = 0, data = [], owner = 2\<rparr>"

lemma ex_init_runs:
  "\<exists>L'. initialize_account_process ex_plain_env 100 ex_init_infos
     (initialize_account_params_bytes ex_init_params) ex_init_ledger = Inr L'"
proof -
  have "user_account_space 2 = Inr 216"
    by (simp add: user_account_space_eq_Inr USER_ACCOUNT_HEADER_LEN_def ORDER_LEN_def)
  then show ?thesis
    by (simp add: initialize_account_process_def initialize_account_params_codec.try_from_bytes_enc
        initialize_account_parse_def ex_init_infos_def ex_init_params_def ex_init_ledger_def
        ex_plain_env_def ex_env_def eval_defs from_buffer_unchecked_def USER_ACCOUNT_HEADER_LEN_def
        ORDER_LEN_def)
qed

section \<open>Properties\<close>

text \<open>
  C24: Initialisation leaves at the derived address of market and owner a user account that can be
  loaded, belongs to that market and owner, holds no balance and no order, and has room for
  exactly the requested number of orders; the system program is only relied on to allocate the
  requested number of bytes.
\<close>

theorem initialize_account_creates:
  assumes "initialize_account_process env program_id accts (initialize_account_params_bytes p) L = Inr L'"
    and "initialize_account_parse env L accts = Inr a"
    and allocates: "\<And>payer k lam space own infos seeds K K'.
      system_create_account env payer k lam space own infos seeds K = Inr K' \<Longrightarrow>
      length (data (K' k)) = unat space"
    and "unat (iap_max_orders p) < 2 ^ 32"
  shows "fst (find_program_address env
      [pubkey_to_bytes (iap_market p), pubkey_to_bytes (key (iaa_user_owner a))] program_id)
      = key (iaa_user a) \<and>
    (\<exists>u. user_account_get L' (key (iaa_user a)) = Inr u \<and>
      uh_market (ua_header u) = iap_market p \<and> uh_owner (ua_header u) = key (iaa_user_owner a) \<and>
      position_of u = \<lparr>base_free = 0, base_locked = 0, quote_free = 0, quote_locked = 0\<rparr> \<and>
      orders_wf u \<and> open_orders u = [] \<and> order_capacity u = unat (iap_max_orders p) \<and>
      0 < order_capacity u)"
proof (rule initialize_account_processE [OF assms(1)], goal_cases)
  case (1 a' p' nonce space lam L1 u)
  from 1(1,2) assms(2) have eqs: "a' = a" "p' = p"
    by (simp_all add: initialize_account_params_codec.enc_inject)
  let ?u = "u\<lparr>ua_header := user_account_header_new (iap_market p) (key (iaa_user_owner a))\<rparr>"
  have "length (ua_orders u) = unat (iap_max_orders p)"
    using allocates [OF 1(7)] length_orders_from_buffer [OF 1(8)] 1(5)
    by (simp add: eqs user_account_space_eq_Inr USER_ACCOUNT_HEADER_LEN_def ORDER_LEN_def)
  moreover have "0 < unat (iap_max_orders p)"
    using 1(4) by (simp add: eqs unat_gt_0)
  moreover have "user_account_get L' (key (iaa_user a)) = Inr ?u"
    by (simp add: 1(9) eqs user_account_get_written user_account_put_def user_valid_def
        user_account_header_new_def)
  ultimately show ?thesis
    using 1(3) assms(4)
    by (auto simp: eqs orders_wf_def open_orders_def order_capacity_def position_of_def
        user_account_header_new_def)
qed

theorem initialize_account_creates_witness:
  "\<exists>L' u. initialize_account_process ex_plain_env 100 ex_init_infos
     (initialize_account_params_bytes ex_init_params) ex_init_ledger = Inr L' \<and>
   user_account_get L' 10 = Inr u \<and> order_capacity u = 2"
proof -
  obtain L' where run: "initialize_account_process ex_plain_env 100 ex_init_infos
     (initialize_account_params_bytes ex_init_params) ex_init_ledger = Inr L'"
    using ex_init_runs by blast
  obtain a where parse: "initialize_account_parse ex_plain_env ex_init_ledger ex_init_infos = Inr a"
    and "key (iaa_user a) = 10"
    by (simp add: initialize_account_parse_def ex_init_infos_def ex_plain_env_def ex_env_def
        ex_init_ledger_def eval_defs)
  moreover have "\<And>payer k lam space own infos seeds K K'.
      system_create_account ex_plain_env payer k lam space own infos seeds K = Inr K' \<Longrightarrow>
      length (data (K' k)) = unat space"
    by (auto simp: ex_plain_env_def ex_env_def split: if_splits)
  ultimately show ?thesis
    using initialize_account_creates [OF run parse] run
    by (auto simp: ex_init_params_def)
qed

end
