(* ===== verification/Close_Account.thy ===== *)
theory Close_Account
  imports Example_World
begin

text \<open>
  The instruction \<open>close_account\<close> (\<^verbatim>\<open>src/program/src/processor/close_account.rs\<close>): an empty user
  account is marked closed and its lamports are returned.
\<close>

section \<open>Accounts\<close>

record close_account_accounts =
  caa_user :: account_info
  caa_user_owner :: account_info
  caa_target_lamports_account :: account_info

definition close_account_parse ::
    "pubkey \<Rightarrow> ledger \<Rightarrow> account_info list \<Rightarrow> close_account_accounts program_result" where
  "close_account_parse program_id L accts =
     and_then (next_account_info accts) (\<lambda>(user, accts).
     and_then (next_account_info accts) (\<lambda>(user_owner, accts).
     and_then (next_account_info accts) (\<lambda>(target_lamports_account, accts).
     and_then (check_signer user_owner) (\<lambda>_.
     and_then (question_mark (check_account_owner L user program_id InvalidStateAccountOwner)) (\<lambda>_.
     Inr \<lparr>caa_user = user, caa_user_owner = user_owner,
          caa_target_lamports_account = target_lamports_account\<rparr>)))))"

section \<open>The handler\<close>

definition close_account_process ::
    "pubkey \<Rightarrow> account_info list \<Rightarrow> ledger \<Rightarrow> ledger program_result" where
  "close_account_process program_id accts L =
     and_then (close_account_parse program_id L accts) (\<lambda>a.
     and_then (from_buffer (data (L (key (caa_user a))))) (\<lambda>u.
     let h = ua_header u in
     if uh_owner h \<noteq> key (caa_user_owner a) then prog_fail InvalidArgument
     else if uh_number_of_orders h \<noteq> 0 \<or> uh_quote_token_free h \<noteq> 0 \<or> uh_base_token_free h \<noteq> 0
     then dex_fail UserAccountStillActive
     else drain_lamports (caa_user a) (caa_target_lamports_account a)
       (user_account_put (key (caa_user a))
         (u\<lparr>ua_header := h\<lparr>uh_tag := account_tag_code Closed\<rparr>\<rparr>) L)))"

section \<open>Lemmas\<close>

lemma close_account_processE:
  assumes "close_account_process program_id accts L = Inr L'"
  obtains a u where "close_account_parse program_id L accts = Inr a"
    and "user_account_get L (key (caa_user a)) = Inr u"
    and "uh_owner (ua_header u) = key (caa_user_owner a)"
    and "uh_number_of_orders (ua_header u) = 0" and "uh_quote_token_free (ua_header u) = 0"
    and "uh_base_token_free (ua_header u) = 0"
    and "drain_lamports (caa_user a) (caa_target_lamports_account a)
       (user_account_put (key (caa_user a))
         (u\<lparr>ua_header := (ua_header u)\<lparr>uh_tag := account_tag_code Closed\<rparr>\<rparr>) L) = Inr L'"
  using assms by (auto simp: close_account_process_def user_account_get_def Let_def res_simps)

section \<open>A concrete closure\<close>

definition ex_idle_user :: user_account where
  "ex_idle_user = \<lparr>ua_header = user_account_header_new 3 12, ua_orders = []\<rparr>"

definition ex_close_ledger :: ledger where
  "ex_close_ledger = put_data 10 (user_account_bytes ex_idle_user) ex_ledger"

definition ex_close_infos :: "account_info list" where
  "ex_close_infos = [ex_info 10 False, ex_info 12 True, ex_info 18 False]"

lemma ex_close_load: "user_account_get ex_close_ledger 10 = Inr ex_idle_user"
  by (rule user_account_get_written)
    (simp_all add: ex_close_ledger_def ex_idle_user_def user_valid_def user_account_header_new_def)

lemma ex_close_runs: "\<exists>L'. close_account_process 100 ex_close_infos ex_close_ledger = Inr L'"
  using ex_close_load
  by (simp add: close_account_process_def close_account_parse_def ex_close_infos_def
      user_account_get_def eval_defs drain_lamports_def)
    (simp add: ex_close_ledger_def ex_idle_user_def user_account_header_new_def drain_lamports_def Let_def)

section \<open>Properties\<close>

text \<open>
  C25: A user account is closed only by its signing owner and only without open orders and without
  free balances; afterwards loading it is an error, so no instruction can use it again, its
  lamports are in the target account, and no other account has changed.
\<close>

theorem close_account_closes:
  assumes "close_account_process program_id accts L = Inr L'"
    and "close_account_parse program_id L accts = Inr a"
  defines "k \<equiv> key (caa_user a)" and "t \<equiv> key (caa_target_lamports_account a)"
  shows "\<exists>u. user_account_get L k = Inr u \<and> is_signer (caa_user_owner a) \<and>
    uh_owner (ua_header u) = key (caa_user_owner a) \<and> open_orders u = [] \<and>
    base_free (position_of u) = 0 \<and> quote_free (position_of u) = 0 \<and>
    user_account_get L' k = prog_fail InvalidAccountData \<and>
    lamports (L' k) = 0 \<and> lamports (L' t) = lamports (L t) + lamports (L k) \<and>
    (\<forall>j. j \<noteq> k \<and> j \<noteq> t \<longrightarrow> L' j = L j)"
proof (rule close_account_processE [OF assms(1)], goal_cases)
  case (1 a' u)
  from 1(1) assms(2) have a: "a' = a" by simp
  let ?u = "u\<lparr>ua_header := (ua_header u)\<lparr>uh_tag := account_tag_code Closed\<rparr>\<rparr>"
  note drain = drain_lamports_eq_Inr [OF 1(7) [unfolded a]]
  have signer: "is_signer (caa_user_owner a)"
    using assms(2) by (auto simp: close_account_parse_def res_simps)
  have "user_account_get L' k = user_account_get (user_account_put k ?u L) k"
    using drain(4) by (intro user.load_cong) (simp add: k_def)
  also have "\<dots> = prog_fail InvalidAccountData"
    using 1(2) by (intro user.load_store_invalid) (simp_all add: k_def a user_valid_def)
  finally show ?thesis
    using 1(2-6) drain(1-3,6) signer
    by (intro exI [of _ u])
      (auto simp: a k_def t_def open_orders_def position_of_def Let_def user.store_lamports user.store_other)
qed

theorem close_account_closes_witness:
  "\<exists>L'. close_account_process 100 ex_close_infos ex_close_ledger = Inr L' \<and>
     user_account_get L' 10 = prog_fail InvalidAccountData"
proof -
  obtain L' where run: "close_account_process 100 ex_close_infos ex_close_ledger = Inr L'"
    using ex_close_runs by blast
  obtain a where parse: "close_account_parse 100 ex_close_ledger ex_close_infos = Inr a"
    and "key (caa_user a) = 10"
    by (simp add: close_account_parse_def ex_close_infos_def eval_defs)
      (simp add: ex_close_ledger_def)
  then show ?thesis
    using close_account_closes [OF run parse] run by auto
qed

end
