(* ===== verification/Close_Market.thy ===== *)
theory Close_Market
  imports Example_World
begin

text \<open>
  The instruction \<open>close_market\<close> (\<^verbatim>\<open>src/program/src/processor/close_market.rs\<close>): the admin of a
  market closes its order book and its vaults, marks the market account closed and collects the
  lamports.
\<close>

section \<open>Accounts\<close>

record close_market_accounts =
  clma_market :: account_info
  clma_base_vault :: account_info
  clma_quote_vault :: account_info
  clma_orderbook :: account_info
  clma_event_queue :: account_info
  clma_bids :: account_info
  clma_asks :: account_info
  clma_market_admin :: account_info
  clma_target_lamports_account :: account_info
  clma_market_signer :: account_info
  clma_spl_token_program :: account_info

definition close_market_parse ::
    "externals \<Rightarrow> pubkey \<Rightarrow> ledger \<Rightarrow> account_info list \<Rightarrow> close_market_accounts program_result" where
  "close_market_parse env program_id L accts =
     and_then (next_account_info accts) (\<lambda>(market, accts).
     and_then (next_account_info accts) (\<lambda>(base_vault, accts).
     and_then (next_account_info accts) (\<lambda>(quote_vault, accts).
     and_then (next_account_info accts) (\<lambda>(orderbook, accts).
     and_then (next_account_info accts) (\<lambda>(event_queue, accts).
     and_then (next_account_info accts) (\<lambda>(bids, accts).
     and_then (next_account_info accts) (\<lambda>(asks, accts).
     and_then (next_account_info accts) (\<lambda>(market_admin, accts).
     and_then (next_account_info accts) (\<lambda>(target_lamports_account, accts).
     and_then (next_account_info accts) (\<lambda>(market_signer, accts).
     and_then (next_account_info accts) (\<lambda>(spl_token_program, accts).
     and_then (question_mark
       (check_account_key spl_token_program (spl_token_id env) InvalidStateAccountOwner)) (\<lambda>_.
     and_then (question_mark (check_account_owner L market program_id InvalidStateAccountOwner)) (\<lambda>_.
     and_then (check_signer market_admin) (\<lambda>_.
     Inr \<lparr>clma_market = market, clma_base_vault = base_vault, clma_quote_vault = quote_vault,
          clma_orderbook = orderbook, clma_event_queue = event_queue, clma_bids = bids,
          clma_asks = asks, clma_market_admin = market_admin,
          clma_target_lamports_account = target_lamports_account,
          clma_market_signer = market_signer,
          clma_spl_token_program = spl_token_program\<rparr>))))))))))))))"

definition close_market_check_accounts ::
    "externals \<Rightarrow> pubkey \<Rightarrow> dex_state \<Rightarrow> close_market_accounts \<Rightarrow> unit program_result" where
  "close_market_check_accounts env program_id s a =
     and_then (create_program_address env (market_signer_seeds (clma_market a) s) program_id)
       (\<lambda>market_signer.
     and_then (question_mark (check_account_key (clma_market_signer a) market_signer
       InvalidMarketSignerAccount)) (\<lambda>_.
     and_then (question_mark (check_account_key (clma_orderbook a) (ds_orderbook s)
       InvalidOrderbookAccount)) (\<lambda>_.
     and_then (question_mark (check_account_key (clma_market_admin a) (ds_admin s)
       InvalidMarketAdminAccount)) (\<lambda>_.
     and_then (question_mark (check_account_key (clma_base_vault a) (ds_base_vault s)
       InvalidBaseVaultAccount)) (\<lambda>_.
     and_then (question_mark (check_account_key (clma_quote_vault a) (ds_quote_vault s)
       InvalidQuoteVaultAccount)) (\<lambda>_.
     Inr ()))))))"

section \<open>The handler\<close>

definition close_market_vault_cpi ::
    "externals \<Rightarrow> close_market_accounts \<Rightarrow> dex_state \<Rightarrow> account_info \<Rightarrow> cpi" where
  "close_market_vault_cpi env a s vault =
     \<lparr>cpi_program = spl_token_id env,
      cpi_instruction = CloseTokenAccount (key vault) (key (clma_market a))
        (key (clma_market_signer a)),
      cpi_accounts = [clma_spl_token_program a, vault, clma_market a, clma_market_signer a],
      cpi_signers_seeds = [market_signer_seeds (clma_market a) s]\<rparr>"

definition close_market_aob_accounts :: "close_market_accounts \<Rightarrow> aob_accounts" where
  "close_market_aob_accounts a =
     \<lparr>aob_market = clma_orderbook a, aob_event_queue = clma_event_queue a, aob_bids = clma_bids a,
      aob_asks = clma_asks a\<rparr>"

definition close_market_process ::
    "externals \<Rightarrow> pubkey \<Rightarrow> account_info list \<Rightarrow> ledger \<Rightarrow> ledger program_result" where
  "close_market_process env program_id accts L =
     and_then (close_market_parse env program_id L accts) (\<lambda>a.
     and_then (dex_state_get L (key (clma_market a))) (\<lambda>s.
     and_then (unwrap_result (close_market_check_accounts env program_id s a)) (\<lambda>_.
     and_then (borrow [key (clma_market a)] (clma_base_vault a)) (\<lambda>_.
     and_then (token_unpack_from_slice env (data (L (key (clma_base_vault a))))) (\<lambda>base_vault_data.
     and_then (borrow [key (clma_market a)] (clma_quote_vault a)) (\<lambda>_.
     and_then (token_unpack_from_slice env (data (L (key (clma_quote_vault a))))) (\<lambda>quote_vault_data.
     if ta_amount base_vault_data \<noteq> 0 \<and> ta_amount quote_vault_data \<noteq> 0
     then dex_fail MarketStillActive
     else if ds_accumulated_fees s \<noteq> 0 then dex_fail MarketStillActive
     else
     and_then (or_aob_error (aob_close_market env program_id (close_market_aob_accounts a)
       (clma_target_lamports_account a) L)) (\<lambda>L.
     let L = dex_state_put (key (clma_market a)) (s\<lparr>ds_tag := account_tag_code Closed\<rparr>) L in
     and_then (token_invoke env program_id (close_market_vault_cpi env a s (clma_base_vault a)) L) (\<lambda>L.
     and_then (token_invoke env program_id (close_market_vault_cpi env a s (clma_quote_vault a)) L) (\<lambda>L.
     drain_lamports (clma_market a) (clma_target_lamports_account a) L))))))))))"

section \<open>Lemmas\<close>

lemma close_market_check_accounts_eq_Inr [res_simps]:
  "close_market_check_accounts env program_id s a = Inr x \<longleftrightarrow>
     create_program_address env (market_signer_seeds (clma_market a) s) program_id
       = Inr (key (clma_market_signer a)) \<and>
     key (clma_orderbook a) = ds_orderbook s \<and> key (clma_market_admin a) = ds_admin s \<and>
     key (clma_base_vault a) = ds_base_vault s \<and> key (clma_quote_vault a) = ds_quote_vault s"
  by (auto simp: close_market_check_accounts_def res_simps)

lemma close_market_processE:
  assumes "close_market_process env program_id accts L = Inr L'"
    and "close_market_parse env program_id L accts = Inr a"
  obtains s b q L1 L2 L3 where "dex_state_get L (key (clma_market a)) = Inr s"
    and "close_market_check_accounts env program_id s a = Inr ()"
    and "token_unpack_from_slice env (data (L (key (clma_base_vault a)))) = Inr b"
    and "token_unpack_from_slice env (data (L (key (clma_quote_vault a)))) = Inr q"
    and "ta_amount b = 0 \<or> ta_amount q = 0" and "ds_accumulated_fees s = 0"
    and "aob_close_market env program_id (close_market_aob_accounts a)
       (clma_target_lamports_account a) L = Inr L1"
    and "token_invoke env program_id (close_market_vault_cpi env a s (clma_base_vault a))
       (dex_state_put (key (clma_market a)) (s\<lparr>ds_tag := account_tag_code Closed\<rparr>) L1) = Inr L2"
    and "token_invoke env program_id (close_market_vault_cpi env a s (clma_quote_vault a)) L2 = Inr L3"
    and "drain_lamports (clma_market a) (clma_target_lamports_account a) L3 = Inr L'"
  using assms
  by (auto simp: close_market_process_def Let_def res_simps
      simp del: close_market_check_accounts_eq_Inr)

lemma close_market_borrows:
  assumes "close_market_process env program_id accts L = Inr L'"
    and "close_market_parse env program_id L accts = Inr a"
  shows "key (clma_base_vault a) \<noteq> key (clma_market a)"
    and "key (clma_quote_vault a) \<noteq> key (clma_market a)"
  using assms
  by (auto simp: close_market_process_def Let_def res_simps
      simp del: close_market_check_accounts_eq_Inr)

section \<open>A concrete closure\<close>

text \<open>A market without fees; the base vault is empty and the quote vault holds 500 tokens.\<close>

definition ex_closing_market :: dex_state where
  "ex_closing_market = ex_market\<lparr>ds_accumulated_fees := 0\<rparr>"

definition ex_closing_ledger :: ledger where
  "ex_closing_ledger =
     (dex_state_put 3 ex_closing_market ex_ledger)(9 := \<lparr>lamports = 1, data = [9], owner = 1\<rparr>)"

definition ex_closing_env :: externals where
  "ex_closing_env = ex_plain_env\<lparr>token_unpack_from_slice := (\<lambda>bs.
     Inr (if bs = [9] then ex_token_account\<lparr>ta_amount := 500\<rparr> else ex_token_account))\<rparr>"

definition ex_closing_infos :: "account_info list" where
  "ex_closing_infos = [ex_info 3 False, ex_info 8 False, ex_info 9 False, ex_info 4 False,
     ex_info 5 False, ex_info 6 False, ex_info 7 False, ex_info 15 True, ex_info 18 False,
     ex_info 13 False, ex_info 1 False]"

definition ex_closing_accounts :: close_market_accounts where
  "ex_closing_accounts =
     \<lparr>clma_market = ex_info 3 False, clma_base_vault = ex_info 8 False,
      clma_quote_vault = ex_info 9 False, clma_orderbook = ex_info 4 False,
      clma_event_queue = ex_info 5 False, clma_bids = ex_info 6 False, clma_asks = ex_info 7 False,
      clma_market_admin = ex_info 15 True, clma_target_lamports_account = ex_info 18 False,
      clma_market_signer = ex_info 13 False, clma_spl_token_program = ex_info 1 False\<rparr>"

lemma ex_closing_load: "dex_state_get ex_closing_ledger 3 = Inr ex_closing_market"
  by (rule dex_state_get_written [where rest = "drop DEX_STATE_LEN (data (ex_ledger 3))"])
    (simp_all add: ex_closing_ledger_def dex_state_put_def ex_closing_market_def market_valid_def
      ex_market_def)

lemma ex_closing_parse:
  "close_market_parse ex_closing_env 100 ex_closing_ledger ex_closing_infos = Inr ex_closing_accounts"
  by (simp add: close_market_parse_def ex_closing_infos_def ex_closing_accounts_def
      ex_closing_env_def ex_plain_env_def ex_env_def ex_closing_ledger_def eval_defs
      market.store_owner)

lemma ex_closing_runs:
  "\<exists>L'. close_market_process ex_closing_env 100 ex_closing_infos ex_closing_ledger = Inr L'"
  by (simp add: close_market_process_def ex_closing_parse ex_closing_accounts_def ex_closing_load)
    (simp add: close_market_check_accounts_def ex_closing_env_def ex_plain_env_def ex_env_def
      ex_closing_market_def ex_market_def eval_defs drain_lamports_def ex_closing_ledger_def
      market.store_other ex_ledger_def ex_token_account_def Let_def)

section \<open>Properties\<close>

text \<open>
  C26: Only the signing admin of a market can close it, and only when no fees are left and one of
  its vaults is empty. Afterwards the market account is an error to load for every instruction,
  provided the order book changes no owner of an account and the token program changes neither
  data nor owner of an account of this program.
\<close>

theorem close_market_closes:
  assumes "close_market_process env program_id accts L = Inr L'"
    and "close_market_parse env program_id L accts = Inr a"
    and aob_keeps_owner: "\<And>acc t K K' k. aob_close_market env program_id acc t K = Inr K' \<Longrightarrow>
      owner (K' k) = owner (K k)"
    and token_keeps_data: "\<And>c K K' k. token_invoke env program_id c K = Inr K' \<Longrightarrow>
      owner (K k) = program_id \<Longrightarrow> data (K' k) = data (K k) \<and> owner (K' k) = program_id"
  shows "\<exists>s b q. dex_state_get L (key (clma_market a)) = Inr s \<and>
    is_signer (clma_market_admin a) \<and> key (clma_market_admin a) = ds_admin s \<and>
    token_unpack_from_slice env (data (L (ds_base_vault s))) = Inr b \<and>
    token_unpack_from_slice env (data (L (ds_quote_vault s))) = Inr q \<and>
    (ta_amount b = 0 \<or> ta_amount q = 0) \<and> ds_accumulated_fees s = 0 \<and>
    dex_state_get L' (key (clma_market a)) = prog_fail InvalidAccountData"
proof (rule close_market_processE [OF assms(1,2)], goal_cases)
  case (1 s b q L1 L2 L3)
  let ?k = "key (clma_market a)" and ?s = "s\<lparr>ds_tag := account_tag_code Closed\<rparr>"
  have own: "owner (L ?k) = program_id" and signer: "is_signer (clma_market_admin a)"
    using assms(2) by (auto simp: close_market_parse_def res_simps)
  have "owner (dex_state_put ?k ?s L1 ?k) = program_id"
    using aob_keeps_owner [OF 1(7)] own by (simp add: market.store_owner)
  from token_keeps_data [OF 1(8) this] token_keeps_data [OF 1(9)] drain_lamports_eq_Inr(4) [OF 1(10)]
  have "data (L' ?k) = data (dex_state_put ?k ?s L1 ?k)"
    by simp
  then have "data (L' ?k) = dex_state_bytes ?s @ drop DEX_STATE_LEN (data (L1 ?k))"
    by (simp add: dex_state_put_def)
  then have "dex_state_get L' ?k = prog_fail InvalidAccountData"
    by (simp add: dex_state_get_def dex_state_get_unchecked_def dex_state_codec.length_enc
        dex_state_codec.dec_enc)
  with 1(1-6) signer show ?thesis
    by (intro exI [of _ s] exI [of _ b] exI [of _ q]) (simp add: res_simps)
qed

theorem close_market_closes_witness:
  "\<exists>L'. close_market_process ex_closing_env 100 ex_closing_infos ex_closing_ledger = Inr L' \<and>
     dex_state_get L' 3 = prog_fail InvalidAccountData"
proof -
  obtain L' where run: "close_market_process ex_closing_env 100 ex_closing_infos ex_closing_ledger = Inr L'"
    using ex_closing_runs by blast
  show ?thesis
  proof (rule exE [OF close_market_closes [OF run ex_closing_parse]], goal_cases)
    case (3 s)
    with run show ?thesis by (auto simp: ex_closing_accounts_def)
  qed (simp_all add: ex_closing_env_def ex_plain_env_def ex_env_def)
qed

text \<open>
  C37: The handler only tests the two vault balances together, but no market is closed while one of
  its vaults holds tokens of a mint other than the native one: the attempt is an error, because
  the token program, to which the vault belongs, refuses to close such an account. Relied on: that refusal, that closing one
  token account changes the data of no other account, and that closing the order book changes no
  data of an account that does not belong to the program.
\<close>

theorem close_market_refuses_tokens:
  assumes "close_market_parse env program_id L accts = Inr a"
    and "vault = clma_base_vault a \<or> vault = clma_quote_vault a"
    and foreign: "owner (L (key vault)) \<noteq> program_id"
    and vault: "token_unpack_from_slice env (data (L (key vault))) = Inr t" "ta_amount t \<noteq> 0"
      "ta_mint t \<noteq> native_mint"
    and token_refuses: "\<And>c K acct dest auth u. cpi_instruction c = CloseTokenAccount acct dest auth \<Longrightarrow>
      token_unpack_from_slice env (data (K acct)) = Inr u \<Longrightarrow> ta_amount u \<noteq> 0 \<Longrightarrow>
      ta_mint u \<noteq> native_mint \<Longrightarrow> \<exists>e. token_invoke env program_id c K = Inl e"
    and token_keeps_others: "\<And>c K K' acct dest auth k. token_invoke env program_id c K = Inr K' \<Longrightarrow>
      cpi_instruction c = CloseTokenAccount acct dest auth \<Longrightarrow> k \<noteq> acct \<Longrightarrow> data (K' k) = data (K k)"
    and aob_keeps_foreign: "\<And>acc target K K' k. aob_close_market env program_id acc target K = Inr K' \<Longrightarrow>
      owner (K k) \<noteq> program_id \<Longrightarrow> data (K' k) = data (K k)"
  shows "\<exists>e. close_market_process env program_id accts L = Inl e"
proof (cases "close_market_process env program_id accts L")
  case (Inr L')
  then show ?thesis
  proof (rule close_market_processE [OF _ assms(1)], goal_cases)
    case (1 s b q L1 L2 L3)
    let ?K = "dex_state_put (key (clma_market a)) (s\<lparr>ds_tag := account_tag_code Closed\<rparr>) L1"
    let ?cpi = "close_market_vault_cpi env a s"
    have instr: "cpi_instruction (?cpi v)
      = CloseTokenAccount (key v) (key (clma_market a)) (key (clma_market_signer a))" for v
      by (simp add: close_market_vault_cpi_def)
    have refused: "\<exists>e. token_invoke env program_id (?cpi v) K = Inl e"
      if "key v = key vault" and "data (K (key vault)) = data (L (key vault))" for v K
      using token_refuses [OF instr] vault that by simp
    have "key vault \<noteq> key (clma_market a)"
      using close_market_borrows [OF Inr] assms(1,2) by auto
    then have start: "data (?K (key vault)) = data (L (key vault))"
      using aob_keeps_foreign [OF 1(7) foreign] by (simp add: market.store_other)
    have "key vault \<noteq> key (clma_base_vault a)"
      using refused [of "clma_base_vault a" ?K] start 1(8) by auto
    with token_keeps_others [OF 1(8) instr] start
    have "data (L2 (key vault)) = data (L (key vault))" and "vault = clma_quote_vault a"
      using assms(2) by auto
    with refused [of "clma_quote_vault a" L2] 1(9) show ?case by auto
  qed
qed blast

text \<open>A token program that keeps an account open while it holds tokens.\<close>

definition ex_refusing_env :: externals where
  "ex_refusing_env = ex_closing_env\<lparr>token_invoke := (\<lambda>_ c L.
     case cpi_instruction c of
       CloseTokenAccount acct _ _ \<Rightarrow>
         if data (L acct) = [9] then prog_fail InvalidAccountData else Inr L
     | _ \<Rightarrow> Inr L)\<rparr>"

lemma ex_refusing_parse:
  "close_market_parse ex_refusing_env 100 ex_closing_ledger ex_closing_infos = Inr ex_closing_accounts"
  using ex_closing_parse by (simp add: close_market_parse_def ex_refusing_env_def)

theorem close_market_refuses_tokens_witness:
  "\<exists>s q e. dex_state_get ex_closing_ledger 3 = Inr s \<and>
     token_unpack_from_slice ex_refusing_env (data (ex_closing_ledger (ds_quote_vault s))) = Inr q \<and>
     ta_amount q = 500 \<and>
     close_market_process ex_refusing_env 100 ex_closing_infos ex_closing_ledger = Inl e"
proof -
  have "\<exists>e. close_market_process ex_refusing_env 100 ex_closing_infos ex_closing_ledger = Inl e"
    by (rule close_market_refuses_tokens [OF ex_refusing_parse, where vault = "ex_info 9 False"
          and t = "ex_token_account\<lparr>ta_amount := 500\<rparr>" and native_mint = 77])
      (auto simp: ex_refusing_env_def ex_closing_env_def ex_plain_env_def ex_env_def
        ex_closing_accounts_def ex_closing_ledger_def ex_token_account_def split: if_splits)
  then show ?thesis
    using ex_closing_load
    by (auto simp: ex_closing_market_def ex_refusing_env_def ex_closing_env_def ex_market_def
        ex_closing_ledger_def)
qed

end
