(* ===== verification/Update_Royalties.thy ===== *)
theory Update_Royalties
  imports Example_World Metadata_Checks
begin

text \<open>
  The instruction \<open>update_royalties\<close> (\<^verbatim>\<open>src/program/src/processor/update_royalties.rs\<close>): the royalty
  rate of a market is taken over from the token's metadata while no fill is waiting in the event
  queue. The account checks are those of the crate \<open>bonfida_utils\<close>.
\<close>

section \<open>Accounts\<close>

record update_royalties_accounts =
  ura_market :: account_info
  ura_event_queue :: account_info
  ura_orderbook :: account_info
  ura_token_metadata :: account_info

definition update_royalties_parse ::
    "externals \<Rightarrow> pubkey \<Rightarrow> ledger \<Rightarrow> account_info list \<Rightarrow> update_royalties_accounts program_result" where
  "update_royalties_parse env program_id L accts =
     and_then (next_account_info accts) (\<lambda>(market, accts).
     and_then (next_account_info accts) (\<lambda>(event_queue, accts).
     and_then (next_account_info accts) (\<lambda>(orderbook, accts).
     and_then (next_account_info accts) (\<lambda>(token_metadata, accts).
     and_then (bonfida_check_account_owner env (L (key market)) program_id) (\<lambda>_.
     and_then (bonfida_check_account_owner env (L (key orderbook)) program_id) (\<lambda>_.
     and_then (bonfida_check_account_owner env (L (key event_queue)) program_id) (\<lambda>_.
     Inr \<lparr>ura_market = market, ura_event_queue = event_queue, ura_orderbook = orderbook,
          ura_token_metadata = token_metadata\<rparr>)))))))"

section \<open>The handler\<close>

definition update_royalties_process ::
    "externals \<Rightarrow> pubkey \<Rightarrow> account_info list \<Rightarrow> ledger \<Rightarrow> ledger program_result" where
  "update_royalties_process env program_id accts L =
     and_then (update_royalties_parse env program_id L accts) (\<lambda>a.
     and_then (dex_state_get L (key (ura_market a))) (\<lambda>s.
     and_then (borrow [key (ura_market a)] (ura_orderbook a)) (\<lambda>_.
     and_then (market_state_from_buffer env (data (L (key (ura_orderbook a))))) (\<lambda>aob_state.
     and_then (check_metadata_account env [key (ura_market a), key (ura_orderbook a)] L
       (ura_token_metadata a) (ds_base_mint s)) (\<lambda>_.
     and_then (bonfida_check_account_key env (ura_orderbook a) (ds_orderbook s)) (\<lambda>_.
     if aobm_event_queue aob_state \<noteq> key (ura_event_queue a) then dex_fail EventQueueMismatch
     else
     and_then (borrow [key (ura_market a), key (ura_orderbook a)] (ura_event_queue a)) (\<lambda>_.
     and_then (event_queue_from_buffer env (data (L (key (ura_event_queue a))))) (\<lambda>event_queue.
     if event_queue \<noteq> [] then dex_fail EventQueueMustBeEmpty
     else
     and_then (metadata_from_account_info env (L (key (ura_token_metadata a)))) (\<lambda>metadata.
     and_then (unwrap (md_creators metadata)) (\<lambda>creators.
     and_then (verify_metadata creators) (\<lambda>_.
     Inr (dex_state_put (key (ura_market a))
       (s\<lparr>ds_royalties_bps := ucast (md_seller_fee_basis_points metadata)\<rparr>) L))))))))))))"

section \<open>A concrete update\<close>

definition ex_royalties_infos :: "account_info list" where
  "ex_royalties_infos = [ex_info 3 False, ex_info 5 False, ex_info 4 False, ex_info 31 False]"

definition ex_royalties_accounts :: update_royalties_accounts where
  "ex_royalties_accounts =
     \<lparr>ura_market = ex_info 3 False, ura_event_queue = ex_info 5 False,
      ura_orderbook = ex_info 4 False, ura_token_metadata = ex_info 31 False\<rparr>"

lemma ex_royalties_parse:
  "update_royalties_parse ex_plain_env 100 ex_ledger ex_royalties_infos = Inr ex_royalties_accounts"
  by (simp add: update_royalties_parse_def ex_royalties_infos_def ex_royalties_accounts_def
      ex_plain_env_def ex_env_def)

lemma ex_royalties_runs:
  "\<exists>L'. update_royalties_process ex_plain_env 100 ex_royalties_infos ex_ledger = Inr L'"
  by (simp add: update_royalties_process_def ex_royalties_parse ex_royalties_accounts_def)
    (simp add: ex_plain_env_def ex_env_def ex_market_def check_metadata_account_def eval_defs
      verify_metadata_def ex_ledger_def)

section \<open>Properties\<close>

text \<open>
  C27: The royalty rate changes only while the event queue of the market's own order book is empty,
  only to the rate in the metadata of the market's base token, whose creators' shares add up to
  100 in eight bits, and nothing else of the market or of any other account changes. The helper
  crate's key check is relied on to accept only an account with the key it is given.
\<close>

theorem update_royalties_from_metadata:
  assumes "update_royalties_process env program_id accts L = Inr L'"
    and "update_royalties_parse env program_id L accts = Inr a"
    and "dex_state_get L (key (ura_market a)) = Inr s"
    and key_check: "\<And>acct k. bonfida_check_account_key env acct k = Inr () \<Longrightarrow> key acct = k"
  shows "\<exists>aob md creators.
    market_state_from_buffer env (data (L (ds_orderbook s))) = Inr aob \<and>
    event_queue_from_buffer env (data (L (aobm_event_queue aob))) = Inr [] \<and>
    metadata_from_account_info env (L (find_metadata_account env (ds_base_mint s))) = Inr md \<and>
    md_creators md = Some creators \<and> sum_list (map cr_share creators) = 100 \<and>
    dex_state_get L' (key (ura_market a))
      = Inr (s\<lparr>ds_royalties_bps := ucast (md_seller_fee_basis_points md)\<rparr>) \<and>
    (\<forall>k. k \<noteq> key (ura_market a) \<longrightarrow> L' k = L k)"
proof -
  from assms(1-3) obtain aob md creators where
    "market_state_from_buffer env (data (L (key (ura_orderbook a)))) = Inr aob"
    and "bonfida_check_account_key env (ura_orderbook a) (ds_orderbook s) = Inr ()"
    and "aobm_event_queue aob = key (ura_event_queue a)"
    and "event_queue_from_buffer env (data (L (key (ura_event_queue a)))) = Inr []"
    and "check_metadata_account env [key (ura_market a), key (ura_orderbook a)] L
       (ura_token_metadata a) (ds_base_mint s) = Inr ()"
    and "metadata_from_account_info env (L (key (ura_token_metadata a))) = Inr md"
    and "md_creators md = Some creators" and "sum_list (map cr_share creators) = 100"
    and L': "L' = dex_state_put (key (ura_market a))
       (s\<lparr>ds_royalties_bps := ucast (md_seller_fee_basis_points md)\<rparr>) L"
    by (auto simp: update_royalties_process_def res_simps simp del: check_metadata_account_eq_Inr)
  moreover have "market_valid (s\<lparr>ds_royalties_bps := ucast (md_seller_fee_basis_points md)\<rparr>)"
    using market.load_valid [OF assms(3)] by (simp add: market_valid_def)
  ultimately show ?thesis
    using assms(3) key_check [of "ura_orderbook a" "ds_orderbook s"]
    by (intro exI [of _ aob] exI [of _ md] exI [of _ creators])
      (simp add: market.load_store market.store_other check_metadata_account_eq_Inr)
qed

theorem update_royalties_from_metadata_witness:
  "\<exists>L'. update_royalties_process ex_plain_env 100 ex_royalties_infos ex_ledger = Inr L' \<and>
     dex_state_get L' 3 = Inr (ex_market\<lparr>ds_royalties_bps := 250\<rparr>)"
proof -
  obtain L' where run: "update_royalties_process ex_plain_env 100 ex_royalties_infos ex_ledger = Inr L'"
    using ex_royalties_runs by blast
  have key: "\<And>acct k. bonfida_check_account_key ex_plain_env acct k = Inr () \<Longrightarrow> key acct = k"
    by (auto simp: ex_plain_env_def ex_env_def split: if_splits)
  have load: "dex_state_get ex_ledger (key (ura_market ex_royalties_accounts)) = Inr ex_market"
    by (simp add: ex_royalties_accounts_def)
  from update_royalties_from_metadata [OF run ex_royalties_parse load key] run show ?thesis
    by (auto simp: ex_royalties_accounts_def ex_plain_env_def ex_env_def)
qed

end
