(* ===== verification/Processor.thy ===== *)
theory Processor
  imports New_Order Swap Consume_Events Cancel_Order Settle Sweep_Fees Create_Market
    Initialize_Account Close_Account Close_Market Update_Royalties
begin

text \<open>
  The dispatch of instructions (\<^verbatim>\<open>src/program/src/processor.rs\<close>,
  \<^verbatim>\<open>src/program/src/entrypoint.rs\<close>) and the numbering of the instructions
  (\<^verbatim>\<open>src/program/src/instruction_auto.rs\<close>).
\<close>

section \<open>Instructions\<close>

datatype dex_instruction =
    CreateMarket
  | NewOrder
  | SwapTokens
  | CancelOrder
  | ConsumeEvents
  | SettleAccount
  | InitializeAccount
  | SweepFees
  | CloseAccount
  | CloseMarket
  | UpdateRoyalties

definition dex_instruction_variants :: "dex_instruction list" where
  "dex_instruction_variants =
     [CreateMarket, NewOrder, SwapTokens, CancelOrder, ConsumeEvents, SettleAccount,
      InitializeAccount, SweepFees, CloseAccount, CloseMarket, UpdateRoyalties]"

definition dex_instruction_code :: "dex_instruction \<Rightarrow> u8" where
  "dex_instruction_code i = of_nat (variant_index i dex_instruction_variants)"

definition dex_instruction_from_u8 :: "u8 \<Rightarrow> dex_instruction option" where
  "dex_instruction_from_u8 n =
     (if unat n < length dex_instruction_variants then Some (dex_instruction_variants ! unat n)
      else None)"

section \<open>Dispatch\<close>

definition INSTRUCTION_TAG_OFFSET :: nat where
  "INSTRUCTION_TAG_OFFSET = 8"

definition processor_process_instruction ::
    "externals \<Rightarrow> pubkey \<Rightarrow> account_info list \<Rightarrow> u8 list \<Rightarrow> ledger \<Rightarrow> ledger program_result" where
  "processor_process_instruction env program_id accts instruction_data L =
     and_then (index_slice instruction_data 0) (\<lambda>tag.
     and_then (ok_or (dex_instruction_from_u8 tag) InvalidInstructionData) (\<lambda>instruction_tag.
     and_then (ensure (INSTRUCTION_TAG_OFFSET \<le> length instruction_data) Panic) (\<lambda>_.
     let instruction_data = drop INSTRUCTION_TAG_OFFSET instruction_data in
     case instruction_tag of
       CreateMarket \<Rightarrow> create_market_process env program_id accts instruction_data L
     | NewOrder \<Rightarrow> new_order_process env program_id accts instruction_data L
     | SwapTokens \<Rightarrow> swap_process env program_id accts instruction_data L
     | ConsumeEvents \<Rightarrow> consume_events_process env program_id accts instruction_data L
     | CancelOrder \<Rightarrow> cancel_order_process env program_id accts instruction_data L
     | SettleAccount \<Rightarrow> settle_process env program_id accts L
     | InitializeAccount \<Rightarrow> initialize_account_process env program_id accts instruction_data L
     | SweepFees \<Rightarrow> sweep_fees_process env program_id accts L
     | CloseAccount \<Rightarrow> close_account_process program_id accts L
     | CloseMarket \<Rightarrow> close_market_process env program_id accts L
     | UpdateRoyalties \<Rightarrow> update_royalties_process env program_id accts L)))"

text \<open>The entrypoint prints the error and returns it.\<close>

definition process_instruction ::
    "externals \<Rightarrow> pubkey \<Rightarrow> account_info list \<Rightarrow> u8 list \<Rightarrow> ledger \<Rightarrow> ledger program_result" where
  "process_instruction env program_id accts instruction_data L =
     processor_process_instruction env program_id accts instruction_data L"

section \<open>Lemmas\<close>

lemma dex_instruction_code_roundtrip: "dex_instruction_from_u8 (dex_instruction_code i) = Some i"
  by (cases i)
    (simp_all add: dex_instruction_from_u8_def dex_instruction_code_def dex_instruction_variants_def)

lemma dex_instruction_from_u8_eq_Some:
  "dex_instruction_from_u8 n = Some i \<longleftrightarrow> n = dex_instruction_code i"
proof
  assume some: "dex_instruction_from_u8 n = Some i"
  then have "unat n < 11" and i: "i = dex_instruction_variants ! unat n"
    by (auto simp: dex_instruction_from_u8_def dex_instruction_variants_def split: if_splits)
  then have "variant_index i dex_instruction_variants = unat n"
    by (auto simp: dex_instruction_variants_def less_Suc_eq numeral_eq_Suc)
  then show "n = dex_instruction_code i"
    by (simp add: dex_instruction_code_def)
qed (simp add: dex_instruction_code_roundtrip)

text \<open>An instruction's data: its tag, seven bytes of padding and the parameters.\<close>

definition instruction_bytes :: "dex_instruction \<Rightarrow> u8 list \<Rightarrow> u8 list \<Rightarrow> u8 list" where
  "instruction_bytes i padding params = dex_instruction_code i # padding @ params"

lemma process_instruction_bytes:
  assumes "length padding = 7"
  shows "process_instruction env program_id accts (instruction_bytes i padding params) L =
    (case i of
       CreateMarket \<Rightarrow> create_market_process env program_id accts params L
     | NewOrder \<Rightarrow> new_order_process env program_id accts params L
     | SwapTokens \<Rightarrow> swap_process env program_id accts params L
     | ConsumeEvents \<Rightarrow> consume_events_process env program_id accts params L
     | CancelOrder \<Rightarrow> cancel_order_process env program_id accts params L
     | SettleAccount \<Rightarrow> settle_process env program_id accts L
     | InitializeAccount \<Rightarrow> initialize_account_process env program_id accts params L
     | SweepFees \<Rightarrow> sweep_fees_process env program_id accts L
     | CloseAccount \<Rightarrow> close_account_process program_id accts L
     | CloseMarket \<Rightarrow> close_market_process env program_id accts L
     | UpdateRoyalties \<Rightarrow> update_royalties_process env program_id accts L)"
  using assms
  by (simp add: process_instruction_def processor_process_instruction_def instruction_bytes_def
      index_slice_def dex_instruction_code_roundtrip INSTRUCTION_TAG_OFFSET_def drop_Cons')

section \<open>Properties\<close>

text \<open>
  C28: Instruction data is accepted only if it starts with the tag of an instruction, seven bytes of
  padding and, for the instructions with parameters, exactly the bytes of their parameters; every
  other input is an error or a panic, so no two different parameter values share an encoding.
\<close>

theorem process_instruction_decodes:
  assumes "process_instruction env program_id accts idata L = Inr L'"
  shows "\<exists>i padding params. idata = instruction_bytes i padding params \<and> length padding = 7 \<and>
    (case i of
       CreateMarket \<Rightarrow> \<exists>!p. params = create_market_params_bytes p
     | NewOrder \<Rightarrow> \<exists>!p. params = new_order_params_bytes p
     | SwapTokens \<Rightarrow> \<exists>!p. params = swap_params_bytes p
     | ConsumeEvents \<Rightarrow> \<exists>!p. params = consume_events_params_bytes p
     | CancelOrder \<Rightarrow> \<exists>!p. params = cancel_order_params_bytes p
     | InitializeAccount \<Rightarrow> \<exists>!p. params = initialize_account_params_bytes p
     | _ \<Rightarrow> True)"
proof -
  from assms obtain i where len: "8 \<le> length idata" and tag: "idata ! 0 = dex_instruction_code i"
    by (auto simp: process_instruction_def processor_process_instruction_def res_simps
        dex_instruction_from_u8_eq_Some INSTRUCTION_TAG_OFFSET_def)
  let ?pad = "take 7 (drop 1 idata)" and ?params = "drop 8 idata"
  have pad: "length ?pad = 7"
    using len by simp
  have "idata = idata ! 0 # drop 1 idata"
    using len by (cases idata) auto
  also have "drop 1 idata = ?pad @ ?params"
    using append_take_drop_id [of 7 "drop 1 idata", symmetric] by simp
  finally have idata: "idata = instruction_bytes i ?pad ?params"
    by (simp add: instruction_bytes_def tag)
  show ?thesis
  proof (intro exI conjI)
    show "idata = instruction_bytes i ?pad ?params" by (rule idata)
    show "length ?pad = 7" by (rule pad)
    from assms have "process_instruction env program_id accts (instruction_bytes i ?pad ?params) L = Inr L'"
      using idata by simp
    then show "case i of
       CreateMarket \<Rightarrow> \<exists>!p. ?params = create_market_params_bytes p
     | NewOrder \<Rightarrow> \<exists>!p. ?params = new_order_params_bytes p
     | SwapTokens \<Rightarrow> \<exists>!p. ?params = swap_params_bytes p
     | ConsumeEvents \<Rightarrow> \<exists>!p. ?params = consume_events_params_bytes p
     | CancelOrder \<Rightarrow> \<exists>!p. ?params = cancel_order_params_bytes p
     | InitializeAccount \<Rightarrow> \<exists>!p. ?params = initialize_account_params_bytes p
     | _ \<Rightarrow> True"
      unfolding process_instruction_bytes [OF pad]
      by (cases i)
        (auto simp: create_market_process_def new_order_process_def swap_process_def
          consume_events_process_def cancel_order_process_def initialize_account_process_def
          create_market_params_codec.try_from_bytes_eq_Some
          new_order_params_codec.try_from_bytes_eq_Some swap_params_codec.try_from_bytes_eq_Some
          consume_events_params_codec.try_from_bytes_eq_Some cancel_order_params_checked_eq_Some
          initialize_account_params_codec.try_from_bytes_eq_Some
          create_market_params_codec.enc_inject new_order_params_codec.enc_inject
          swap_params_codec.enc_inject consume_events_params_codec.enc_inject
          initialize_account_params_codec.enc_inject cancel_order_params_bytes_inject and_then_eq_Inr ok_or_eq_Inr)
  qed
qed

theorem process_instruction_decodes_witness:
  "\<exists>L' i padding params. process_instruction ex_plain_env 100 ex_settle_infos
       (instruction_bytes SettleAccount [0, 0, 0, 0, 0, 0, 0] []) ex_ledger = Inr L' \<and>
     instruction_bytes SettleAccount [0, 0, 0, 0, 0, 0, 0] [] = instruction_bytes i padding params \<and>
     length padding = 7"
proof -
  obtain L' where "settle_process ex_plain_env 100 ex_settle_infos ex_ledger = Inr L'"
    using ex_settle_runs by blast
  then have run: "process_instruction ex_plain_env 100 ex_settle_infos
      (instruction_bytes SettleAccount [0, 0, 0, 0, 0, 0, 0] []) ex_ledger = Inr L'"
    by (subst process_instruction_bytes) simp_all
  show ?thesis
    using process_instruction_decodes [OF run] run by blast
qed

end
