(* ===== verification/Instructions.thy ===== *)
theory Instructions
  imports Processor
begin

text \<open>
  The builders of instructions (\<^verbatim>\<open>src/program/src/instruction_auto.rs\<close>). Each hands its accounts and
  parameters to \<open>get_instruction_cast\<close>, which a derive macro of the crate \<open>bonfida-utils\<close>
  generates for the accounts structure; it is an argument of the builders, and what is relied on
  is that it puts the tag first, pads it to eight bytes and appends the bytes of the parameters.
\<close>

section \<open>Instructions\<close>

record account_meta =
  am_pubkey :: pubkey
  am_is_signer :: bool
  am_is_writable :: bool

record instruction =
  ins_program_id :: pubkey
  ins_accounts :: "account_meta list"
  ins_data :: "u8 list"

type_synonym ('a, 'p) instruction_cast = "'a \<Rightarrow> pubkey \<Rightarrow> u8 \<Rightarrow> 'p \<Rightarrow> instruction"

text \<open>The structure \<open>Params\<close> of five instructions has no field.\<close>

definition no_params_bytes :: "unit \<Rightarrow> u8 list" where
  "no_params_bytes params = []"

section \<open>Builders\<close>

definition create_market_instruction ::
    "('a, create_market_params) instruction_cast \<Rightarrow> pubkey \<Rightarrow> 'a \<Rightarrow> create_market_params \<Rightarrow> instruction" where
  "create_market_instruction get_instruction_cast program_id accounts params =
     get_instruction_cast accounts program_id (dex_instruction_code CreateMarket) params"

definition new_order_instruction ::
    "('a, new_order_params) instruction_cast \<Rightarrow> pubkey \<Rightarrow> 'a \<Rightarrow> new_order_params \<Rightarrow> instruction" where
  "new_order_instruction get_instruction_cast program_id accounts params =
     get_instruction_cast accounts program_id (dex_instruction_code NewOrder) params"

definition swap_instruction ::
    "('a, swap_params) instruction_cast \<Rightarrow> pubkey \<Rightarrow> 'a \<Rightarrow> swap_params \<Rightarrow> instruction" where
  "swap_instruction get_instruction_cast program_id accounts params =
     get_instruction_cast accounts program_id (dex_instruction_code SwapTokens) params"

definition cancel_order_instruction ::
    "('a, cancel_order_params) instruction_cast \<Rightarrow> pubkey \<Rightarrow> 'a \<Rightarrow> cancel_order_params \<Rightarrow> instruction" where
  "cancel_order_instruction get_instruction_cast program_id accounts params =
     get_instruction_cast accounts program_id (dex_instruction_code CancelOrder) params"

definition consume_events_instruction ::
    "('a, consume_events_params) instruction_cast \<Rightarrow> pubkey \<Rightarrow> 'a \<Rightarrow> consume_events_params \<Rightarrow> instruction" where
  "consume_events_instruction get_instruction_cast program_id accounts params =
     get_instruction_cast accounts program_id (dex_instruction_code ConsumeEvents) params"

definition settle_instruction ::
    "('a, unit) instruction_cast \<Rightarrow> pubkey \<Rightarrow> 'a \<Rightarrow> unit \<Rightarrow> instruction" where
  "settle_instruction get_instruction_cast program_id accounts params =
     get_instruction_cast accounts program_id (dex_instruction_code SettleAccount) params"

definition initialize_account_instruction ::
    "('a, initialize_account_params) instruction_cast \<Rightarrow> pubkey \<Rightarrow> 'a \<Rightarrow> initialize_account_params \<Rightarrow> instruction" where
  "initialize_account_instruction get_instruction_cast program_id accounts params =
     get_instruction_cast accounts program_id (dex_instruction_code InitializeAccount) params"

definition sweep_fees_instruction ::
    "('a, unit) instruction_cast \<Rightarrow> pubkey \<Rightarrow> 'a \<Rightarrow> unit \<Rightarrow> instruction" where
  "sweep_fees_instruction get_instruction_cast program_id accounts params =
     get_instruction_cast accounts program_id (dex_instruction_code SweepFees) params"

definition close_account_instruction ::
    "('a, unit) instruction_cast \<Rightarrow> pubkey \<Rightarrow> 'a \<Rightarrow> unit \<Rightarrow> instruction" where
  "close_account_instruction get_instruction_cast program_id accounts params =
     get_instruction_cast accounts program_id (dex_instruction_code CloseAccount) params"

definition close_market_instruction ::
    "('a, unit) instruction_cast \<Rightarrow> pubkey \<Rightarrow> 'a \<Rightarrow> unit \<Rightarrow> instruction" where
  "close_market_instruction get_instruction_cast program_id accounts params =
     get_instruction_cast accounts program_id (dex_instruction_code CloseMarket) params"

definition update_royalties_instruction ::
    "('a, unit) instruction_cast \<Rightarrow> pubkey \<Rightarrow> 'a \<Rightarrow> unit \<Rightarrow> instruction" where
  "update_royalties_instruction get_instruction_cast program_id accounts params =
     get_instruction_cast accounts program_id (dex_instruction_code UpdateRoyalties) params"

text \<open>What the generated code promises.\<close>

definition casts_params :: "('p \<Rightarrow> u8 list) \<Rightarrow> ('a, 'p) instruction_cast \<Rightarrow> bool" where
  "casts_params bytes get_instruction_cast \<longleftrightarrow>
     (\<forall>accounts program_id tag params.
        ins_program_id (get_instruction_cast accounts program_id tag params) = program_id \<and>
        ins_data (get_instruction_cast accounts program_id tag params) = tag # replicate 7 0 @ bytes params)"

lemma casts_params_data:
  "casts_params bytes f \<Longrightarrow>
   ins_data (f accounts program_id (dex_instruction_code i) params)
     = instruction_bytes i (replicate 7 0) (bytes params)"
  by (simp add: casts_params_def instruction_bytes_def)

lemmas builder_defs =
  create_market_instruction_def new_order_instruction_def swap_instruction_def
  cancel_order_instruction_def consume_events_instruction_def settle_instruction_def
  initialize_account_instruction_def sweep_fees_instruction_def close_account_instruction_def
  close_market_instruction_def update_royalties_instruction_def

lemma built_data:
  assumes "casts_params bytes f"
  shows "process_instruction env program_id infos
      (ins_data (f accounts program_id' (dex_instruction_code i) params)) L
    = process_instruction env program_id infos (instruction_bytes i (replicate 7 0) (bytes params)) L"
  by (simp add: casts_params_data [OF assms])

section \<open>Properties\<close>

text \<open>
  C29: The data of an instruction that a builder has made reaches, through the entry point, the handler
  of that very instruction with exactly the bytes of its parameters, for all eleven instructions.
\<close>

theorem built_instructions_dispatch:
  assumes "casts_params create_market_params_bytes f1"
    and "casts_params new_order_params_bytes f2"
    and "casts_params swap_params_bytes f3"
    and "casts_params cancel_order_params_bytes f4"
    and "casts_params consume_events_params_bytes f5"
    and "casts_params no_params_bytes f6"
    and "casts_params initialize_account_params_bytes f7"
    and "casts_params no_params_bytes f8"
    and "casts_params no_params_bytes f9"
    and "casts_params no_params_bytes f10"
    and "casts_params no_params_bytes f11"
  shows "process_instruction env program_id infos
      (ins_data (create_market_instruction f1 program_id a1 p1)) L
      = create_market_process env program_id infos (create_market_params_bytes p1) L \<and>
    process_instruction env program_id infos
      (ins_data (new_order_instruction f2 program_id a2 p2)) L
      = new_order_process env program_id infos (new_order_params_bytes p2) L \<and>
    process_instruction env program_id infos
      (ins_data (swap_instruction f3 program_id a3 p3)) L
      = swap_process env program_id infos (swap_params_bytes p3) L \<and>
    process_instruction env program_id infos
      (ins_data (cancel_order_instruction f4 program_id a4 p4)) L
      = cancel_order_process env program_id infos (cancel_order_params_bytes p4) L \<and>
    process_instruction env program_id infos
      (ins_data (consume_events_instruction f5 program_id a5 p5)) L
      = consume_events_process env program_id infos (consume_events_params_bytes p5) L \<and>
    process_instruction env program_id infos
      (ins_data (settle_instruction f6 program_id a6 p6)) L
      = settle_process env program_id infos L \<and>
    process_instruction env program_id infos
      (ins_data (initialize_account_instruction f7 program_id a7 p7)) L
      = initialize_account_process env program_id infos (initialize_account_params_bytes p7) L \<and>
    process_instruction env program_id infos
      (ins_data (sweep_fees_instruction f8 program_id a8 p8)) L
      = sweep_fees_process env program_id infos L \<and>
    process_instruction env program_id infos
      (ins_data (close_account_instruction f9 program_id a9 p9)) L
      = close_account_process program_id infos L \<and>
    process_instruction env program_id infos
      (ins_data (close_market_instruction f10 program_id a10 p10)) L
      = close_market_process env program_id infos L \<and>
    process_instruction env program_id infos
      (ins_data (update_royalties_instruction f11 program_id a11 p11)) L
      = update_royalties_process env program_id infos L"
  unfolding builder_defs
  by (intro conjI; subst built_data, rule assms, subst process_instruction_bytes) simp_all

text \<open>A cast that lists no accounts.\<close>

definition ex_cast :: "('p \<Rightarrow> u8 list) \<Rightarrow> (unit, 'p) instruction_cast" where
  "ex_cast bytes accounts program_id tag params =
     \<lparr>ins_program_id = program_id, ins_accounts = [], ins_data = tag # replicate 7 0 @ bytes params\<rparr>"

lemma ex_cast_ok: "casts_params bytes (ex_cast bytes)"
  by (simp add: casts_params_def ex_cast_def)

theorem built_instructions_dispatch_witness:
  "\<exists>L'. process_instruction ex_plain_env 100 ex_settle_infos
     (ins_data (settle_instruction (ex_cast no_params_bytes) 100 () ())) ex_ledger = Inr L'"
  using built_instructions_dispatch [OF ex_cast_ok ex_cast_ok ex_cast_ok ex_cast_ok ex_cast_ok ex_cast_ok
      ex_cast_ok ex_cast_ok ex_cast_ok ex_cast_ok ex_cast_ok, of ex_plain_env 100 ex_settle_infos]
    ex_settle_runs
  by simp

end
