(* ===== verification/Crank_Loop.thy ===== *)
theory Crank_Loop
  imports Cranker Instructions
begin

text \<open>
  The crank as a whole (\<^verbatim>\<open>src/cranker/src/lib.rs\<close>, \<open>Context\<close>): reading the market and its order book,
  and the endless loop that reads the event queue, builds a \<open>consume_events\<close> instruction and sends
  it. The node, the signing of transactions, the layout of the order book's accounts and the code
  generated for the accounts structure are the fields of \<open>crank_client\<close>.
\<close>

section \<open>Events as the queue stores them\<close>

definition CALLBACK_INFO_LEN :: u64 where
  "CALLBACK_INFO_LEN = 33"

definition CALLBACK_ID_LEN :: u64 where
  "CALLBACK_ID_LEN = 32"

datatype queued_event =
    QueuedFill fill_event "u8 list" "u8 list"
  | QueuedOut out_event bool "u8 list"

text \<open>The Borsh encoding of \<open>CallBackInfo\<close>; decoding reads a prefix and fails when it is too short.\<close>

definition callback_info_bytes :: "callback_info \<Rightarrow> u8 list" where
  "callback_info_bytes info = pubkey_to_bytes (cb_user_account info) @ [cb_fee_tier info]"

definition callback_info_deserialize :: "u8 list \<Rightarrow> callback_info option" where
  "callback_info_deserialize bs =
     (if length bs < 33 then None
      else Some \<lparr>cb_user_account = pubkey_from_bytes (take 32 bs), cb_fee_tier = bs ! 32\<rparr>)"

fun queued_event_account :: "queued_event \<Rightarrow> pubkey option" where
  "queued_event_account (QueuedFill ev maker taker) =
     map_option cb_user_account (callback_info_deserialize maker)"
| "queued_event_account (QueuedOut ev delete info) =
     map_option cb_user_account (callback_info_deserialize info)"

section \<open>The client\<close>

record crank_accounts =
  cra_market :: pubkey
  cra_orderbook :: pubkey
  cra_event_queue :: pubkey
  cra_reward_target :: pubkey
  cra_user_accounts :: "pubkey list"

datatype commitment_level = Processed | Confirmed | Finalized

record send_transaction_config =
  skip_preflight :: bool
  preflight_commitment :: "commitment_level option"

record ('key, 'tx) crank_client =
  get_account_data :: "pubkey \<Rightarrow> client_error + u8 list"
  get_recent_blockhash :: "client_error + u8 list"
  send_transaction_with_config :: "'tx \<Rightarrow> send_transaction_config \<Rightarrow> client_error + u8 list"
  keypair_pubkey :: "'key \<Rightarrow> pubkey"
  transaction_new_with_payer :: "instruction list \<Rightarrow> pubkey option \<Rightarrow> 'tx"
  transaction_partial_sign :: "'key list \<Rightarrow> u8 list \<Rightarrow> 'tx \<Rightarrow> 'tx"
  event_queue_iter :: "u8 list \<Rightarrow> u64 \<Rightarrow> queued_event list option"
  MARKET_STATE_LEN :: nat
  market_state_event_queue :: "u8 list \<Rightarrow> pubkey option"
  consume_events_cast :: "(crank_accounts, consume_events_params) instruction_cast"

record 'key crank_context =
  ctx_program_id :: pubkey
  ctx_market :: pubkey
  ctx_reward_target :: pubkey
  ctx_fee_payer :: 'key
  ctx_endpoint :: string

text \<open>A failed request is the error of the caller; \<open>&data[..n]\<close> panics when the data is shorter.\<close>

definition client_result :: "client_error + 'a \<Rightarrow> (client_error, 'a) result" where
  "client_result r = (case r of Inl e \<Rightarrow> Inl (Err e) | Inr x \<Rightarrow> Inr x)"

definition slice_to :: "'a list \<Rightarrow> nat \<Rightarrow> ('e, 'a list) result" where
  "slice_to xs n = (if n \<le> length xs then Inr (take n xs) else Inl Panic)"

section \<open>One pass\<close>

definition crank_instruction ::
    "('key, 'tx) crank_client \<Rightarrow> 'key crank_context \<Rightarrow> pubkey \<Rightarrow> dex_state \<Rightarrow> pubkey list \<Rightarrow> instruction" where
  "crank_instruction c ctx event_queue market_state user_accounts =
     consume_events_instruction (consume_events_cast c) (ctx_program_id ctx)
       \<lparr>cra_market = ctx_market ctx, cra_orderbook = ds_orderbook market_state,
        cra_event_queue = event_queue, cra_reward_target = ctx_reward_target ctx,
        cra_user_accounts = user_accounts\<rparr>
       crank_params"

definition crank_send_config :: send_transaction_config where
  "crank_send_config = \<lparr>skip_preflight = False, preflight_commitment = Some Processed\<rparr>"

definition consume_events_iteration ::
    "('key, 'tx) crank_client \<Rightarrow> 'key crank_context \<Rightarrow> pubkey \<Rightarrow> dex_state \<Rightarrow> (client_error, u8 list) result" where
  "consume_events_iteration c ctx event_queue market_state =
     and_then (client_result (get_account_data c event_queue)) (\<lambda>event_queue_data.
     and_then (unwrap (event_queue_iter c event_queue_data CALLBACK_INFO_LEN)) (\<lambda>events.
     and_then (unwrap (those (map queued_event_account events))) (\<lambda>user_accounts.
     let user_accounts = crank_pack_accounts user_accounts;
         consume_events_instruction = crank_instruction c ctx event_queue market_state user_accounts;
         transaction = transaction_new_with_payer c [consume_events_instruction]
           (Some (keypair_pubkey c (ctx_fee_payer ctx)))
     in
     and_then (client_result (get_recent_blockhash c)) (\<lambda>recent_blockhash.
     let transaction = transaction_partial_sign c [ctx_fee_payer ctx] recent_blockhash transaction in
     client_result (send_transaction_with_config c transaction crank_send_config)))))"

section \<open>The crank\<close>

text \<open>Reading the market and the event queue of its order book, once, before the loop; every failure panics.\<close>

definition crank_setup ::
    "('key, 'tx) crank_client \<Rightarrow> 'key crank_context \<Rightarrow> (client_error, dex_state \<times> pubkey) result" where
  "crank_setup c ctx =
     and_then (unwrap_result (client_result (get_account_data c (ctx_market ctx)))) (\<lambda>market_state_data.
     and_then (slice_to market_state_data DEX_STATE_LEN) (\<lambda>bs.
     and_then (unwrap (try_from_bytes DEX_STATE_LEN dex_state_of_bytes bs)) (\<lambda>market_state.
     and_then (unwrap_result (client_result (get_account_data c (ds_orderbook market_state)))) (\<lambda>orderbook_data.
     and_then (slice_to orderbook_data (MARKET_STATE_LEN c)) (\<lambda>bs.
     and_then (unwrap (market_state_event_queue c bs)) (\<lambda>event_queue.
     Inr (market_state, event_queue)))))))"

text \<open>
  The first \<open>n\<close> passes of the endless loop: the result of each pass is printed and the loop goes
  on, unless the pass panics. The node answers differently at every pass, so the client of pass
  \<open>i\<close> is \<open>cs (Suc i)\<close>, and the one that reads the market is \<open>cs 0\<close>.
\<close>

fun crank_passes ::
    "(nat \<Rightarrow> (client_error, u8 list) result) \<Rightarrow> nat \<Rightarrow> (client_error, (client_error + u8 list) list) result" where
  "crank_passes pass 0 = Inr []"
| "crank_passes pass (Suc n) =
     and_then (crank_passes pass n) (\<lambda>printed.
     case pass n of
       Inl Panic \<Rightarrow> Inl Panic
     | Inl (Err e) \<Rightarrow> Inr (printed @ [Inl e])
     | Inr signature \<Rightarrow> Inr (printed @ [Inr signature]))"

definition crank ::
    "(nat \<Rightarrow> ('key, 'tx) crank_client) \<Rightarrow> 'key crank_context \<Rightarrow> nat \<Rightarrow>
     (client_error, (client_error + u8 list) list) result" where
  "crank cs ctx n =
     and_then (crank_setup (cs 0) ctx) (\<lambda>(market_state, event_queue).
     crank_passes (\<lambda>i. consume_events_iteration (cs (Suc i)) ctx event_queue market_state) n)"

section \<open>Lemmas\<close>

lemma client_result_eq [simp]:
  "client_result r = Inr x \<longleftrightarrow> r = Inr x"
  "client_result r = Inl e \<longleftrightarrow> (\<exists>x. r = Inl x \<and> e = Err x)"
  by (auto simp: client_result_def split: sum.splits)

lemma length_callback_info_bytes: "length (callback_info_bytes info) = unat CALLBACK_INFO_LEN"
  by (simp add: callback_info_bytes_def pubkey_codec.length_enc CALLBACK_INFO_LEN_def)

lemma callback_info_deserialize_bytes:
  "callback_info_deserialize (callback_info_bytes info @ rest) = Some info"
  by (simp add: callback_info_deserialize_def callback_info_bytes_def pubkey_codec.length_enc
      pubkey_codec.dec_enc nth_append)

text \<open>
  How the queue stores a decoded event; an order that left the book may or may not have been
  deleted from it.
\<close>

fun queued_as :: "queued_event \<Rightarrow> event \<Rightarrow> bool" where
  "queued_as (QueuedFill ev maker taker) (Fill ev' maker' taker') \<longleftrightarrow>
     ev = ev' \<and> maker = callback_info_bytes maker' \<and> taker = callback_info_bytes taker'"
| "queued_as (QueuedOut ev delete info) (Out ev' info') \<longleftrightarrow> ev = ev' \<and> info = callback_info_bytes info'"
| "queued_as (QueuedFill ev maker taker) (Out ev' info') \<longleftrightarrow> False"
| "queued_as (QueuedOut ev delete info) (Fill ev' maker' taker') \<longleftrightarrow> False"

lemma queued_as_account: "queued_as queued ev \<Longrightarrow> queued_event_account queued = Some (event_user ev)"
  using callback_info_deserialize_bytes [where rest = "[]"] by (cases queued; cases ev) simp_all

lemma queued_accounts:
  "list_all2 queued_as queued evs \<Longrightarrow> those (map queued_event_account queued) = Some (map event_user evs)"
  by (induction rule: list_all2_induct) (simp_all add: queued_as_account)

text \<open>
  What the generated code promises of the accounts: the fields of the structure in the order in
  which they are declared, the slice last.
\<close>

definition casts_crank_accounts :: "(crank_accounts, 'p) instruction_cast \<Rightarrow> bool" where
  "casts_crank_accounts f \<longleftrightarrow>
     (\<forall>a program_id tag params. map am_pubkey (ins_accounts (f a program_id tag params))
        = [cra_market a, cra_orderbook a, cra_event_queue a, cra_reward_target a] @ cra_user_accounts a)"

lemma consume_events_parse_keys:
  assumes "consume_events_parse program_id L infos = Inr a"
  shows "map key infos = [key (cea_market a), key (cea_orderbook a), key (cea_event_queue a),
    key (cea_reward_target a)] @ map key (cea_user_accounts a)"
proof -
  have "infos = [cea_market a, cea_orderbook a, cea_event_queue a, cea_reward_target a] @ cea_user_accounts a"
    using assms by (auto simp: consume_events_parse_def res_simps)
  from arg_cong [OF this, of "map key"] show ?thesis
    by simp
qed

lemma crank_passes_go_on:
  "(\<And>i. i < n \<Longrightarrow> pass i \<noteq> Inl Panic) \<Longrightarrow>
   \<exists>printed. crank_passes pass n = Inr printed \<and> length printed = n \<and>
     (\<forall>i<n. client_result (printed ! i) = pass i)"
proof (induction n)
  case (Suc n)
  then obtain printed where IH: "crank_passes pass n = Inr printed" "length printed = n"
    "\<forall>i<n. client_result (printed ! i) = pass i"
    by (metis less_Suc_eq)
  have "client_result (case pass n of Inl (Err e) \<Rightarrow> Inl e | Inr k \<Rightarrow> Inr k) = pass n"
    using Suc.prems [of n] by (auto simp: client_result_def split: sum.splits failure.splits)
  then obtain r where r: "client_result r = pass n" ..
  with IH(1) have "crank_passes pass (Suc n) = Inr (printed @ [r])"
    by (cases r) (auto simp: and_then_def client_result_def simp flip: r)
  with IH r show ?case
    by (auto simp: nth_append less_Suc_eq)
qed simp

lemma iteration_no_panic:
  assumes "\<And>bs. get_account_data c event_queue = Inr bs \<Longrightarrow>
      \<exists>queued evs. event_queue_iter c bs CALLBACK_INFO_LEN = Some queued \<and> list_all2 queued_as queued evs"
  shows "consume_events_iteration c ctx event_queue s \<noteq> Inl Panic"
proof (cases "get_account_data c event_queue")
  case (Inr bs)
  with assms obtain queued evs where "event_queue_iter c bs CALLBACK_INFO_LEN = Some queued"
    and "list_all2 queued_as queued evs"
    by blast
  with Inr queued_accounts [OF this(2)] show ?thesis
    by (auto simp: consume_events_iteration_def Let_def and_then_def unwrap_def client_result_def
        split: sum.splits)
qed (simp add: consume_events_iteration_def and_then_def client_result_def)

section \<open>Properties\<close>

text \<open>
  C9: A pass of the crank that ends with a signature has sent one transaction, paid and signed by the
  fee payer, with one instruction for the program, and that instruction makes progress: when the
  program accepts it on the ledger whose event queue the node had reported, it applies and removes
  the first ten events of the queue, or the whole queue if it is shorter. The cast and the node
  are relied on for the layout of the instruction and the contents of the queue.
\<close>

theorem crank_iteration_progress:
  assumes "consume_events_iteration c ctx q s0 = Inr signature"
    and "casts_params consume_events_params_bytes (consume_events_cast c)"
    and "casts_crank_accounts (consume_events_cast c)"
    and "get_account_data c q = Inr (data (L q))"
    and "event_queue_from_buffer env (data (L q)) = Inr events"
    and "event_queue_iter c (data (L q)) CALLBACK_INFO_LEN = Some queued"
    and "list_all2 queued_as queued events"
    and "events \<noteq> []"
  defines "n \<equiv> min 10 (length events)"
    and "ins \<equiv> crank_instruction c ctx q s0 (crank_user_accounts events)"
  shows "(\<exists>blockhash. send_transaction_with_config c
      (transaction_partial_sign c [ctx_fee_payer ctx] blockhash
        (transaction_new_with_payer c [ins] (Some (keypair_pubkey c (ctx_fee_payer ctx)))))
      crank_send_config = Inr signature) \<and>
    ins_program_id ins = ctx_program_id ctx \<and>
    (\<forall>infos L'. map key infos = map am_pubkey (ins_accounts ins) \<and>
       process_instruction env (ctx_program_id ctx) infos (ins_data ins) L = Inr L' \<longrightarrow>
       (\<exists>a s s1 L1. consume_events_parse (ctx_program_id ctx) L infos = Inr a \<and>
          dex_state_get L (ctx_market ctx) = Inr s \<and>
          apply_events [ctx_market ctx, q] (cea_user_accounts a) (take n events) s L = Inr (s1, L1) \<and>
          aob_consume_events env (ctx_program_id ctx) (cea_orderbook a) (cea_event_queue a) (of_nat n)
            (dex_state_put (ctx_market ctx) s1 L1) = Inr L'))"
proof -
  have users: "crank_pack_accounts (map event_user events) = crank_user_accounts events"
    by (simp add: crank_user_accounts_def crank_event_account_user cong: map_cong)
  obtain blockhash where sent: "send_transaction_with_config c
      (transaction_partial_sign c [ctx_fee_payer ctx] blockhash
        (transaction_new_with_payer c [ins] (Some (keypair_pubkey c (ctx_fee_payer ctx)))))
      crank_send_config = Inr signature"
    using assms(1,4,6) queued_accounts [OF assms(7)]
    by (auto simp: consume_events_iteration_def res_simps Let_def users ins_def)
  have ins: "ins_program_id ins = ctx_program_id ctx"
    "ins_data ins = instruction_bytes ConsumeEvents (replicate 7 0) (consume_events_params_bytes crank_params)"
    "map am_pubkey (ins_accounts ins) = [ctx_market ctx, ds_orderbook s0, q, ctx_reward_target ctx]
      @ crank_user_accounts events"
    using assms(2,3) casts_params_data [OF assms(2)]
    by (simp_all add: ins_def crank_instruction_def consume_events_instruction_def casts_params_def casts_crank_accounts_def)
  have "\<exists>a s s1 L1. consume_events_parse (ctx_program_id ctx) L infos = Inr a \<and>
          dex_state_get L (ctx_market ctx) = Inr s \<and>
          apply_events [ctx_market ctx, q] (cea_user_accounts a) (take n events) s L = Inr (s1, L1) \<and>
          aob_consume_events env (ctx_program_id ctx) (cea_orderbook a) (cea_event_queue a) (of_nat n)
            (dex_state_put (ctx_market ctx) s1 L1) = Inr L'"
    if "map key infos = map am_pubkey (ins_accounts ins)"
      and "process_instruction env (ctx_program_id ctx) infos (ins_data ins) L = Inr L'" for infos L'
  proof -
    from that(2) have run: "consume_events_process env (ctx_program_id ctx) infos
        (consume_events_params_bytes crank_params) L = Inr L'"
      by (simp add: ins(2) process_instruction_bytes)
    then obtain a s where parse: "consume_events_parse (ctx_program_id ctx) L infos = Inr a"
      and s: "dex_state_get L (key (cea_market a)) = Inr s"
      by (auto simp: consume_events_process_def consume_events_params_codec.try_from_bytes_enc res_simps)
    have keys: "key (cea_market a) = ctx_market ctx" "key (cea_event_queue a) = q"
      "map key (cea_user_accounts a) = crank_user_accounts events"
      using consume_events_parse_keys [OF parse] that(1) ins(3) by simp_all
    show ?thesis
      using crank_progress [OF run parse s] assms(5,8) keys parse s unfolding n_def by simp
  qed
  with sent ins(1) show ?thesis
    by blast
qed

text \<open>The crank of the example world.\<close>

definition ex_queued_out :: queued_event where
  "ex_queued_out = (case ex_out of
     Out ev info \<Rightarrow> QueuedOut ev False (callback_info_bytes info)
   | Fill ev maker taker \<Rightarrow> QueuedFill ev (callback_info_bytes maker) (callback_info_bytes taker))"

lemma ex_queued_out: "queued_as ex_queued_out ex_out"
  by (simp add: ex_queued_out_def ex_out_def)

definition ex_client :: "(pubkey, instruction list) crank_client" where
  "ex_client = \<lparr>get_account_data = (\<lambda>k. Inr (data (ex_ledger k))), get_recent_blockhash = Inr [1],
     send_transaction_with_config = (\<lambda>tx cfg. Inr [2]), keypair_pubkey = (\<lambda>k. k),
     transaction_new_with_payer = (\<lambda>is p. is), transaction_partial_sign = (\<lambda>ks h tx. tx),
     event_queue_iter = (\<lambda>bs n. Some [ex_queued_out]), MARKET_STATE_LEN = 1,
     market_state_event_queue = (\<lambda>bs. Some 5),
     consume_events_cast = (\<lambda>a program_id tag params.
       \<lparr>ins_program_id = program_id,
        ins_accounts = map (\<lambda>k. \<lparr>am_pubkey = k, am_is_signer = False, am_is_writable = True\<rparr>)
          ([cra_market a, cra_orderbook a, cra_event_queue a, cra_reward_target a] @ cra_user_accounts a),
        ins_data = tag # replicate 7 0 @ consume_events_params_bytes params\<rparr>)\<rparr>"

definition ex_context :: "pubkey crank_context" where
  "ex_context = \<lparr>ctx_program_id = 100, ctx_market = 3, ctx_reward_target = 16, ctx_fee_payer = 17,
     ctx_endpoint = []\<rparr>"

lemma ex_iteration: "consume_events_iteration ex_client ex_context 5 ex_market = Inr [2]"
  by (simp add: consume_events_iteration_def ex_client_def Let_def queued_as_account [OF ex_queued_out]
      client_result_def)

theorem crank_iteration_progress_witness:
  "\<exists>s1 L1. apply_events [3, 5] [ex_info 10 False] [ex_out] ex_market ex_ledger = Inr (s1, L1)"
proof -
  have "casts_params consume_events_params_bytes (consume_events_cast ex_client)"
    "casts_crank_accounts (consume_events_cast ex_client)"
    "get_account_data ex_client 5 = Inr (data (ex_ledger 5))"
    "event_queue_from_buffer (ex_env ex_no_summary [ex_out]) (data (ex_ledger 5)) = Inr [ex_out]"
    "event_queue_iter ex_client (data (ex_ledger 5)) CALLBACK_INFO_LEN = Some [ex_queued_out]"
    "list_all2 queued_as [ex_queued_out] [ex_out]"
    by (simp_all add: ex_queued_out ex_client_def casts_params_def casts_crank_accounts_def ex_env_def comp_def)
  note progress = crank_iteration_progress [where L = ex_ledger, OF ex_iteration this]
  let ?ins = "crank_instruction ex_client ex_context 5 ex_market (crank_user_accounts [ex_out])"
  obtain L' where "consume_events_process (ex_env ex_no_summary [ex_out]) 100 ex_crank_infos
      (consume_events_params_bytes crank_params) ex_ledger = Inr L'"
    using ex_crank_runs by blast
  then have "process_instruction (ex_env ex_no_summary [ex_out]) 100 ex_crank_infos (ins_data ?ins) ex_ledger
      = Inr L'"
    using process_instruction_bytes [of "replicate 7 0" _ 100 ex_crank_infos ConsumeEvents]
    by (simp add: crank_instruction_def consume_events_instruction_def ex_client_def instruction_bytes_def
        ex_context_def)
  moreover have "map key ex_crank_infos = map am_pubkey (ins_accounts ?ins)"
    by (simp add: crank_instruction_def consume_events_instruction_def ex_client_def ex_context_def
        ex_crank_infos_def ex_market_def crank_user_accounts_def crank_pack_accounts_def ex_out_def
        ex_callback_def MAX_NUMBER_OF_USER_ACCOUNTS_def)
  ultimately show ?thesis
    using progress [THEN conjunct2, THEN conjunct2, rule_format, of ex_crank_infos L'] ex_crank_parse
    by (auto simp: ex_context_def ex_crank_accounts_def)
qed

text \<open>
  C32: The crank never stops because of its node: once the market has been read, it makes any number of
  passes whatever the requests answer, and prints for each the result of that pass, provided that
  the bytes of the event queue are those of a queue whose callback information is the program's.
\<close>

theorem crank_survives_node_errors:
  assumes "crank_setup (cs 0) ctx = Inr (s, q)"
    and "\<And>i bs. get_account_data (cs i) q = Inr bs \<Longrightarrow>
      \<exists>queued evs. event_queue_iter (cs i) bs CALLBACK_INFO_LEN = Some queued \<and>
        list_all2 queued_as queued evs"
  shows "\<exists>printed. crank cs ctx n = Inr printed \<and> length printed = n \<and>
    (\<forall>i<n. client_result (printed ! i) = consume_events_iteration (cs (Suc i)) ctx q s)"
  using crank_passes_go_on [of n "\<lambda>i. consume_events_iteration (cs (Suc i)) ctx q s"]
    iteration_no_panic [OF assms(2)]
  by (simp add: crank_def assms(1))

lemma ex_setup: "crank_setup ex_client ex_context = Inr (ex_market, 5)"
  by (simp add: crank_setup_def ex_client_def ex_context_def ex_ledger_def slice_to_def
      dex_state_codec.length_enc dex_state_codec.try_from_bytes_enc client_result_def unwrap_result_def)
    (simp add: ex_market_def)

theorem crank_survives_node_errors_witness:
  "\<exists>printed. crank (\<lambda>i. if even i then ex_client else ex_client\<lparr>get_recent_blockhash := Inl OtherClientError\<rparr>)
     ex_context 7 = Inr printed \<and> length printed = 7"
proof -
  let ?cs = "\<lambda>i. if even i then ex_client else ex_client\<lparr>get_recent_blockhash := Inl OtherClientError\<rparr>"
  have "\<exists>queued evs. event_queue_iter (?cs i) bs CALLBACK_INFO_LEN = Some queued \<and>
      list_all2 queued_as queued evs" for i bs
    by (intro exI [of _ "[ex_queued_out]"] exI [of _ "[ex_out]"]) (simp add: ex_client_def ex_queued_out)
  then show ?thesis
    using crank_survives_node_errors [of ?cs ex_context ex_market 5 7] ex_setup by auto
qed

end
