(* ===== verification/Dex_Views.thy ===== *)
theory Dex_Views
  imports Processor
begin

text \<open>
  What the program can see of a ledger: the market accounts and the user accounts it owns. An
  account is at most one of the two, because both carry their tag in the first eight bytes. The
  frame of a step names the accounts it may change; the contract of the code outside the
  repository is that its frame is empty.
\<close>

section \<open>Markets and user accounts of a ledger\<close>

definition dex_user :: "pubkey \<Rightarrow> ledger \<Rightarrow> pubkey \<Rightarrow> user_account \<Rightarrow> bool" where
  "dex_user program_id L k u \<longleftrightarrow> owner (L k) = program_id \<and> user_account_get L k = Inr u"

definition dex_market :: "pubkey \<Rightarrow> ledger \<Rightarrow> pubkey \<Rightarrow> dex_state \<Rightarrow> bool" where
  "dex_market program_id L k s \<longleftrightarrow> owner (L k) = program_id \<and> dex_state_get L k = Inr s"

lemma dex_user_unique: "dex_user program_id L k u \<Longrightarrow> dex_user program_id L k u' \<Longrightarrow> u' = u"
  by (simp add: dex_user_def)

lemma dex_market_unique: "dex_market program_id L k s \<Longrightarrow> dex_market program_id L k s' \<Longrightarrow> s' = s"
  by (simp add: dex_market_def)

definition data_tag :: "u8 list \<Rightarrow> u64" where
  "data_tag bs = from_le_bytes (take 8 bs)"

lemma user_account_get_tag:
  "user_account_get L k = Inr u \<Longrightarrow> data_tag (data (L k)) = account_tag_code UserAccountTag"
  by (auto simp: user_account_get_def from_buffer_eq_Inr from_buffer_unchecked_def user_valid_def
      user_header_of_bytes_def user_header_layout_def USER_ACCOUNT_HEADER_LEN_def data_tag_def Let_def
      min_def split: if_splits)

lemma dex_state_get_tag:
  "dex_state_get L k = Inr s \<Longrightarrow> data_tag (data (L k)) = account_tag_code DexStateTag"
  by (auto simp: dex_state_get_eq_Inr market_valid_def dex_state_of_bytes_def dex_state_layout_def
      DEX_STATE_LEN_def data_tag_def Let_def min_def)

lemma data_tag_header:
  "data_tag (user_account_bytes u) = uh_tag (ua_header u)"
  by (simp add: data_tag_def user_account_bytes_def user_header_bytes_def struct_simps)

lemma data_tag_market: "data_tag (dex_state_bytes s @ bs) = ds_tag s"
  by (cases "ds_padding s") (simp add: data_tag_def dex_state_bytes_def struct_simps)

lemma not_user_and_market: "dex_user program_id L k u \<Longrightarrow> \<not> dex_market program_id L k s"
  by (auto simp: dex_user_def dex_market_def dest!: user_account_get_tag dex_state_get_tag)

section \<open>Frames\<close>

text \<open>From \<open>L\<close> to \<open>L'\<close> only user accounts in \<open>U\<close> and markets in \<open>M\<close> have changed.\<close>

definition dex_frame ::
    "pubkey \<Rightarrow> pubkey set \<Rightarrow> pubkey set \<Rightarrow> ledger \<Rightarrow> ledger \<Rightarrow> bool" where
  "dex_frame program_id U M L L' \<longleftrightarrow>
     (\<forall>k u. k \<notin> U \<longrightarrow> dex_user program_id L' k u = dex_user program_id L k u) \<and>
     (\<forall>k s. k \<notin> M \<longrightarrow> dex_market program_id L' k s = dex_market program_id L k s)"

lemma dex_frame_refl [simp]: "dex_frame program_id U M L L"
  by (simp add: dex_frame_def)

lemma dex_frame_trans:
  "dex_frame program_id U M L L1 \<Longrightarrow> dex_frame program_id U M L1 L2 \<Longrightarrow> dex_frame program_id U M L L2"
  by (simp add: dex_frame_def)

lemma dex_frame_mono:
  "dex_frame program_id U M L L' \<Longrightarrow> U \<subseteq> U' \<Longrightarrow> M \<subseteq> M' \<Longrightarrow> dex_frame program_id U' M' L L'"
  by (auto simp: dex_frame_def)

lemma dex_frame_user:
  "dex_frame program_id U M L L' \<Longrightarrow> k \<notin> U \<Longrightarrow> dex_user program_id L' k u \<longleftrightarrow> dex_user program_id L k u"
  by (simp add: dex_frame_def)

lemma dex_frame_market:
  "dex_frame program_id U M L L' \<Longrightarrow> k \<notin> M \<Longrightarrow> dex_market program_id L' k s \<longleftrightarrow> dex_market program_id L k s"
  by (simp add: dex_frame_def)

lemma dex_frame_eq:
  assumes "\<And>k. data (L' k) = data (L k)" and "\<And>k. owner (L' k) = owner (L k)"
  shows "dex_frame program_id U M L L'"
proof -
  have "user_account_get L' k = user_account_get L k" "dex_state_get L' k = dex_state_get L k" for k
    using assms(1) by (auto intro: user.load_cong market.load_cong)
  with assms(2) show ?thesis
    by (simp add: dex_frame_def dex_user_def dex_market_def)
qed

text \<open>Writing one account: the others are as before, and the tag decides what the account is now.\<close>

lemma dex_frame_put_data:
  assumes "owner (L k) = program_id"
    and "\<And>s. \<not> dex_market program_id L k s" and "data_tag bs \<noteq> account_tag_code DexStateTag"
  shows "dex_frame program_id {k} {} L (put_data k bs L)"
proof -
  have "\<not> dex_market program_id (put_data k bs L) k s" for s
    using assms(3) dex_state_get_tag [of "put_data k bs L" k s] by (auto simp: dex_market_def)
  with assms(2) show ?thesis
    unfolding dex_frame_def
    by (auto simp: dex_user_def user.load_put_other)
      (metis dex_market_def market.load_put_other put_data_simps(2))+
qed

lemma user_put_frame:
  assumes "dex_user program_id L k u" and "uh_tag (ua_header u') \<noteq> account_tag_code DexStateTag"
  shows "dex_frame program_id {k} {} L (user_account_put k u' L)"
  unfolding user_account_put_def
  using assms not_user_and_market [OF assms(1)]
  by (intro dex_frame_put_data) (auto simp: dex_user_def data_tag_header)

lemma user_put_user:
  assumes "dex_user program_id L k u" and "user_valid u'"
  shows "dex_user program_id (user_account_put k u' L) k u'"
  using assms by (auto simp: dex_user_def user.load_store user.store_owner)

lemma market_put_frame:
  assumes "\<And>u. \<not> dex_user program_id L k u"
    and "ds_tag s' \<noteq> account_tag_code UserAccountTag"
  shows "dex_frame program_id {} {k} L (dex_state_put k s' L)"
proof -
  have "\<not> dex_user program_id (dex_state_put k s' L) k u" for u
    using assms(2) user_account_get_tag [of "dex_state_put k s' L" k u]
    by (auto simp: dex_user_def dex_state_put_def data_tag_market)
  moreover note assms(1)
  moreover have "k' \<noteq> k \<Longrightarrow> user_account_get (dex_state_put k s' L) k' = user_account_get L k'" for k'
    by (rule user.load_cong) (simp add: market.store_other)
  ultimately have "dex_user program_id (dex_state_put k s' L) k' u = dex_user program_id L k' u" for k' u
    by (cases "k' = k") (auto simp: dex_user_def market.store_owner)
  then show ?thesis
    by (simp add: dex_frame_def dex_market_def market.load_store_other market.store_owner)
qed

lemma market_put_market:
  assumes "dex_market program_id L k s" and "market_valid s'"
  shows "dex_market program_id (dex_state_put k s' L) k s'"
  using assms by (auto simp: dex_market_def market.load_store market.store_owner)

end
