(* ===== verification/System.thy ===== *)
theory System
  imports Dex_Views
begin

text \<open>
  The program as a state machine: a step is an instruction that succeeds or anything another
  program does. For every instruction the accounts it may change are determined, and what it
  keeps of them; the invariants of the reachable ledgers follow by rule induction.
\<close>

section \<open>The contract of the outside\<close>

text \<open>
  \<open>B\<close> are the accounts that belong to an order book: its market, event queue, bids and asks. The
  order book writes no other account, the token program writes no account of this program, and the
  system program allocates zeroed data, at most ten megabytes of it, and touches no other
  account's data; the owner check of the helper crate is what its name says.
\<close>

definition allocated :: "pubkey \<Rightarrow> u64 \<Rightarrow> pubkey \<Rightarrow> ledger \<Rightarrow> ledger \<Rightarrow> bool" where
  "allocated k space own K K' \<longleftrightarrow>
     owner (K' k) = own \<and> data (K' k) = replicate (unat space) 0 \<and> unat space \<le> 10 * 1024 * 1024 \<and>
     (\<forall>j. j \<noteq> k \<longrightarrow> data (K' j) = data (K j) \<and> owner (K' j) = owner (K j))"

definition externals_ok :: "externals \<Rightarrow> pubkey \<Rightarrow> pubkey set \<Rightarrow> bool" where
  "externals_ok env program_id B \<longleftrightarrow>
     system_program_id env \<noteq> program_id \<and>
     (\<forall>acc ip K m K'. aob_new_order env program_id acc ip K = Inr (m, K') \<longrightarrow> dex_frame program_id B B K K') \<and>
     (\<forall>acc oid K m K'. aob_cancel_order env program_id acc oid K = Inr (m, K') \<longrightarrow> dex_frame program_id B B K K') \<and>
     (\<forall>ob eq n K K'. aob_consume_events env program_id ob eq n K = Inr K' \<longrightarrow> dex_frame program_id B B K K') \<and>
     (\<forall>acc n t K K'. aob_create_market env program_id acc n t K = Inr K' \<longrightarrow> dex_frame program_id B B K K') \<and>
     (\<forall>acc t K K'. aob_close_market env program_id acc t K = Inr K' \<longrightarrow> dex_frame program_id B B K K') \<and>
     (\<forall>c K K'. token_invoke env program_id c K = Inr K' \<longrightarrow> dex_frame program_id {} {} K K') \<and>
     (\<forall>payer k lam space own infos seeds K K'.
        system_create_account env payer k lam space own infos seeds K = Inr K' \<longrightarrow>
        allocated k space own K K') \<and>
     (\<forall>acct own. bonfida_check_account_owner env acct own = Inr () \<longrightarrow> owner acct = own)"

lemma externals_okD:
  assumes "externals_ok env program_id B"
  shows "aob_new_order env program_id acc ip K = Inr (m, K') \<Longrightarrow> dex_frame program_id B B K K'"
    and "aob_cancel_order env program_id acc oid K = Inr (m, K') \<Longrightarrow> dex_frame program_id B B K K'"
    and "aob_consume_events env program_id ob eq n K = Inr K' \<Longrightarrow> dex_frame program_id B B K K'"
    and "aob_create_market env program_id acc n t K = Inr K' \<Longrightarrow> dex_frame program_id B B K K'"
    and "aob_close_market env program_id acc t' K = Inr K' \<Longrightarrow> dex_frame program_id B B K K'"
    and "token_invoke env program_id c K = Inr K' \<Longrightarrow> dex_frame program_id B B K K'"
    and "system_create_account env payer k lam space own infos seeds K = Inr K' \<Longrightarrow>
      allocated k space own K K'"
    and "system_program_id env \<noteq> program_id"
    and "bonfida_check_account_owner env acct own' = Inr x \<Longrightarrow> owner acct = own'"
proof -
  note ok = assms [unfolded externals_ok_def]
  show "aob_new_order env program_id acc ip K = Inr (m, K') \<Longrightarrow> dex_frame program_id B B K K'"
    and "aob_cancel_order env program_id acc oid K = Inr (m, K') \<Longrightarrow> dex_frame program_id B B K K'"
    and "aob_consume_events env program_id ob eq n K = Inr K' \<Longrightarrow> dex_frame program_id B B K K'"
    and "aob_create_market env program_id acc n t K = Inr K' \<Longrightarrow> dex_frame program_id B B K K'"
    and "aob_close_market env program_id acc t' K = Inr K' \<Longrightarrow> dex_frame program_id B B K K'"
    and "system_create_account env payer k lam space own infos seeds K = Inr K' \<Longrightarrow>
      allocated k space own K K'"
    and "system_program_id env \<noteq> program_id"
    and "bonfida_check_account_owner env acct own' = Inr x \<Longrightarrow> owner acct = own'"
    using ok by simp_all
  assume "token_invoke env program_id c K = Inr K'"
  with ok have "dex_frame program_id {} {} K K'"
    by blast
  then show "dex_frame program_id B B K K'"
    by (rule dex_frame_mono) simp_all
qed

text \<open>The example environment keeps the contract, whatever accounts belong to the order book.\<close>

lemma ex_env_ok: "externals_ok (ex_env m evs) 100 B"
  by (auto simp: externals_ok_def ex_env_def allocated_def word_le_nat_alt split: if_splits)

section \<open>What an instruction keeps of an account\<close>

definition user_kept :: "user_account \<Rightarrow> user_account \<Rightarrow> bool" where
  "user_kept u u' \<longleftrightarrow>
     uh_owner (ua_header u') = uh_owner (ua_header u) \<and>
     uh_market (ua_header u') = uh_market (ua_header u) \<and>
     order_capacity u' = order_capacity u \<and> (orders_wf u \<longrightarrow> orders_wf u')"

text \<open>Everything of a market but its tag, its counters and its royalty rate is fixed for its lifetime.\<close>

definition market_kept :: "dex_state \<Rightarrow> dex_state \<Rightarrow> bool" where
  "market_kept s s' \<longleftrightarrow>
     s' = s\<lparr>ds_tag := ds_tag s', ds_accumulated_fees := ds_accumulated_fees s',
            ds_accumulated_royalties := ds_accumulated_royalties s',
            ds_quote_volume := ds_quote_volume s', ds_base_volume := ds_base_volume s',
            ds_royalties_bps := ds_royalties_bps s'\<rparr> \<and>
     (unat (ds_royalties_bps s) < 2 ^ 16 \<longrightarrow> unat (ds_royalties_bps s') < 2 ^ 16)"

lemma user_kept_refl [simp]: "user_kept u u"
  by (simp add: user_kept_def)

lemma user_kept_trans: "user_kept u u' \<Longrightarrow> user_kept u' u'' \<Longrightarrow> user_kept u u''"
  by (simp add: user_kept_def)

lemma market_kept_refl [simp]: "market_kept s s"
  by (simp add: market_kept_def)

lemma market_kept_fields:
  assumes "market_kept s s'"
  shows "ds_base_mint s' = ds_base_mint s" "ds_quote_mint s' = ds_quote_mint s"
    "ds_base_vault s' = ds_base_vault s" "ds_quote_vault s' = ds_quote_vault s"
    "ds_orderbook s' = ds_orderbook s" "ds_admin s' = ds_admin s"
    "ds_min_base_order_size s' = ds_min_base_order_size s"
    "ds_base_currency_multiplier s' = ds_base_currency_multiplier s"
    "ds_quote_currency_multiplier s' = ds_quote_currency_multiplier s"
    "ds_signer_nonce s' = ds_signer_nonce s" "ds_fee_type s' = ds_fee_type s"
    "ds_creation_timestamp s' = ds_creation_timestamp s"
  using assms unfolding market_kept_def by - (drule conjunct1, erule ssubst, simp)+

lemma same_market_kept: "same_market s s' \<Longrightarrow> market_kept s s'"
  using same_market_fields [of s s']
  by (cases s; cases s') (simp add: same_market_def market_kept_def)

lemma user_keptI:
  assumes "ua_header u' = (ua_header u)\<lparr>uh_base_token_free := a, uh_base_token_locked := b,
      uh_quote_token_free := c, uh_quote_token_locked := d, uh_accumulated_rebates := e,
      uh_accumulated_maker_quote_volume := f, uh_accumulated_maker_base_volume := g,
      uh_accumulated_taker_quote_volume := h, uh_accumulated_taker_base_volume := i\<rparr>"
    and "ua_orders u' = ua_orders u"
  shows "user_kept u u'" and "uh_tag (ua_header u') = uh_tag (ua_header u)"
  using assms by (simp_all add: user_kept_def order_capacity_def orders_wf_def)

lemma user_kept_remove_order: "remove_order u i = Inr u' \<Longrightarrow> user_kept u u'"
  using orders.remove_Inr [of u i u'] remove_order_frame [of u i u']
  by (simp add: user_kept_def order_capacity_def)

lemma user_kept_add_order: "add_order u x = Inr u' \<Longrightarrow> user_kept u u'"
  using orders.add_Inr [of u x u'] add_order_frame [of u x u']
  by (simp add: user_kept_def order_capacity_def)

section \<open>Instructions that change one account\<close>

definition signers :: "account_info list \<Rightarrow> pubkey set" where
  "signers accts = key ` {a \<in> set accts. is_signer a}"

text \<open>
  At most one user account changes, one whose owner is in \<open>S\<close>; or at most one market. Accounts
  of order books are exempt.
\<close>

definition user_update :: "pubkey \<Rightarrow> pubkey set \<Rightarrow> pubkey set \<Rightarrow> ledger \<Rightarrow> ledger \<Rightarrow> bool" where
  "user_update program_id B S L L' \<longleftrightarrow>
     (\<exists>k u. dex_frame program_id (insert k B) B L L' \<and>
       (k \<notin> B \<longrightarrow> dex_user program_id L k u \<and> uh_owner (ua_header u) \<in> S \<and>
         (\<forall>u'. dex_user program_id L' k u' \<longrightarrow> user_kept u u')))"

definition market_update :: "pubkey \<Rightarrow> pubkey set \<Rightarrow> ledger \<Rightarrow> ledger \<Rightarrow> bool" where
  "market_update program_id B L L' \<longleftrightarrow>
     (\<exists>k s. dex_frame program_id B (insert k B) L L' \<and>
       (k \<notin> B \<longrightarrow> dex_market program_id L k s \<and>
         (\<forall>s'. dex_market program_id L' k s' \<longrightarrow> market_kept s s')))"

lemma dex_frame_put_any: "dex_frame program_id {k} {k} L (put_data k bs L)"
  by (simp add: dex_frame_def dex_user_def dex_market_def user.load_put_other market.load_put_other)

lemma user_updateI:
  assumes "dex_frame program_id B B L L1" and "owner (L k) = program_id"
    and "user_account_get L k = Inr u" and "uh_owner (ua_header u) \<in> S"
    and "uh_tag (ua_header u') \<noteq> account_tag_code DexStateTag" and "user_valid u' \<Longrightarrow> user_kept u u'"
    and "dex_frame program_id B B (user_account_put k u' L1) L'"
  shows "user_update program_id B S L L'"
proof -
  have u: "dex_user program_id L k u"
    using assms(2,3) by (simp add: dex_user_def)
  have put: "dex_frame program_id (insert k B) B L1 (user_account_put k u' L1)"
  proof (cases "k \<in> B")
    case True
    then show ?thesis
      unfolding user_account_put_def by (intro dex_frame_mono [OF dex_frame_put_any]) auto
  next
    case False
    with u assms(1) have "dex_user program_id L1 k u"
      by (simp add: dex_frame_user)
    from user_put_frame [OF this assms(5)] show ?thesis
      by (rule dex_frame_mono) auto
  qed
  have "dex_frame program_id (insert k B) B L L'"
    using put assms(1,7) by (meson dex_frame_mono dex_frame_trans order_refl subset_insertI)
  moreover have "user_kept u v" if "k \<notin> B" "dex_user program_id L' k v" for v
  proof -
    from that assms(7) have "dex_user program_id (user_account_put k u' L1) k v"
      by (simp add: dex_frame_user)
    then have "v = u' \<and> user_valid v"
      by (auto simp: dex_user_def user_account_get_def user_account_put_def from_buffer_eq_Inr
          from_buffer_unchecked_bytes)
    with assms(6) show ?thesis by blast
  qed
  ultimately show ?thesis
    using u assms(4) by (auto simp: user_update_def)
qed

lemma market_updateI:
  assumes "dex_frame program_id B B L L1" and "owner (L k) = program_id"
    and "dex_state_get L k = Inr s"
    and "ds_tag s' \<noteq> account_tag_code UserAccountTag" and "market_valid s' \<Longrightarrow> market_kept s s'"
    and "dex_frame program_id B B (dex_state_put k s' L1) L'"
  shows "market_update program_id B L L'"
proof -
  have s: "dex_market program_id L k s"
    using assms(2,3) by (simp add: dex_market_def)
  have put: "dex_frame program_id B (insert k B) L1 (dex_state_put k s' L1)"
  proof (cases "k \<in> B")
    case True
    then show ?thesis
      unfolding dex_state_put_def by (intro dex_frame_mono [OF dex_frame_put_any]) auto
  next
    case False
    with s assms(1) have "dex_market program_id L1 k s"
      by (simp add: dex_frame_market)
    then have "\<not> dex_user program_id L1 k u" for u
      using not_user_and_market by blast
    from market_put_frame [OF this assms(4)] show ?thesis
      by (rule dex_frame_mono) auto
  qed
  have "dex_frame program_id B (insert k B) L L'"
    using put assms(1,6) by (meson dex_frame_mono dex_frame_trans order_refl subset_insertI)
  moreover have "market_kept s t" if "k \<notin> B" "dex_market program_id L' k t" for t
  proof -
    from that assms(6) have "dex_market program_id (dex_state_put k s' L1) k t"
      by (simp add: dex_frame_market)
    then have "t = s' \<and> market_valid t"
      by (auto simp: dex_market_def dex_state_get_eq_Inr dex_state_put_def dex_state_codec.dec_enc
          dex_state_codec.length_enc)
    with assms(5) show ?thesis by blast
  qed
  ultimately show ?thesis
    using s by (auto simp: market_update_def)
qed

section \<open>The instructions of a user\<close>

lemma user_account_getD: "user_account_get L k = Inr u \<Longrightarrow> uh_tag (ua_header u) = 2"
  using user.load_valid [of L k u] by (simp add: user_valid_def)

lemma new_order_read_owner:
  "new_order_read_accounts accts d = Inr a \<Longrightarrow> noa_user_owner a \<in> set accts"
  by (auto simp: new_order_read_accounts_def res_simps Let_def split_def)

lemma new_order_settle_kept:
  assumes "(case sd of Bid \<Rightarrow> new_order_bid s tier u m posted | Ask \<Rightarrow> new_order_ask s tier u m posted)
      = Inr (u1, m1, q, r)"
    and "new_order_record u1 m1 posted cid = Inr u2"
  shows "user_kept u u2" and "uh_tag (ua_header u2) = uh_tag (ua_header u)"
proof -
  have u1: "user_kept u u1" "uh_tag (ua_header u1) = uh_tag (ua_header u)"
    using assms(1)
    by (auto simp: new_order_bid_def new_order_ask_def Let_def res_simps user_kept_def
        order_capacity_def orders_wf_def split: side.splits)
  have "user_kept u1 u2"
    using assms(2)
    by (auto simp: new_order_record_def Let_def res_simps user_kept_def order_capacity_def
        orders_wf_def split: option.splits dest!: user_kept_add_order)
  with u1 show "user_kept u u2"
    by (blast intro: user_kept_trans)
  show "uh_tag (ua_header u2) = uh_tag (ua_header u)"
    using new_order_record_header(1) [OF assms(2)] u1 by simp
qed

lemma new_order_step:
  assumes "externals_ok env program_id B" and "new_order_process env program_id accts idata L = Inr L'"
  shows "user_update program_id B (signers accts) L L'"
proof (rule new_order_processE [OF assms(2)], goal_cases)
  case (1 p a s u ot tier mq ip m0 L1)
  note ok = externals_okD [OF assms(1)]
  note checks = new_order_parse_checks [OF 1(2)]
  have signed: "uh_owner (ua_header u) \<in> signers accts"
    using new_order_read_owner [OF checks(1)] checks(2) 1(6) by (auto simp: signers_def)
  show ?thesis
  proof (rule new_order_settleE [OF 1(15)])
    fix m posted u1 m1 q r L2 L3 u2
    assume run: "(case aob_side ip of Bid \<Rightarrow> new_order_bid s tier u m posted
        | Ask \<Rightarrow> new_order_ask s tier u m posted) = Inr (u1, m1, q, r)"
      and fund: "token_invoke env program_id (new_order_funding_cpi a
           (case aob_side ip of Bid \<Rightarrow> noa_quote_vault a | Ask \<Rightarrow> noa_base_vault a) q) L1 = Inr L2"
      and referral: "(case noa_fee_referral_account a of
            Some x \<Rightarrow> token_invoke env program_id (new_order_referral_cpi a s x r) L2
          | None \<Rightarrow> Inr L2) = Inr L3"
      and rec: "new_order_record u1 m1 posted (nop_client_order_id p) = Inr u2"
      and L': "L' = user_account_put (key (noa_user a)) u2 L3"
    have "dex_frame program_id B B L2 L3"
      using referral ok(6) by (cases "noa_fee_referral_account a") auto
    with ok(1) [OF 1(14)] ok(6) [OF fund] have frame: "dex_frame program_id B B L L3"
      by (meson dex_frame_trans)
    note kept = new_order_settle_kept [OF run rec]
    show ?thesis
      by (rule user_updateI [where u' = u2, OF frame checks(4) 1(5) signed])
        (use kept user_account_getD [OF 1(5)] in \<open>simp_all add: L'\<close>)
  qed
qed

lemma cancel_order_step:
  assumes "externals_ok env program_id B" and "cancel_order_process env program_id accts idata L = Inr L'"
  shows "user_update program_id B (signers accts) L L'"
proof (rule cancel_order_processE [OF assms(2)])
  fix p a s u i oid m0 m L1 h u'
  assume parse: "cancel_order_parse program_id L accts = Inr a"
    and u: "user_account_get L (key (coa_user a)) = Inr u"
    and own: "uh_owner (ua_header u) = key (coa_user_owner a)"
    and aob: "aob_cancel_order env program_id (cancel_order_aob_accounts a) oid L = Inr (m0, L1)"
    and rel: "cancel_order_release (get_side_from_order_id env oid) m (ua_header u) = Inr h"
    and rem: "remove_order (u\<lparr>ua_header := h\<rparr>) (unat i) = Inr u'"
    and L': "L' = user_account_put (key (coa_user a)) u' L1"
  note checks = cancel_order_parse_checks [OF parse]
  have "coa_user_owner a \<in> set accts"
    using parse by (auto simp: cancel_order_parse_def res_simps)
  with own checks(1) have signed: "uh_owner (ua_header u) \<in> signers accts"
    by (auto simp: signers_def)
  have "user_kept u (u\<lparr>ua_header := h\<rparr>)" and tag: "uh_tag h = uh_tag (ua_header u)"
    using rel by (auto simp: cancel_order_release_def res_simps user_kept_def order_capacity_def
        orders_wf_def split: side.splits)
  with user_kept_remove_order [OF rem] have "user_kept u u'"
    by (blast intro: user_kept_trans)
  moreover have "uh_tag (ua_header u') = 2"
    using remove_order_frame(1) [OF rem] tag user_account_getD [OF u] by simp
  ultimately show ?thesis
    by (intro user_updateI [where u' = u', OF externals_okD(2) [OF assms(1) aob] checks(3) u signed])
      (simp_all add: L')
qed

lemma settle_step:
  assumes "externals_ok env program_id B" and "settle_process env program_id accts L = Inr L'"
  shows "user_update program_id B (signers accts) L L'"
proof (rule settle_processE [OF assms(2)], goal_cases)
  case (1 a s u L1 L2)
  note checks = settle_parse_checks [OF 1(1)]
  let ?u = "u\<lparr>ua_header := (ua_header u)\<lparr>uh_quote_token_free := 0, uh_base_token_free := 0\<rparr>\<rparr>"
  have "sea_user_owner a \<in> set accts"
    using 1(1) by (auto simp: settle_parse_def res_simps)
  with 1(4) checks(1) have signed: "uh_owner (ua_header u) \<in> signers accts"
    by (auto simp: signers_def)
  have frame: "dex_frame program_id B B L L2"
    using externals_okD(6) [OF assms(1)] 1(7,8) by (meson dex_frame_trans)
  show ?thesis
    by (rule user_updateI [where u' = ?u, OF frame checks(2) 1(3) signed])
      (use user_account_getD [OF 1(3)] in
        \<open>simp_all add: 1(9) user_kept_def order_capacity_def orders_wf_def\<close>)
qed

lemma dex_frame_drain: "drain_lamports a t L = Inr L' \<Longrightarrow> dex_frame program_id U M L L'"
  by (rule dex_frame_eq) (auto dest: drain_lamports_eq_Inr(4,5))

lemma close_account_step:
  assumes "close_account_process program_id accts L = Inr L'"
  shows "user_update program_id B (signers accts) L L'"
proof (rule close_account_processE [OF assms], goal_cases)
  case (1 a u)
  let ?u = "u\<lparr>ua_header := (ua_header u)\<lparr>uh_tag := account_tag_code Closed\<rparr>\<rparr>"
  have "caa_user_owner a \<in> set accts" "is_signer (caa_user_owner a)"
    and own: "owner (L (key (caa_user a))) = program_id"
    using 1(1) by (auto simp: close_account_parse_def res_simps)
  with 1(3) have signed: "uh_owner (ua_header u) \<in> signers accts"
    by (auto simp: signers_def)
  show ?thesis
    by (rule user_updateI [where u' = ?u, OF dex_frame_refl own 1(2) signed])
      (use dex_frame_drain [OF 1(7)] in \<open>simp_all add: user_valid_def\<close>)
qed

section \<open>Swaps and the instructions on a market\<close>

lemma swap_step:
  assumes "externals_ok env program_id B" and "swap_process env program_id accts idata L = Inr L'"
  shows "dex_frame program_id B B L L'"
proof -
  note ok = externals_okD [OF assms(1)]
  from assms(2) obtain p a s sd limits cb b q r m L1 L2 L3 where
    aob: "aob_new_order env program_id (swap_aob_accounts a) (swap_invoke_params p sd cb limits) L = Inr (m, L1)"
    and legs: "token_invoke env program_id (fst (swap_legs a s sd b q)) L1 = Inr L2"
      "token_invoke env program_id (snd (swap_legs a s sd b q)) L2 = Inr L3"
    and referral: "(case swa_fee_referral_account a of
        Some x \<Rightarrow> token_invoke env program_id (swap_referral_cpi a s x r) L3 | None \<Rightarrow> Inr L3) = Inr L'"
    unfolding swap_process_def by (auto simp: res_simps)
  have "dex_frame program_id B B L3 L'"
    using referral ok(6) by (cases "swa_fee_referral_account a") auto
  with ok(1) [OF aob] ok(6) [OF legs(1)] ok(6) [OF legs(2)] show ?thesis
    by (meson dex_frame_trans)
qed

lemma token_invoke_all_frame:
  assumes "externals_ok env program_id B"
  shows "token_invoke_all env program_id cs L = Inr L' \<Longrightarrow> dex_frame program_id B B L L'"
proof (induction cs arbitrary: L)
  case (Cons c cs)
  then obtain L1 where "token_invoke env program_id c L = Inr L1"
    and "token_invoke_all env program_id cs L1 = Inr L'"
    by (auto simp: res_simps)
  then show ?case
    using externals_okD(6) [OF assms] Cons.IH by (meson dex_frame_trans)
qed simp

lemma sweep_fees_step:
  assumes "externals_ok env program_id B" and "sweep_fees_process env program_id accts L = Inr L'"
  shows "market_update program_id B L L'"
proof (rule sweep_fees_processE [OF assms(2)], goal_cases)
  case (1 a s b1 s1 L1 s2 L2)
  have own: "owner (L (key (sfa_market a))) = program_id"
    using 1(1) by (auto simp: sweep_fees_parse_def res_simps)
  have royalties: "dex_frame program_id B B L L1 \<and> same_market s s1"
    using 1(5)
    by (auto simp: sweep_royalties_def res_simps same_market_def split: if_splits option.splits
        dest!: sweep_creatorsD intro: token_invoke_all_frame [OF assms(1)])
  have fees: "dex_frame program_id B B L1 L2 \<and> same_market s1 s2"
    using 1(6)
    by (auto simp: sweep_market_fees_def res_simps same_market_def split: if_splits
        intro: externals_okD(6) [OF assms(1)])
  have same: "same_market s s2" and frame: "dex_frame program_id B B L L2"
    using royalties fees by (meson same_market_trans dex_frame_trans)+
  have "ds_tag s2 = 1"
    using market.load_valid [OF 1(2)] same_market_fields(4) [OF same] by (simp add: market_valid_def)
  then show ?thesis
    by (intro market_updateI [where s' = s2, OF frame own 1(2)])
      (simp_all add: 1(7) same_market_kept [OF same])
qed

lemma close_market_step:
  assumes "externals_ok env program_id B" and "close_market_process env program_id accts L = Inr L'"
  shows "market_update program_id B L L'"
proof -
  from assms(2) obtain a where parse: "close_market_parse env program_id L accts = Inr a"
    by (auto simp: close_market_process_def res_simps)
  then have own: "owner (L (key (clma_market a))) = program_id"
    by (auto simp: close_market_parse_def res_simps)
  show ?thesis
  proof (rule close_market_processE [OF assms(2) parse], goal_cases)
    case (1 s b q L1 L2 L3)
    let ?s = "s\<lparr>ds_tag := account_tag_code Closed\<rparr>"
    note ok = externals_okD [OF assms(1)]
    have "dex_frame program_id B B (dex_state_put (key (clma_market a)) ?s L1) L'"
      using ok(6) [OF 1(8)] ok(6) [OF 1(9)] dex_frame_drain [OF 1(10)] by (meson dex_frame_trans)
    then show ?thesis
      by (intro market_updateI [where s' = ?s, OF ok(5) [OF 1(7)] own 1(1)])
        (simp_all add: market_valid_def)
  qed
qed

lemma update_royalties_step:
  assumes "externals_ok env program_id B" and "update_royalties_process env program_id accts L = Inr L'"
  shows "market_update program_id B L L'"
proof -
  from assms(2) obtain a where parse: "update_royalties_parse env program_id L accts = Inr a"
    by (auto simp: update_royalties_process_def res_simps)
  with assms(2) obtain s where s: "dex_state_get L (key (ura_market a)) = Inr s"
    by (auto simp: update_royalties_process_def res_simps)
  from assms(2) parse s have "\<exists>md :: metadata. L' = dex_state_put (key (ura_market a))
       (s\<lparr>ds_royalties_bps := ucast (md_seller_fee_basis_points md)\<rparr>) L"
    by (auto simp: update_royalties_process_def res_simps split: if_splits)
  then obtain md :: metadata where L': "L' = dex_state_put (key (ura_market a))
       (s\<lparr>ds_royalties_bps := ucast (md_seller_fee_basis_points md)\<rparr>) L" ..
  let ?s = "s\<lparr>ds_royalties_bps := ucast (md_seller_fee_basis_points md)\<rparr>"
  have own: "owner (L (key (ura_market a))) = program_id"
    using parse externals_okD(9) [OF assms(1)] by (auto simp: update_royalties_parse_def res_simps)
  have "unat (ucast (md_seller_fee_basis_points md) :: u64) < 65536"
    using unsigned_less [of "md_seller_fee_basis_points md", where ?'a = nat]
    by (simp add: unat_ucast_widen)
  then have "market_kept s ?s"
    by (simp add: market_kept_def)
  then show ?thesis
    using market.load_valid [OF s]
    by (intro market_updateI [where s' = ?s, OF dex_frame_refl own s])
      (simp_all add: L' market_valid_def)
qed

section \<open>The crank\<close>

definition users_kept :: "pubkey \<Rightarrow> pubkey set \<Rightarrow> ledger \<Rightarrow> ledger \<Rightarrow> bool" where
  "users_kept program_id B L L' \<longleftrightarrow>
     (\<forall>k u'. k \<notin> B \<longrightarrow> dex_user program_id L' k u' \<longrightarrow>
       (\<exists>u. dex_user program_id L k u \<and> user_kept u u'))"

lemma users_kept_refl [simp]: "users_kept program_id B L L"
  using user_kept_refl by (auto simp: users_kept_def)

lemma users_kept_trans:
  "users_kept program_id B L L1 \<Longrightarrow> users_kept program_id B L1 L2 \<Longrightarrow> users_kept program_id B L L2"
  unfolding users_kept_def by (meson user_kept_trans)

lemma users_kept_frame: "dex_frame program_id B M L L' \<Longrightarrow> users_kept program_id B L L'"
  unfolding users_kept_def using user_kept_refl by (auto simp: dex_frame_user)

lemma user_update_users_kept: "user_update program_id B S L L' \<Longrightarrow> users_kept program_id B L L'"
  unfolding user_update_def users_kept_def
  by (metis dex_frame_user insertE user_kept_refl)

lemma consume_fill_kept:
  assumes "consume_fill held accts ev maker taker s L = Inr (s', L')"
  obtains u u' where "user_account_get L (cb_user_account maker) = Inr u" and "user_kept u u'"
    and "uh_tag (ua_header u') = 2" and "L' = user_account_put (cb_user_account maker) u' L"
proof (rule consume_fillE [OF assms], goal_cases)
  case (1 q b tier referred mt sd u h h' s1)
  note mk = consume_fill_maker_eq_Inr [OF 1(9)]
  note vol = consume_fill_volumes_eq_Inr(4) [OF 1(10)]
  have h': "uh_owner h' = uh_owner h" "uh_market h' = uh_market h" "uh_tag h' = uh_tag h"
    "uh_number_of_orders h' = uh_number_of_orders h"
    by (subst vol, simp)+
  have "user_kept u (u\<lparr>ua_header := h'\<rparr>)" "uh_tag h' = 2"
    using mk(3-6) user_account_getD [OF 1(6)]
    by (simp_all add: h' user_kept_def order_capacity_def orders_wf_def)
  with 1(6,11) show thesis
    by (intro that [of u "u\<lparr>ua_header := h'\<rparr>"]) simp_all
qed

lemma consume_out_release_kept:
  "consume_out_release sd b oid (ua_header u) = Inr h \<Longrightarrow>
   user_kept u (u\<lparr>ua_header := h\<rparr>) \<and> uh_tag h = uh_tag (ua_header u)"
  by (cases sd) (auto simp: consume_out_release_def Let_def res_simps user_kept_def
      order_capacity_def orders_wf_def)

lemma consume_out_kept:
  assumes "consume_out held accts ev info s L = Inr (s', L')"
  obtains u u' where "user_account_get L (cb_user_account info) = Inr u" and "user_kept u u'"
    and "uh_tag (ua_header u') = 2" and "L' = user_account_put (cb_user_account info) u' L"
proof (rule consume_outE [OF assms], goal_cases)
  case (1 u b h i u')
  have "user_kept u (u\<lparr>ua_header := h\<rparr>) \<and> uh_tag h = uh_tag (ua_header u)"
    using 1(6) by (auto simp: res_simps dest!: consume_out_release_kept split: if_splits)
  moreover note user_kept_remove_order [OF 1(8)]
  moreover have "uh_tag (ua_header u') = uh_tag h"
    using remove_order_frame(1) [OF 1(8)] by simp
  ultimately show thesis
    using 1(4,9) user_account_getD [OF 1(4)] by (intro that [of u u']) (auto intro: user_kept_trans)
qed

lemma consume_event_frame:
  assumes "consume_event held accts ev s L = Inr (s', L')"
  shows "dex_frame program_id UNIV {} L L'" and "users_kept program_id {} L L'"
proof -
  let ?k = "event_user ev"
  obtain u u' where u: "user_account_get L ?k = Inr u" and kept: "user_kept u u'"
    and tag: "uh_tag (ua_header u') = 2" and L': "L' = user_account_put ?k u' L"
    using assms by (cases ev) (auto elim: consume_fill_kept consume_out_kept)
  have "dex_frame program_id UNIV {} L L' \<and> users_kept program_id {} L L'"
  proof (cases "owner (L ?k) = program_id")
    case True
    with u have du: "dex_user program_id L ?k u"
      by (simp add: dex_user_def)
    have frame: "dex_frame program_id {?k} {} L L'"
      unfolding L' using du tag by (intro user_put_frame) simp_all
    have "dex_user program_id L' ?k u'"
      unfolding L' using du tag by (intro user_put_user) (simp_all add: user_valid_def)
    then have "users_kept program_id {} L L'"
      unfolding users_kept_def
      by (metis dex_frame_user dex_user_unique du frame kept singletonD user_kept_refl)
    with frame show ?thesis
      by (blast intro: dex_frame_mono)
  next
    case False
    then have "dex_frame program_id {} {} L L'"
      using dex_frame_put_any [of program_id ?k L "user_account_bytes u'"]
      unfolding L' user_account_put_def dex_frame_def
      by (metis dex_market_def dex_user_def put_data_simps(2) singletonD)
    then show ?thesis
      by (blast intro: dex_frame_mono users_kept_frame)
  qed
  then show "dex_frame program_id UNIV {} L L'" and "users_kept program_id {} L L'"
    by simp_all
qed

lemma apply_events_frame:
  "apply_events held accts evs s L = Inr (s', L') \<Longrightarrow>
   dex_frame program_id UNIV {} L L' \<and> users_kept program_id {} L L'"
proof (induction evs arbitrary: s L)
  case (Cons ev evs)
  then obtain s1 L1 where one: "consume_event held accts ev s L = Inr (s1, L1)"
    and rest: "apply_events held accts evs s1 L1 = Inr (s', L')"
    by (auto simp: res_simps)
  from consume_event_frame [OF one] Cons.IH [OF rest] show ?case
    by (meson dex_frame_trans users_kept_trans)
qed simp

text \<open>A crank changes user accounts and one market, of which it keeps all but the counters.\<close>

definition crank_update :: "pubkey \<Rightarrow> pubkey set \<Rightarrow> ledger \<Rightarrow> ledger \<Rightarrow> bool" where
  "crank_update program_id B L L' \<longleftrightarrow>
     users_kept program_id B L L' \<and>
     (\<exists>k s. dex_frame program_id UNIV (insert k B) L L' \<and>
       (k \<notin> B \<longrightarrow> dex_market program_id L k s \<and>
         (\<forall>s'. dex_market program_id L' k s' \<longrightarrow> market_kept s s')))"

lemma consume_events_step:
  assumes "externals_ok env program_id B" and "consume_events_process env program_id accts idata L = Inr L'"
  shows "crank_update program_id B L L'"
proof -
  from assms(2) obtain a s events n s1 L1 and p :: consume_events_params where
    parse: "consume_events_parse program_id L accts = Inr a"
    and s: "dex_state_get L (key (cea_market a)) = Inr s"
    and loop: "consume_loop [key (cea_market a), key (cea_event_queue a)] (cea_user_accounts a)
       (take (unat (cep_max_iterations p)) events) 0 s L = Inr (n, s1, L1)"
    and fin: "L' = dex_state_put (key (cea_market a)) s1 L1 \<or>
      aob_consume_events env program_id (cea_orderbook a) (cea_event_queue a) n
        (dex_state_put (key (cea_market a)) s1 L1) = Inr L'"
    by (auto simp: consume_events_process_def res_simps Let_def split: if_splits)
  let ?k = "key (cea_market a)" and ?L = "dex_state_put (key (cea_market a)) s1 L1"
  from parse have own: "owner (L ?k) = program_id"
    by (auto simp: consume_events_parse_def res_simps)
  obtain evs where "apply_events [?k, key (cea_event_queue a)] (cea_user_accounts a) evs s L = Inr (s1, L1)"
    using consume_loop_eq_Inr [OF loop] by blast
  note events = apply_events_frame [OF this, of program_id] apply_events_same_market [OF this]
  have market: "dex_market program_id L1 ?k s"
    using events(1) own s unfolding dex_frame_def by (simp add: dex_market_def)
  have valid: "market_valid s1"
    using market.load_valid [OF s] same_market_fields(4) [OF events(2)] by (simp add: market_valid_def)
  have "dex_frame program_id B B ?L L'"
    using fin externals_okD(3) [OF assms(1)] by auto
  then have upd: "market_update program_id B L1 L'"
    using valid market same_market_kept [OF events(2)]
    by (intro market_updateI [where s' = s1, OF dex_frame_refl, of L1 ?k]) 
      (auto simp: dex_market_def market_valid_def)
  then obtain k t where frame: "dex_frame program_id B (insert k B) L1 L'"
    and t: "k \<notin> B \<Longrightarrow> dex_market program_id L1 k t \<and> (\<forall>s'. dex_market program_id L' k s' \<longrightarrow> market_kept t s')"
    by (auto simp: market_update_def)
  have "dex_frame program_id UNIV (insert k B) L L'"
    using frame events(1) by (meson dex_frame_mono dex_frame_trans empty_subsetI order_refl subset_UNIV)
  moreover have "k \<notin> B \<Longrightarrow> dex_market program_id L k t"
    using t events(1) by (simp add: dex_frame_def)
  moreover have "users_kept program_id B L L'"
  proof (rule users_kept_trans)
    show "users_kept program_id B L L1"
      using events(1) by (simp add: users_kept_def)
    show "users_kept program_id B L1 L'"
      using frame by (rule users_kept_frame)
  qed
  ultimately show ?thesis
    using t unfolding crank_update_def by blast
qed

section \<open>Creating accounts\<close>

text \<open>The address the program derives for the account of an owner in a market.\<close>

definition user_address ::
    "(u8 list list \<Rightarrow> pubkey \<Rightarrow> pubkey \<times> u8) \<Rightarrow> pubkey \<Rightarrow> user_account \<Rightarrow> pubkey" where
  "user_address derive program_id u =
     fst (derive
       [pubkey_to_bytes (uh_market (ua_header u)), pubkey_to_bytes (uh_owner (ua_header u))] program_id)"

definition user_created ::
    "externals \<Rightarrow> pubkey \<Rightarrow> pubkey set \<Rightarrow> pubkey set \<Rightarrow> ledger \<Rightarrow> ledger \<Rightarrow> bool" where
  "user_created env program_id B S L L' \<longleftrightarrow>
     (\<exists>k. dex_frame program_id (insert k B) B L L' \<and>
       (\<forall>u. \<not> dex_user program_id L k u) \<and>
       (\<forall>u'. dex_user program_id L' k u' \<longrightarrow>
         uh_owner (ua_header u') \<in> S \<and> orders_wf u' \<and> open_orders u' = [] \<and>
         user_address (find_program_address env) program_id u' = k))"

definition market_sound :: "dex_state \<Rightarrow> bool" where
  "market_sound s \<longleftrightarrow>
     ds_base_currency_multiplier s \<noteq> 0 \<and> ds_quote_currency_multiplier s \<noteq> 0 \<and>
     ds_fee_type s = market_fee_type_code DefaultFees \<and> unat (ds_royalties_bps s) < 2 ^ 16"

definition market_created :: "pubkey \<Rightarrow> pubkey set \<Rightarrow> ledger \<Rightarrow> ledger \<Rightarrow> bool" where
  "market_created program_id B L L' \<longleftrightarrow>
     (\<exists>k. dex_frame program_id B (insert k B) L L' \<and>
       (\<forall>s. \<not> dex_market program_id L k s) \<and>
       (\<forall>s'. k \<notin> B \<longrightarrow> dex_market program_id L' k s' \<longrightarrow> market_sound s'))"

lemma le_value_zeros: "le_value (replicate n 0) = 0"
  by (induction n) simp_all

lemma data_tag_zeros: "data_tag (replicate n 0) = 0"
  by (simp add: data_tag_def from_le_bytes_def le_value_zeros)

lemma data_tag_zero_first:
  assumes "bs \<noteq> []" and "bs ! 0 = 0"
  shows "data_tag bs \<noteq> account_tag_code DexStateTag" and "data_tag bs \<noteq> account_tag_code UserAccountTag"
proof -
  from assms obtain cs where bs: "take 8 bs = 0 # cs"
    by (cases bs) auto
  have "le_value (take 8 bs) < 256 ^ 8"
    using le_value_bound [of "take 8 bs"] power_increasing [of "length (take 8 bs)" 8 "256 :: nat"]
    by simp
  then have "unat (data_tag bs) = le_value (take 8 bs)"
    by (simp add: data_tag_def from_le_bytes_def unat_of_nat)
  then have "256 dvd unat (data_tag bs)"
    by (simp add: bs)
  then show "data_tag bs \<noteq> account_tag_code DexStateTag" "data_tag bs \<noteq> account_tag_code UserAccountTag"
    by auto
qed

lemma no_views:
  "data_tag (data (L k)) \<noteq> account_tag_code UserAccountTag \<Longrightarrow> \<not> dex_user program_id L k u"
  "data_tag (data (L k)) \<noteq> account_tag_code DexStateTag \<Longrightarrow> \<not> dex_market program_id L k s"
  by (auto simp: dex_user_def dex_market_def dest: user_account_get_tag dex_state_get_tag)

lemma allocated_frame:
  assumes "allocated k space own K K'" and "owner (K k) \<noteq> program_id"
  shows "dex_frame program_id {} {} K K'"
proof -
  have "\<not> dex_user program_id K' k u" "\<not> dex_market program_id K' k s" for u s
    using assms(1) by (auto intro!: no_views simp: allocated_def data_tag_zeros)
  moreover have "\<not> dex_user program_id K k u" "\<not> dex_market program_id K k s" for u s
    using assms(2) by (simp_all add: dex_user_def dex_market_def)
  moreover have "dex_user program_id K' j u = dex_user program_id K j u"
    "dex_market program_id K' j s = dex_market program_id K j s" if "j \<noteq> k" for j u s
    using assms(1) that user.load_cong [of K' j K] market.load_cong [of K' j K]
    by (simp_all add: allocated_def dex_user_def dex_market_def)
  ultimately show ?thesis
    unfolding dex_frame_def by metis
qed

lemma initialize_account_step:
  assumes "externals_ok env program_id B"
    and "initialize_account_process env program_id accts idata L = Inr L'"
  shows "user_created env program_id B (signers accts) L L'"
proof (rule initialize_account_processE [OF assms(2)], goal_cases)
  case (1 a p nonce space lam L1 u)
  let ?k = "key (iaa_user a)"
  let ?u = "u\<lparr>ua_header := user_account_header_new (iap_market p) (key (iaa_user_owner a))\<rparr>"
  note ok = externals_okD [OF assms(1)]
  have "iaa_user_owner a \<in> set accts" "is_signer (iaa_user_owner a)"
    and sys: "owner (L ?k) \<noteq> program_id"
    using 1(1) ok(8) by (auto simp: initialize_account_parse_def res_simps)
  then have signed: "key (iaa_user_owner a) \<in> signers accts"
    by (auto simp: signers_def)
  note alloc = ok(7) [OF 1(7)]
  have "\<not> dex_market program_id L1 ?k s" for s
    using alloc by (auto intro!: no_views simp: allocated_def data_tag_zeros)
  then have "dex_frame program_id {?k} {} L1 L'"
    unfolding 1(9) user_account_put_def using alloc
    by (intro dex_frame_put_data)
      (simp_all add: allocated_def data_tag_header user_account_header_new_def)
  with allocated_frame [OF alloc sys] have frame: "dex_frame program_id (insert ?k B) B L L'"
    by (meson dex_frame_mono dex_frame_trans empty_subsetI insert_mono order_refl)
  have "length (ua_orders u) < 2 ^ 32"
    using length_orders_from_buffer [OF 1(8)] alloc
    by (simp add: allocated_def ORDER_LEN_def USER_ACCOUNT_HEADER_LEN_def)
  then have wf: "orders_wf ?u" "open_orders ?u = []"
    by (simp_all add: orders_wf_def open_orders_def user_account_header_new_def)
  have "u' = ?u" if "dex_user program_id L' ?k u'" for u'
    using that by (auto simp: dex_user_def user_account_get_def 1(9) user_account_put_def
        from_buffer_eq_Inr from_buffer_unchecked_bytes)
  with wf signed frame sys 1(3) show ?thesis
    unfolding user_created_def
    by (intro exI [of _ ?k]) (auto simp: dex_user_def user_account_header_new_def user_address_def)
qed

lemma create_market_step:
  assumes "externals_ok env program_id B"
    and "create_market_process env program_id accts idata L = Inr L'"
  shows "market_created program_id B L L'"
proof -
  from assms(2) obtain a p where parse: "create_market_parse env program_id L accts = Inr a"
    and "try_from_bytes CREATE_MARKET_PARAMS_LEN create_market_params_of_bytes idata = Some p"
    by (auto simp: create_market_process_def res_simps)
  then have run: "create_market_process env program_id accts (create_market_params_bytes p) L = Inr L'"
    using assms(2) by (simp add: create_market_params_codec.try_from_bytes_eq_Some)
  show ?thesis
  proof (rule create_market_processE [OF run parse], goal_cases)
    case (1 signer base_mint quote_mint t bps)
    let ?k = "key (cma_market a)" and ?s = "create_market_state p a base_mint quote_mint t bps"
    note tag = data_tag_zero_first [OF 1(7,8)]
    have "dex_frame program_id {} {?k} L (dex_state_put ?k ?s L)"
      using no_views(1) [of L ?k, OF tag(2)] by (intro market_put_frame) (auto simp: create_market_state_def)
    with externals_okD(4) [OF assms(1) 1(10)] have frame: "dex_frame program_id B (insert ?k B) L L'"
      by (meson dex_frame_mono dex_frame_trans empty_subsetI insert_mono order_refl subset_insertI)
    have "s' = ?s" if "?k \<notin> B" "dex_market program_id L' ?k s'" for s'
    proof -
      have "dex_market program_id (dex_state_put ?k ?s L) ?k s'"
        using that dex_frame_market [OF externals_okD(4) [OF assms(1) 1(10)]] by simp
      then show ?thesis
        by (auto simp: dex_market_def dex_state_get_eq_Inr dex_state_put_def dex_state_codec.dec_enc
            dex_state_codec.length_enc)
    qed
    moreover have "market_sound ?s"
      using 1(1,2) unsigned_less [of bps, where ?'a = nat]
      by (simp add: market_sound_def create_market_state_def unat_ucast_widen)
    ultimately show ?thesis
      using frame no_views(2) [of L ?k, OF tag(1)] unfolding market_created_def by blast
  qed
qed

end
