(* ===== verification/State_Machine.thy ===== *)
theory State_Machine
  imports System
begin

text \<open>
  The step relation of the program and its environment, the reachable ledgers, and the invariants:
  the accounts of the program stay well formed, their identity is fixed for their lifetime, and
  user accounts change only on the owner's signature or through the event queue.
\<close>

section \<open>The effect of an instruction\<close>

definition instruction_effect ::
    "externals \<Rightarrow> dex_instruction \<Rightarrow> pubkey \<Rightarrow> pubkey set \<Rightarrow> pubkey set \<Rightarrow> ledger \<Rightarrow> ledger \<Rightarrow> bool" where
  "instruction_effect env i program_id B S L L' =
     (case i of
        CreateMarket \<Rightarrow> market_created program_id B L L'
      | NewOrder \<Rightarrow> user_update program_id B S L L'
      | SwapTokens \<Rightarrow> dex_frame program_id B B L L'
      | CancelOrder \<Rightarrow> user_update program_id B S L L'
      | ConsumeEvents \<Rightarrow> crank_update program_id B L L'
      | SettleAccount \<Rightarrow> user_update program_id B S L L'
      | InitializeAccount \<Rightarrow> user_created env program_id B S L L'
      | SweepFees \<Rightarrow> market_update program_id B L L'
      | CloseAccount \<Rightarrow> user_update program_id B S L L'
      | CloseMarket \<Rightarrow> market_update program_id B L L'
      | UpdateRoyalties \<Rightarrow> market_update program_id B L L')"

lemma process_instruction_effect:
  assumes "externals_ok env program_id B" and "process_instruction env program_id accts idata L = Inr L'"
  obtains i where "idata \<noteq> []" and "hd idata = dex_instruction_code i"
    and "instruction_effect env i program_id B (signers accts) L L'"
proof -
  from assms(2) obtain i where "idata \<noteq> []" and i: "dex_instruction_from_u8 (hd idata) = Some i"
    and run: "(case i of
       CreateMarket \<Rightarrow> create_market_process env program_id accts (drop INSTRUCTION_TAG_OFFSET idata) L
     | NewOrder \<Rightarrow> new_order_process env program_id accts (drop INSTRUCTION_TAG_OFFSET idata) L
     | SwapTokens \<Rightarrow> swap_process env program_id accts (drop INSTRUCTION_TAG_OFFSET idata) L
     | ConsumeEvents \<Rightarrow> consume_events_process env program_id accts (drop INSTRUCTION_TAG_OFFSET idata) L
     | CancelOrder \<Rightarrow> cancel_order_process env program_id accts (drop INSTRUCTION_TAG_OFFSET idata) L
     | SettleAccount \<Rightarrow> settle_process env program_id accts L
     | InitializeAccount \<Rightarrow> initialize_account_process env program_id accts (drop INSTRUCTION_TAG_OFFSET idata) L
     | SweepFees \<Rightarrow> sweep_fees_process env program_id accts L
     | CloseAccount \<Rightarrow> close_account_process program_id accts L
     | CloseMarket \<Rightarrow> close_market_process env program_id accts L
     | UpdateRoyalties \<Rightarrow> update_royalties_process env program_id accts L) = Inr L'"
    unfolding process_instruction_def processor_process_instruction_def Let_def
    by (cases idata) (auto simp: res_simps index_slice_def)
  have "instruction_effect env i program_id B (signers accts) L L'"
    using run assms(1)
    by (cases i)
      (auto simp: instruction_effect_def
        intro: create_market_step new_order_step swap_step consume_events_step cancel_order_step
          settle_step initialize_account_step sweep_fees_step close_account_step close_market_step
          update_royalties_step)
  with that \<open>idata \<noteq> []\<close> i show thesis
    by (simp add: dex_instruction_from_u8_eq_Some)
qed

lemma market_update_kept:
  assumes "market_update program_id B L L'" and "k \<notin> B" and "dex_market program_id L' k s'"
  obtains s where "dex_market program_id L k s" and "market_kept s s'"
  using assms unfolding market_update_def
  by (metis dex_frame_market insertE market_kept_refl)

lemma crank_update_kept:
  assumes "crank_update program_id B L L'" and "k \<notin> B" and "dex_market program_id L' k s'"
  obtains s where "dex_market program_id L k s" and "market_kept s s'"
  using assms unfolding crank_update_def
  by (metis dex_frame_market insertE market_kept_refl)

lemma effect_user:
  assumes "instruction_effect env i program_id B S L L'" and "k \<notin> B" and "dex_user program_id L' k u'"
  shows "(\<exists>u. dex_user program_id L k u \<and> user_kept u u') \<or>
    (\<forall>u. \<not> dex_user program_id L k u) \<and> uh_owner (ua_header u') \<in> S \<and> orders_wf u' \<and>
      open_orders u' = [] \<and> user_address (find_program_address env) program_id u' = k"
proof -
  have kept: ?thesis if "users_kept program_id B L L'"
    using that assms(2,3) by (auto simp: users_kept_def)
  show ?thesis
  proof (cases "i = InitializeAccount")
    case True
    with assms show ?thesis
      unfolding instruction_effect_def user_created_def
      by simp (metis dex_frame_user insertE user_kept_refl)
  next
    case False
    with assms(1) have "users_kept program_id B L L'"
      by (cases i)
        (auto simp: instruction_effect_def market_created_def market_update_def crank_update_def
          intro: users_kept_frame user_update_users_kept)
    then show ?thesis
      by (rule kept)
  qed
qed

lemma effect_market:
  assumes "instruction_effect env i program_id B S L L'" and "k \<notin> B" and "dex_market program_id L' k s'"
  shows "(\<exists>s. dex_market program_id L k s \<and> market_kept s s') \<or>
    (\<forall>s. \<not> dex_market program_id L k s) \<and> market_sound s'"
proof -
  show ?thesis
  proof (cases "i = CreateMarket")
    case True
    with assms show ?thesis
      unfolding instruction_effect_def market_created_def
      by simp (metis dex_frame_market insertE market_kept_refl)
  next
    case False
    with assms(1) consider (frame) U where "dex_frame program_id U B L L'"
      | (update) "market_update program_id B L L'" | (crank) "crank_update program_id B L L'"
      by (cases i) (auto simp: instruction_effect_def user_created_def user_update_def)
    then have "\<exists>s. dex_market program_id L k s \<and> market_kept s s'"
    proof cases
      case frame
      with assms(2,3) show ?thesis
        by (auto simp: dex_frame_market intro: market_kept_refl)
    next
      case update
      with assms(2,3) show ?thesis
        by (blast elim: market_update_kept)
    next
      case crank
      with assms(2,3) show ?thesis
        by (blast elim: crank_update_kept)
    qed
    then show ?thesis ..
  qed
qed

lemma effect_user_changed:
  assumes "instruction_effect env i program_id B S L L'" and "k \<notin> B"
    and "dex_user program_id L' k \<noteq> dex_user program_id L k" and "i \<noteq> ConsumeEvents"
  obtains u where "dex_user program_id L k u \<or> dex_user program_id L' k u"
    and "uh_owner (ua_header u) \<in> S"
proof -
  have changed: "\<not> dex_frame program_id U M L L'" if "k \<notin> U" for U M
    using that assms(3) unfolding dex_frame_def by (auto simp: fun_eq_iff)
  have "user_update program_id B S L L' \<or> user_created env program_id B S L L'"
    using assms(1,2,4) changed
    by (cases i) (auto simp: instruction_effect_def market_created_def market_update_def)
  then have "\<exists>u. (dex_user program_id L k u \<or> dex_user program_id L' k u) \<and> uh_owner (ua_header u) \<in> S"
  proof
    assume "user_update program_id B S L L'"
    with assms(2) changed show ?thesis
      unfolding user_update_def by (metis insertE)
  next
    assume "user_created env program_id B S L L'"
    with assms(2) changed obtain "\<And>u. \<not> dex_user program_id L k u"
      and "\<And>u'. dex_user program_id L' k u' \<Longrightarrow> uh_owner (ua_header u') \<in> S"
      unfolding user_created_def by (metis insertE)
    moreover from this assms(3) obtain u where "dex_user program_id L' k u"
      by (auto simp: fun_eq_iff)
    ultimately show ?thesis by blast
  qed
  with that show thesis by blast
qed

section \<open>Steps and reachable ledgers\<close>

text \<open>
  A step is an instruction of the program that succeeds, or anything other programs and the runtime
  do, which changes no account of this program. A failing instruction is no step: the runtime
  discards its writes. The environment may differ from step to step; the address derivation does not.
\<close>

type_synonym address_derivation = "u8 list list \<Rightarrow> pubkey \<Rightarrow> pubkey \<times> u8"

inductive dex_step ::
    "address_derivation \<Rightarrow> pubkey \<Rightarrow> pubkey set \<Rightarrow> ledger \<Rightarrow> ledger \<Rightarrow> bool"
  for derive program_id B where
  instruction: "externals_ok env program_id B \<Longrightarrow> find_program_address env = derive \<Longrightarrow>
    process_instruction env program_id accts idata L = Inr L' \<Longrightarrow> dex_step derive program_id B L L'"
| elsewhere: "dex_frame program_id {} {} L L' \<Longrightarrow> dex_step derive program_id B L L'"

inductive reachable :: "address_derivation \<Rightarrow> pubkey \<Rightarrow> pubkey set \<Rightarrow> ledger \<Rightarrow> bool"
  for derive program_id B where
  start: "(\<And>k u. k \<notin> B \<Longrightarrow> \<not> dex_user program_id L k u) \<Longrightarrow>
    (\<And>k s. k \<notin> B \<Longrightarrow> \<not> dex_market program_id L k s) \<Longrightarrow> reachable derive program_id B L"
| step: "reachable derive program_id B L \<Longrightarrow> dex_step derive program_id B L L' \<Longrightarrow>
    reachable derive program_id B L'"

inductive_cases dex_stepE: "dex_step derive program_id B L L'"

definition accounts_sound :: "address_derivation \<Rightarrow> pubkey \<Rightarrow> pubkey set \<Rightarrow> ledger \<Rightarrow> bool" where
  "accounts_sound derive program_id B L \<longleftrightarrow>
     (\<forall>k u. k \<notin> B \<longrightarrow> dex_user program_id L k u \<longrightarrow>
        orders_wf u \<and> user_address derive program_id u = k) \<and>
     (\<forall>k s. k \<notin> B \<longrightarrow> dex_market program_id L k s \<longrightarrow> market_sound s)"

lemma user_kept_sound:
  "user_kept u u' \<Longrightarrow> orders_wf u \<and> user_address derive program_id u = k \<Longrightarrow>
   orders_wf u' \<and> user_address derive program_id u' = k"
  by (simp add: user_kept_def user_address_def)

lemma market_kept_sound: "market_kept s s' \<Longrightarrow> market_sound s \<Longrightarrow> market_sound s'"
  using market_kept_fields [of s s'] by (simp add: market_sound_def market_kept_def)

lemma dex_step_sound:
  assumes "dex_step derive program_id B L L'" and "accounts_sound derive program_id B L"
  shows "accounts_sound derive program_id B L'"
  using assms(1)
proof cases
  case (instruction env accts idata)
  then obtain i where "instruction_effect env i program_id B (signers accts) L L'"
    by (blast elim: process_instruction_effect)
  note effect = effect_user [OF this] effect_market [OF this]
  show ?thesis
    using assms(2) instruction(2) effect user_kept_sound market_kept_sound
    unfolding accounts_sound_def by metis
next
  case elsewhere
  with assms(2) show ?thesis
    by (simp add: accounts_sound_def dex_frame_def)
qed

lemma reachable_sound: "reachable derive program_id B L \<Longrightarrow> accounts_sound derive program_id B L"
  by (induction rule: reachable.induct) (simp add: accounts_sound_def, blast intro: dex_step_sound)

section \<open>A concrete run\<close>

definition ex_derive :: address_derivation where
  "ex_derive = find_program_address ex_plain_env"

definition ex_init_data :: "u8 list" where
  "ex_init_data = instruction_bytes InitializeAccount [0, 0, 0, 0, 0, 0, 0]
     (initialize_account_params_bytes ex_init_params)"

lemma ex_init_reachable: "reachable ex_derive 100 {4, 5, 6, 7} ex_init_ledger"
  by (rule reachable.start) (simp_all add: dex_user_def dex_market_def ex_init_ledger_def)

lemma ex_init_no_user: "\<not> dex_user 100 ex_init_ledger k u"
  by (simp add: dex_user_def ex_init_ledger_def)

lemma ex_init_step:
  obtains L' u where "process_instruction ex_plain_env 100 ex_init_infos ex_init_data ex_init_ledger = Inr L'"
    and "dex_user 100 L' 10 u" and "uh_owner (ua_header u) = 12" and "uh_market (ua_header u) = 3"
    and "reachable ex_derive 100 {4, 5, 6, 7} L'"
proof -
  obtain L' where run: "initialize_account_process ex_plain_env 100 ex_init_infos
      (initialize_account_params_bytes ex_init_params) ex_init_ledger = Inr L'"
    using ex_init_runs by blast
  then have proc: "process_instruction ex_plain_env 100 ex_init_infos ex_init_data ex_init_ledger = Inr L'"
    unfolding ex_init_data_def by (subst process_instruction_bytes) simp_all
  have "reachable ex_derive 100 {4, 5, 6, 7} L'"
    by (rule reachable.step [OF ex_init_reachable], rule dex_step.instruction [OF _ _ proc])
      (simp_all add: ex_derive_def ex_plain_env_def ex_env_ok)
  moreover have "\<exists>u. dex_user 100 L' 10 u \<and> uh_owner (ua_header u) = 12 \<and> uh_market (ua_header u) = 3"
  proof (rule initialize_account_processE [OF run], goal_cases)
    case (1 a p nonce space lam L1 u)
    from 1(1) have a: "key (iaa_user a) = 10" "key (iaa_user_owner a) = 12"
      by (auto simp: initialize_account_parse_def ex_init_infos_def ex_plain_env_def ex_env_def
          ex_init_ledger_def eval_defs)
    from 1(2) have "p = ex_init_params"
      by (simp add: initialize_account_params_codec.enc_inject)
    moreover have "owner (L1 10) = 100"
      using externals_okD(7) [OF ex_env_ok 1(7) [unfolded ex_plain_env_def]] a by (simp add: allocated_def)
    ultimately show ?case
      using 1(9) a by (auto simp: dex_user_def user_account_get_written user_account_put_def user_valid_def
          user_account_header_new_def ex_init_params_def)
  qed
  ultimately show thesis
    using that proc by blast
qed

section \<open>Properties\<close>

text \<open>
  C3: In every ledger that instructions of the program and steps of other programs reach from one
  without accounts of this program, every user account has a well formed order table and sits at
  the address derived from its market and owner, and every market has currency multipliers that
  are not zero, the default fee type and a royalty rate that fits sixteen bits. The accounts of the
  order books, the set \<open>B\<close>, which the order book writes to at will, are exempt.
\<close>

theorem reachable_accounts_sound:
  assumes "reachable derive program_id B L" and "k \<notin> B"
  shows "(\<forall>u. dex_user program_id L k u \<longrightarrow> orders_wf u \<and> user_address derive program_id u = k) \<and>
    (\<forall>s. dex_market program_id L k s \<longrightarrow>
       ds_base_currency_multiplier s \<noteq> 0 \<and> ds_quote_currency_multiplier s \<noteq> 0 \<and>
       ds_fee_type s = market_fee_type_code DefaultFees \<and> unat (ds_royalties_bps s) < 2 ^ 16)"
  using reachable_sound [OF assms(1)] assms(2) by (simp add: accounts_sound_def market_sound_def)

theorem reachable_accounts_sound_witness:
  "\<exists>L u. reachable ex_derive 100 {4, 5, 6, 7} L \<and> dex_user 100 L 10 u \<and> orders_wf u"
proof -
  obtain L' u where "dex_user 100 L' 10 u" and run: "reachable ex_derive 100 {4, 5, 6, 7} L'"
    by (rule ex_init_step)
  with reachable_accounts_sound [OF run, of 10] show ?thesis
    by auto
qed

text \<open>
  C15: In a reachable ledger an owner has at most one user account in a market: two accounts with
  the same owner and the same market are the same account, the accounts \<open>B\<close> of the order books
  apart.
\<close>

theorem one_account_per_owner_and_market:
  assumes "reachable derive program_id B L" and "k1 \<notin> B" and "k2 \<notin> B"
    and "dex_user program_id L k1 u1" and "dex_user program_id L k2 u2"
    and "uh_owner (ua_header u1) = uh_owner (ua_header u2)"
    and "uh_market (ua_header u1) = uh_market (ua_header u2)"
  shows "k1 = k2 \<and> u1 = u2"
proof -
  have "user_address derive program_id u1 = k1" "user_address derive program_id u2 = k2"
    using reachable_sound [OF assms(1)] assms(2-5) by (simp_all add: accounts_sound_def)
  with assms(6,7) have "k1 = k2"
    by (simp add: user_address_def)
  with assms(4,5) show ?thesis
    using dex_user_unique by blast
qed

theorem one_account_per_owner_and_market_witness:
  "\<exists>L u. reachable ex_derive 100 {4, 5, 6, 7} L \<and> dex_user 100 L 10 u \<and>
    (\<forall>k u'. k \<in> {4, 5, 6, 7} \<or> \<not> dex_user 100 L k u' \<or> uh_owner (ua_header u') \<noteq> 12 \<or>
      uh_market (ua_header u') \<noteq> 3 \<or> k = 10)"
proof -
  obtain L' u where "dex_user 100 L' 10 u" "uh_owner (ua_header u) = 12" "uh_market (ua_header u) = 3"
    and run: "reachable ex_derive 100 {4, 5, 6, 7} L'"
    by (rule ex_init_step)
  with one_account_per_owner_and_market [OF run _ _ _ \<open>dex_user 100 L' 10 u\<close>] show ?thesis
    by (intro exI [of _ L'] exI [of _ u]) auto
qed

text \<open>
  C14: No instruction changes whose a user account is: its owner, its market and the number of
  orders it has room for stay what they were, and of a market the mints, the vaults, the order
  book, the admin, the minimum order size, the multipliers, the signer nonce, the fee type and the
  time of creation stay what they were. The accounts \<open>B\<close> of the order books are exempt.
\<close>

theorem instructions_keep_identity:
  assumes "externals_ok env program_id B" and "process_instruction env program_id accts idata L = Inr L'"
    and "k \<notin> B"
  shows "(\<forall>u u'. dex_user program_id L k u \<and> dex_user program_id L' k u' \<longrightarrow>
      uh_owner (ua_header u') = uh_owner (ua_header u) \<and>
      uh_market (ua_header u') = uh_market (ua_header u) \<and> order_capacity u' = order_capacity u) \<and>
    (\<forall>s s'. dex_market program_id L k s \<and> dex_market program_id L' k s' \<longrightarrow>
      ds_base_mint s' = ds_base_mint s \<and> ds_quote_mint s' = ds_quote_mint s \<and>
      ds_base_vault s' = ds_base_vault s \<and> ds_quote_vault s' = ds_quote_vault s \<and>
      ds_orderbook s' = ds_orderbook s \<and> ds_admin s' = ds_admin s \<and>
      ds_min_base_order_size s' = ds_min_base_order_size s \<and>
      ds_base_currency_multiplier s' = ds_base_currency_multiplier s \<and>
      ds_quote_currency_multiplier s' = ds_quote_currency_multiplier s \<and>
      ds_signer_nonce s' = ds_signer_nonce s \<and> ds_fee_type s' = ds_fee_type s \<and>
      ds_creation_timestamp s' = ds_creation_timestamp s)"
proof -
  obtain i where effect: "instruction_effect env i program_id B (signers accts) L L'"
    using assms(1,2) by (rule process_instruction_effect)
  have "user_kept u u'" if "dex_user program_id L k u" "dex_user program_id L' k u'" for u u'
    using effect_user [OF effect assms(3) that(2)] that(1) dex_user_unique by blast
  moreover have "market_kept s s'" if "dex_market program_id L k s" "dex_market program_id L' k s'" for s s'
    using effect_market [OF effect assms(3) that(2)] that(1) dex_market_unique by blast
  ultimately show ?thesis
    using market_kept_fields by (simp add: user_kept_def)
qed

theorem instructions_keep_identity_witness:
  "\<exists>L'. process_instruction ex_plain_env 100 ex_settle_infos
     (instruction_bytes SettleAccount [0, 0, 0, 0, 0, 0, 0] []) ex_ledger = Inr L' \<and>
   (\<forall>u'. dex_user 100 L' 10 u' \<longrightarrow> uh_owner (ua_header u') = uh_owner (ua_header ex_user))"
proof -
  obtain L' where "settle_process ex_plain_env 100 ex_settle_infos ex_ledger = Inr L'"
    using ex_settle_runs by blast
  then have run: "process_instruction ex_plain_env 100 ex_settle_infos
      (instruction_bytes SettleAccount [0, 0, 0, 0, 0, 0, 0] []) ex_ledger = Inr L'"
    by (subst process_instruction_bytes) simp_all
  have "dex_user 100 ex_ledger 10 ex_user"
    by (simp add: dex_user_def)
  with instructions_keep_identity [OF ex_env_ok run [unfolded ex_plain_env_def], of 10 "{}"] run
  show ?thesis by auto
qed

text \<open>
  C6: A user account appears, changes or disappears only in an instruction that the owner of the
  account has signed, or in the consumption of events of an order book. The accounts \<open>B\<close> of the
  order books are exempt.
\<close>

theorem user_changes_authorised:
  assumes "externals_ok env program_id B" and "process_instruction env program_id accts idata L = Inr L'"
    and "k \<notin> B" and "dex_user program_id L' k \<noteq> dex_user program_id L k"
  shows "idata ! 0 = dex_instruction_code ConsumeEvents \<or>
    (\<exists>u a. (dex_user program_id L k u \<or> dex_user program_id L' k u) \<and> a \<in> set accts \<and>
      is_signer a \<and> uh_owner (ua_header u) = key a)"
proof -
  obtain i where "idata \<noteq> []" "hd idata = dex_instruction_code i"
    and effect: "instruction_effect env i program_id B (signers accts) L L'"
    using assms(1,2) by (rule process_instruction_effect)
  show ?thesis
  proof (cases "i = ConsumeEvents")
    case True
    with \<open>idata \<noteq> []\<close> \<open>hd idata = dex_instruction_code i\<close> show ?thesis
      by (simp add: hd_conv_nth)
  next
    case False
    obtain u where "dex_user program_id L k u \<or> dex_user program_id L' k u"
      and "uh_owner (ua_header u) \<in> signers accts"
      using effect_user_changed [OF effect assms(3,4) False] .
    then show ?thesis
      by (auto simp: signers_def)
  qed
qed

theorem user_changes_authorised_witness:
  "\<exists>L' u. process_instruction ex_plain_env 100 ex_init_infos ex_init_data ex_init_ledger = Inr L' \<and>
    dex_user 100 L' 10 u \<and> uh_owner (ua_header u) \<in> key ` {a \<in> set ex_init_infos. is_signer a}"
proof -
  obtain L' u where run: "process_instruction ex_plain_env 100 ex_init_infos ex_init_data ex_init_ledger = Inr L'"
    and u: "dex_user 100 L' 10 u"
    by (rule ex_init_step)
  then have "dex_user 100 L' 10 \<noteq> dex_user 100 ex_init_ledger 10"
    using ex_init_no_user by metis
  from user_changes_authorised [OF ex_env_ok run [unfolded ex_plain_env_def] _ this, of "{}"] u
  obtain a where "a \<in> set ex_init_infos" "is_signer a" "uh_owner (ua_header u) = key a"
    by (auto simp: ex_init_data_def instruction_bytes_def dex_instruction_code_def dex_instruction_variants_def ex_init_no_user
        dest: dex_user_unique)
  with run u show ?thesis by blast
qed

end
