(* ===== verification/Solvency.thy ===== *)
theory Solvency
  imports System
begin

text \<open>
  Several components together: what the exchange owes its users in total, and what the fees of an
  order and of its fills are. An order and the crank that consumes its fills leave the exchange
  owing, to users, in fees and in royalties, no more than before plus what the order paid in.
\<close>

section \<open>What the exchange owes\<close>

definition user_claim :: "(position \<Rightarrow> nat) \<Rightarrow> ledger \<Rightarrow> pubkey \<Rightarrow> nat" where
  "user_claim claim L k = (case user_account_get L k of Inr u \<Rightarrow> claim (position_of u) | Inl _ \<Rightarrow> 0)"

definition total_claim :: "(position \<Rightarrow> nat) \<Rightarrow> pubkey set \<Rightarrow> ledger \<Rightarrow> nat" where
  "total_claim claim A L = (\<Sum>k\<in>A. user_claim claim L k)"

lemma total_claim_cong:
  "(\<And>k. k \<in> A \<Longrightarrow> user_account_get L' k = user_account_get L k) \<Longrightarrow>
   total_claim claim A L' = total_claim claim A L"
  by (simp add: total_claim_def user_claim_def cong: sum.cong)

lemma total_claim_put:
  assumes "finite A" and "k \<in> A" and "user_account_get L k = Inr u"
    and "user_account_get (user_account_put k u' L) k = Inr u'"
  shows "total_claim claim A (user_account_put k u' L) + claim (position_of u)
    = total_claim claim A L + claim (position_of u')"
proof -
  have "(\<Sum>j\<in>A - {k}. user_claim claim (user_account_put k u' L) j) = (\<Sum>j\<in>A - {k}. user_claim claim L j)"
    by (rule sum.cong) (auto simp: user_claim_def user.load_store_other)
  moreover have "user_claim claim L k = claim (position_of u)"
    "user_claim claim (user_account_put k u' L) k = claim (position_of u')"
    using assms(3,4) by (simp_all add: user_claim_def)
  ultimately show ?thesis
    using assms(1,2) by (simp add: total_claim_def sum.remove)
qed

lemma dex_frame_get:
  assumes "dex_frame program_id B B L L'" and "k \<notin> B" and "dex_user program_id L k u"
  shows "user_account_get L' k = user_account_get L k"
  using assms by (metis dex_frame_user dex_user_def)

lemma total_claim_frame:
  assumes "dex_frame program_id B B L L'" and "A \<inter> B = {}"
    and "\<And>k. k \<in> A \<Longrightarrow> \<exists>u. dex_user program_id L k u"
  shows "total_claim claim A L' = total_claim claim A L"
  using assms by (intro total_claim_cong) (metis dex_frame_get disjoint_iff)

section \<open>Events conserve what is owed\<close>

text \<open>The base and quote tokens a fill moves, when the taker is on the given side.\<close>

definition moved_base :: "side \<Rightarrow> dex_state \<Rightarrow> event \<Rightarrow> nat" where
  "moved_base sd s ev =
     (case ev of
        Fill f maker taker \<Rightarrow> (if fe_taker_side f = side_code sd then fill_base s f else 0)
      | Out x info \<Rightarrow> 0)"

definition moved_quote :: "side \<Rightarrow> dex_state \<Rightarrow> event \<Rightarrow> nat" where
  "moved_quote sd s ev =
     (case ev of
        Fill f maker taker \<Rightarrow> (if fe_taker_side f = side_code sd then fill_quote s f else 0)
      | Out x info \<Rightarrow> 0)"

lemma moved_same_market:
  "same_market s s' \<Longrightarrow> moved_base sd s' ev = moved_base sd s ev"
  "same_market s s' \<Longrightarrow> moved_quote sd s' ev = moved_quote sd s ev"
  by (simp_all add: moved_base_def moved_quote_def fill_base_def fill_quote_def same_market_fields
      split: event.splits)

lemma maker_movement_claims:
  assumes "maker_covers sd b q p"
  shows "base_claim (maker_movement sd b q p) + (if sd = Bid then b else 0)
      = base_claim p + (if sd = Ask then b else 0)"
    and "quote_claim (maker_movement sd b q p) + (if sd = Ask then q else 0)
      = quote_claim p + (if sd = Bid then q else 0)"
  using assms by (cases sd; simp add: maker_fill_conserves)+

lemma consume_out_release_claims:
  assumes "consume_out_release sd b oid (ua_header u) = Inr h"
  shows "base_claim (position_of (u\<lparr>ua_header := h\<rparr>)) = base_claim (position_of u)"
    and "quote_claim (position_of (u\<lparr>ua_header := h\<rparr>)) = quote_claim (position_of u)"
    and "uh_tag h = uh_tag (ua_header u)"
  using consume_out_release_eq_Inr [OF assms] by (simp_all only: release_movement_conserves)

lemma consume_out_claims:
  assumes "consume_out held accts ev info s L = Inr (s', L')"
  obtains u u' where "user_account_get L (cb_user_account info) = Inr u"
    and "L' = user_account_put (cb_user_account info) u' L"
    and "user_account_get L' (cb_user_account info) = Inr u'"
    and "base_claim (position_of u') = base_claim (position_of u)"
    and "quote_claim (position_of u') = quote_claim (position_of u)"
proof (rule consume_outE [OF assms], goal_cases)
  case (1 u b h i u')
  have h: "base_claim (position_of (u\<lparr>ua_header := h\<rparr>)) = base_claim (position_of u) \<and>
      quote_claim (position_of (u\<lparr>ua_header := h\<rparr>)) = quote_claim (position_of u) \<and>
      uh_tag h = uh_tag (ua_header u)"
    using 1(6) by (auto simp: res_simps consume_out_release_claims split: if_splits)
  have "user_account_get L' (cb_user_account info) = Inr u'"
    using 1(4,9) h remove_order_frame(1) [OF 1(8)] user_account_getD [OF 1(4)]
    by (simp add: user.load_store user_valid_def)
  with 1(4,9) h position_of_remove_order [OF 1(8)] show thesis
    by (intro that [of u u']) simp_all
qed

lemma consume_eventE:
  assumes "consume_event held accts ev s L = Inr (s', L')"
  obtains u u' where "user_account_get L (event_user ev) = Inr u"
    and "L' = user_account_put (event_user ev) u' L" and "user_account_get L' (event_user ev) = Inr u'"
    and "base_claim (position_of u') + moved_base Bid s ev = base_claim (position_of u) + moved_base Ask s ev"
    and "quote_claim (position_of u') + moved_quote Ask s ev = quote_claim (position_of u) + moved_quote Bid s ev"
proof (cases ev)
  case (Fill f maker taker)
  with assms have "consume_fill held accts f maker taker s L = Inr (s', L')" by simp
  then show thesis
  proof (rule consume_fill_effect, goal_cases)
    case (1 tier referred sd u u')
    note moves = maker_movement_claims [OF 1(12), folded 1(11)]
    have "base_claim (position_of u') + moved_base Bid s ev = base_claim (position_of u) + moved_base Ask s ev"
      "quote_claim (position_of u') + moved_quote Ask s ev = quote_claim (position_of u) + moved_quote Bid s ev"
      using moves 1(7) by (cases sd; simp add: Fill moved_base_def moved_quote_def)+
    with 1(9,10,15) show thesis
      by (intro that [of u u']) (simp_all add: Fill)
  qed
next
  case (Out x info)
  with assms have "consume_out held accts x info s L = Inr (s', L')" by simp
  then show thesis
    by (rule consume_out_claims) (auto simp: Out moved_base_def moved_quote_def intro!: that)
qed

lemma consume_event_claims:
  assumes "consume_event held accts ev s L = Inr (s', L')" and "finite A" and "event_user ev \<in> A"
  shows "total_claim base_claim A L' + moved_base Bid s ev = total_claim base_claim A L + moved_base Ask s ev"
    and "total_claim quote_claim A L' + moved_quote Ask s ev = total_claim quote_claim A L + moved_quote Bid s ev"
proof -
  obtain u u' where u: "user_account_get L (event_user ev) = Inr u"
    and L': "L' = user_account_put (event_user ev) u' L" and u': "user_account_get L' (event_user ev) = Inr u'"
    and base: "base_claim (position_of u') + moved_base Bid s ev = base_claim (position_of u) + moved_base Ask s ev"
    and quote: "quote_claim (position_of u') + moved_quote Ask s ev = quote_claim (position_of u) + moved_quote Bid s ev"
    using assms(1) by (rule consume_eventE)
  note put = total_claim_put [OF assms(2,3) u u' [unfolded L'], folded L']
  show "total_claim base_claim A L' + moved_base Bid s ev = total_claim base_claim A L + moved_base Ask s ev"
    using put [of base_claim] base by simp
  show "total_claim quote_claim A L' + moved_quote Ask s ev = total_claim quote_claim A L + moved_quote Bid s ev"
    using put [of quote_claim] quote by simp
qed

lemma apply_events_users:
  assumes "apply_events held accts evs s L = Inr (s', L')" and "\<exists>u. dex_user program_id L k u"
  shows "\<exists>u. dex_user program_id L' k u"
  using assms
proof (induction evs arbitrary: s L)
  case (Cons ev evs)
  from Cons.prems(1) obtain s1 L1 where one: "consume_event held accts ev s L = Inr (s1, L1)"
    and rest: "apply_events held accts evs s1 L1 = Inr (s', L')"
    by (auto simp: res_simps)
  from one have "\<exists>u. dex_user program_id L1 k u"
    by (rule consume_eventE) (use Cons.prems(2) in \<open>cases "k = event_user ev", auto simp: dex_user_def user.store_owner user.load_store_other\<close>)
  with rest show ?case
    by (rule Cons.IH)
qed simp

lemma apply_events_claims:
  assumes "apply_events held accts evs s L = Inr (s', L')" and "finite A"
    and "\<And>ev. ev \<in> set evs \<Longrightarrow> event_user ev \<in> A"
  shows "total_claim base_claim A L' + (\<Sum>ev\<leftarrow>evs. moved_base Bid s ev)
      = total_claim base_claim A L + (\<Sum>ev\<leftarrow>evs. moved_base Ask s ev) \<and>
    total_claim quote_claim A L' + (\<Sum>ev\<leftarrow>evs. moved_quote Ask s ev)
      = total_claim quote_claim A L + (\<Sum>ev\<leftarrow>evs. moved_quote Bid s ev)"
  using assms
proof (induction evs arbitrary: s L)
  case (Cons ev evs)
  from Cons.prems(1) obtain s1 L1 where one: "consume_event held accts ev s L = Inr (s1, L1)"
    and rest: "apply_events held accts evs s1 L1 = Inr (s', L')"
    by (auto simp: res_simps)
  note ih = Cons.IH [OF rest assms(2) Cons.prems(3), simplified
      moved_same_market [OF consume_event_same_market [OF one]]]
  have "event_user ev \<in> A"
    using Cons.prems(3) by simp
  from consume_event_claims [OF one assms(2) this] ih show ?case
    by simp
qed simp

section \<open>Fees of an order and fees of its fills\<close>

definition unreferred_fill :: "fee_tier \<Rightarrow> event \<Rightarrow> bool" where
  "unreferred_fill tier ev =
     (case ev of
        Fill f maker taker \<Rightarrow> cb_fee_tier taker = pack_fee_tier tier False
      | Out x info \<Rightarrow> False)"

definition filled_quote :: "dex_state \<Rightarrow> event \<Rightarrow> nat" where
  "filled_quote s ev = (case ev of Fill f maker taker \<Rightarrow> fill_quote s f | Out x info \<Rightarrow> 0)"

lemma filled_quote_same_market: "same_market s s' \<Longrightarrow> filled_quote s' ev = filled_quote s ev"
  by (simp add: filled_quote_def fill_quote_def same_market_fields split: event.splits)

lemma apply_fills_credit:
  assumes "apply_events held accts evs s L = Inr (s', L')" and "\<forall>ev \<in> set evs. unreferred_fill tier ev"
  shows "unat (ds_accumulated_fees s') = unat (ds_accumulated_fees s)
      + (\<Sum>ev\<leftarrow>evs. filled_quote s ev * taker_rate_nat tier div 2 ^ 32) \<and>
    unat (ds_accumulated_royalties s') = unat (ds_accumulated_royalties s)
      + (\<Sum>ev\<leftarrow>evs. filled_quote s ev * unat (ds_royalties_bps s) div 10000)"
  using assms
proof (induction evs arbitrary: s L)
  case (Cons ev evs)
  from Cons.prems(2) obtain f maker taker where ev: "ev = Fill f maker taker"
    and taker: "cb_fee_tier taker = pack_fee_tier tier False"
    by (auto simp: unreferred_fill_def split: event.splits)
  from Cons.prems(1) obtain s1 L1 where one: "consume_fill held accts f maker taker s L = Inr (s1, L1)"
    and rest: "apply_events held accts evs s1 L1 = Inr (s', L')"
    by (auto simp: ev res_simps)
  show ?case
  proof (rule consume_fill_effect [OF one], goal_cases)
    case (1 tier' referred sd u u')
    have "tier' = tier \<and> \<not> referred"
      using 1(1) by (simp add: taker fee_tier_from_u8_pack split: if_splits)
    with 1(2,3) Cons.IH [OF rest] Cons.prems(2) show ?case
      using filled_quote_same_market [OF 1(6)] same_market_fields(1) [OF 1(6)]
      by (simp add: ev referral_share_def filled_quote_def)
  qed
qed simp

lemma apply_fills_fees:
  assumes "apply_events held accts evs s L = Inr (s', L')" and "\<forall>ev \<in> set evs. unreferred_fill tier ev"
  shows "unat (ds_accumulated_fees s') + unat (ds_accumulated_royalties s')
    \<le> unat (ds_accumulated_fees s) + unat (ds_accumulated_royalties s)
       + order_fees s tier (\<Sum>ev\<leftarrow>evs. filled_quote s ev)"
  using apply_fills_credit [OF assms]
    floor_superadditive [of "taker_rate_nat tier" "2 ^ 32" "map (filled_quote s) evs"]
    floor_superadditive [of "unat (ds_royalties_bps s)" 10000 "map (filled_quote s) evs"]
  by (simp add: order_fees_def comp_def)

section \<open>An order and the crank of its fills\<close>

text \<open>
  What the order book promises of an order that meets no order of its own: its fills carry the
  callback information of the order and its side, their base quantities and the posted base
  quantity add up to the total, and so do their quote quantities and \<open>booked\<close>, the value at which the
  book itself accounts for the posted part.
\<close>

definition fills_of_order ::
    "callback_info \<Rightarrow> side \<Rightarrow> dex_state \<Rightarrow> order_summary \<Rightarrow> nat \<Rightarrow> event list \<Rightarrow> bool" where
  "fills_of_order cb sd s m booked evs \<longleftrightarrow>
     (\<forall>ev\<in>set evs.
        case ev of Fill f maker taker \<Rightarrow> fe_taker_side f = side_code sd \<and> taker = cb | Out x info \<Rightarrow> False) \<and>
     (\<Sum>ev\<leftarrow>evs. moved_base sd s ev) + unat (total_base_qty_posted m) = unat (total_base_qty m) \<and>
     (\<Sum>ev\<leftarrow>evs. moved_quote sd s ev) + booked = unat (total_quote_qty m)"

lemma fills_of_order_sums:
  assumes "fills_of_order cb sd s m booked evs"
  shows "cb_fee_tier cb = pack_fee_tier tier False \<Longrightarrow> \<forall>ev\<in>set evs. unreferred_fill tier ev"
    and "map (filled_quote s) evs = map (moved_quote sd s) evs"
    and "sd' \<noteq> sd \<Longrightarrow> (\<Sum>ev\<leftarrow>evs. moved_quote sd' s ev) = 0"
    and "sd' \<noteq> sd \<Longrightarrow> (\<Sum>ev\<leftarrow>evs. moved_base sd' s ev) = 0"
  using assms
  by (auto simp: fills_of_order_def filled_quote_def moved_quote_def moved_base_def unreferred_fill_def
      sum_list_eq_0_iff side_code_inject split: event.splits)

lemma fills_of_order_parts:
  assumes "fills_of_order cb sd s m booked evs"
  shows "(\<Sum>ev\<leftarrow>evs. moved_quote sd s ev) + booked = unat (total_quote_qty m)"
    and "(\<Sum>ev\<leftarrow>evs. moved_base sd s ev) + unat (total_base_qty_posted m) = unat (total_base_qty m)"
  using assms by (simp_all add: fills_of_order_def)

lemma order_fills_fees:
  assumes "apply_events held accts evs s L = Inr (s', L')" and "fills_of_order cb sd s m booked evs"
    and "cb_fee_tier cb = pack_fee_tier tier False"
  shows "unat (ds_accumulated_fees s') + unat (ds_accumulated_royalties s')
      \<le> unat (ds_accumulated_fees s) + unat (ds_accumulated_royalties s)
         + order_fees s tier (\<Sum>ev\<leftarrow>evs. moved_quote sd s ev)"
  using apply_fills_fees [OF assms(1) fills_of_order_sums(1) [OF assms(2,3)]]
    fills_of_order_sums(2) [OF assms(2)] by simp

text \<open>
  The program's own value of the posted part exceeds the book's by less than one quote multiplier,
  so the two agree when the multiplier is one; the matched part then cannot be negative.
\<close>

lemma posted_excess:
  assumes "new_order_book_result env program_id p a s L = Inr (tier, m, posted, L1)"
    and "fills_of_order cb sd s m
       (book_posted_quote s (nop_limit_price p) (unat (total_base_qty_posted m))) fills"
    and "ds_quote_currency_multiplier s = 1 \<or> posted \<le> total_quote_qty m"
  defines "excess \<equiv> unat posted - book_posted_quote s (nop_limit_price p) (unat (total_base_qty_posted m))"
  shows "excess < unat (ds_quote_currency_multiplier s)"
    and "taken_quote m posted + excess = (\<Sum>ev\<leftarrow>fills. moved_quote sd s ev)"
    and "taken_quote m posted + unat posted = unat (total_quote_qty m)"
proof -
  note near = new_order_posted_near [OF assms(1)] and parts = fills_of_order_parts(1) [OF assms(2)]
  show "excess < unat (ds_quote_currency_multiplier s)"
    using near by (simp add: excess_def)
  have "unat posted \<le> unat (total_quote_qty m)"
    using assms(3) near parts by (auto simp: word_le_nat_alt)
  with taken_quote_exact [OF this] near(1) parts
  show "taken_quote m posted + excess = (\<Sum>ev\<leftarrow>fills. moved_quote sd s ev)"
    and "taken_quote m posted + unat posted = unat (total_quote_qty m)"
    by (simp_all add: excess_def)
qed

text \<open>What placing an order does to the claims of its owner; a wrapped balance is a smaller one.\<close>

lemma place_bid_u64_claims:
  "quote_claim (place_bid_u64 cost posted bought p) + cost \<le> quote_claim p + bid_deposit cost p + posted"
  "base_claim (place_bid_u64 cost posted bought p) = base_claim p + bought"
  using place_bid_conserves [where p = p and cost = cost and posted = posted and bought = bought] mod_less_eq_dividend [of "quote_locked p + posted" "2 ^ 64"]
  by (simp_all add: place_bid_u64_def place_bid_def quote_claim_def base_claim_def)

lemma place_ask_u64_claims:
  "base_claim (place_ask_u64 amount posted proceeds p) + amount \<le> base_claim p + ask_deposit amount p + posted"
  "base_locked p + posted < 2 ^ 64 \<Longrightarrow>
   base_claim (place_ask_u64 amount posted proceeds p) + amount = base_claim p + ask_deposit amount p + posted"
  "quote_claim (place_ask_u64 amount posted proceeds p) = quote_claim p + proceeds"
  using place_ask_conserves [where p = p and amount = amount and posted = posted and proceeds = proceeds] mod_less_eq_dividend [of "base_locked p + posted" "2 ^ 64"]
  by (simp_all add: place_ask_u64_def place_ask_def quote_claim_def base_claim_def)

lemma new_order_claims:
  assumes "externals_ok env program_id B"
    and "finite A" and "A \<inter> B = {}" and "\<And>k. k \<in> A \<Longrightarrow> \<exists>u. dex_user program_id L k u"
    and "new_order_process env program_id accts (new_order_params_bytes p) L = Inr L'"
    and "new_order_parse env program_id L accts (nop_has_discount_token_account p \<noteq> 0) = Inr a"
    and "dex_state_get L (key (noa_market a)) = Inr s"
    and "user_account_get L (key (noa_user a)) = Inr u"
    and "new_order_book_result env program_id p a s L = Inr (tier, m, posted, L1)"
    and "key (noa_user a) \<in> A"
  obtains sd u1 m1 q r L2 where "nop_side p = side_code sd"
    and "(case sd of Bid \<Rightarrow> new_order_bid s tier u m posted | Ask \<Rightarrow> new_order_ask s tier u m posted)
           = Inr (u1, m1, q, r)"
    and "token_invoke env program_id (new_order_funding_cpi a
           (case sd of Bid \<Rightarrow> noa_quote_vault a | Ask \<Rightarrow> noa_base_vault a) q) L1 = Inr L2"
    and "\<And>claim. total_claim claim A L' + claim (position_of u)
      = total_claim claim A L + claim (position_of u1)"
proof (rule new_order_bookE [OF assms(5-9)])
  fix sd u1 m1 q r L2 L3 u2
  let ?k = "key (noa_user a)"
  assume side: "nop_side p = side_code sd"
    and run: "(case sd of Bid \<Rightarrow> new_order_bid s tier u m posted
        | Ask \<Rightarrow> new_order_ask s tier u m posted) = Inr (u1, m1, q, r)"
    and fund: "token_invoke env program_id (new_order_funding_cpi a
           (case sd of Bid \<Rightarrow> noa_quote_vault a | Ask \<Rightarrow> noa_base_vault a) q) L1 = Inr L2"
    and referral: "(case noa_fee_referral_account a of
            Some x \<Rightarrow> token_invoke env program_id (new_order_referral_cpi a s x r) L2
          | None \<Rightarrow> Inr L2) = Inr L3"
    and rec: "new_order_record u1 m1 posted (nop_client_order_id p) = Inr u2"
    and L': "L' = user_account_put ?k u2 L3" and u2: "user_account_get L' ?k = Inr u2"
  note ok = externals_okD [OF assms(1)]
  have book: "dex_frame program_id B B L L1"
    using assms(9) ok(1) by (auto simp: new_order_book_result_def res_simps)
  have "dex_frame program_id B B L2 L3"
    using referral ok(6) by (cases "noa_fee_referral_account a") auto
  with book ok(6) [OF fund] have frame: "dex_frame program_id B B L L3"
    by (meson dex_frame_trans)
  have "user_account_get L3 ?k = Inr u"
    using dex_frame_get [OF frame] assms(3,4,8,10) by (metis disjoint_iff)
  note put = total_claim_put [OF assms(2,10) this u2 [unfolded L'], folded L']
  have "total_claim claim A L' + claim (position_of u) = total_claim claim A L + claim (position_of u1)" for claim
    using put [of claim] total_claim_frame [OF frame assms(3,4)] new_order_record_position [OF rec] by simp
  with side run fund show thesis
    by (rule that)
qed

section \<open>A concrete trade\<close>

text \<open>The example user takes 2500 base tokens for 5000 quote tokens, in two fills of one maker's order.\<close>

definition ex_maker :: user_account where
  "ex_maker = ex_user\<lparr>ua_header := (ua_header ex_user)\<lparr>uh_owner := 22, uh_base_token_locked := 9000,
     uh_quote_token_locked := 9000\<rparr>\<rparr>"

definition ex_trade_ledger :: ledger where
  "ex_trade_ledger = ex_ledger(14 := \<lparr>lamports = 20, data = user_account_bytes ex_maker, owner = 100\<rparr>)"

definition ex_trade_fills :: "callback_info \<Rightarrow> side \<Rightarrow> event list" where
  "ex_trade_fills cb sd =
     [Fill \<lparr>fe_taker_side = side_code sd, fe_maker_order_id = 7, fe_quote_size = 4000, fe_base_size = 2000\<rparr>
        (ex_callback 14 0) cb,
      Fill \<lparr>fe_taker_side = side_code sd, fe_maker_order_id = 8, fe_quote_size = 1000, fe_base_size = 500\<rparr>
        (ex_callback 14 0) cb]"

abbreviation ex_taker :: callback_info where
  "ex_taker \<equiv> new_order_callback_info ex_order_accounts Base"

abbreviation ex_swapper :: callback_info where
  "ex_swapper \<equiv> swap_callback_info ex_swap_accounts Base"

lemma ex_maker_valid: "user_valid ex_maker"
  by (simp add: user_valid_def ex_maker_def ex_user_def user_account_header_new_def)

lemma ex_trade_load [simp]:
  "dex_state_get ex_trade_ledger 3 = Inr ex_market"
  "user_account_get ex_trade_ledger 10 = Inr ex_user"
  "user_account_get ex_trade_ledger 14 = Inr ex_maker"
  "owner (ex_trade_ledger 10) = 100" "owner (ex_trade_ledger 14) = 100"
  using ex_load market.load_cong [of ex_trade_ledger 3 ex_ledger] user.load_cong [of ex_trade_ledger 10 ex_ledger]
  by (auto intro!: user_account_get_written simp: ex_trade_ledger_def ex_maker_valid)

lemma ex_trade_users: "k \<in> {10, 14} \<Longrightarrow> \<exists>u. dex_user 100 ex_trade_ledger k u"
  by (auto simp: dex_user_def)

lemma ex_trade_parse:
  "new_order_parse (ex_env ex_summary []) 100 ex_trade_ledger ex_order_infos
     (nop_has_discount_token_account (ex_order_params sd) \<noteq> 0) = Inr ex_order_accounts"
  by (simp add: new_order_parse_def new_order_read_accounts_def ex_order_infos_def ex_env_def
      ex_info_def next_optional_def ex_order_accounts_def ex_order_params_def ex_trade_ledger_def
      check_signer_def check_account_key_def check_account_owner_def)

lemma ex_trade_book:
  "new_order_book_result (ex_env ex_summary []) 100 (ex_order_params sd) ex_order_accounts ex_market
     ex_trade_ledger = Inr (Base, ex_summary, 1000, ex_trade_ledger)"
  by (cases sd) (simp_all add: new_order_book_result_def ex_order_params_def ex_order_accounts_def
      ex_summary_def ex_defs new_order_eval)

lemma ex_trade_order:
  obtains L' where "new_order_process (ex_env ex_summary []) 100 ex_order_infos
      (new_order_params_bytes (ex_order_params sd)) ex_trade_ledger = Inr L'"
    and "user_account_get L' 14 = Inr ex_maker"
proof -
  have "from_buffer (data (ex_trade_ledger 10)) = Inr ex_user"
    using ex_trade_load(2) by (simp add: user_account_get_def)
  then obtain L' where run: "new_order_process (ex_env ex_summary []) 100 ex_order_infos
      (new_order_params_bytes (ex_order_params sd)) ex_trade_ledger = Inr L'"
    using ex_trade_parse [of sd]
    by (cases sd) (simp_all add: new_order_process_def new_order_params_codec.try_from_bytes_enc
      ex_order_params_def ex_order_accounts_def ex_summary_def new_order_eval ex_defs add_order_def
      new_order_funding_cpi_def new_order_aob_accounts_def)
  have load: "dex_state_get ex_trade_ledger (key (noa_market ex_order_accounts)) = Inr ex_market"
    "user_account_get ex_trade_ledger (key (noa_user ex_order_accounts)) = Inr ex_user"
    by (simp_all add: ex_order_accounts_def)
  have "user_account_get L' 14 = Inr ex_maker"
    by (rule new_order_bookE [OF run ex_trade_parse load ex_trade_book])
      (auto simp: ex_order_accounts_def ex_env_def user.load_store_other)
  with run that show thesis by blast
qed

lemma ex_trade_crank:
  assumes "user_account_get L 14 = Inr ex_maker" and "cb_fee_tier cb = 0"
  shows "\<exists>s' L'. apply_events [3, 5] [ex_info 10 False, ex_info 14 False] (ex_trade_fills cb sd) ex_market L
    = Inr (s', L')"
proof -
  have acct: "event_account [ex_info 10 False, ex_info 14 False] 14 = Inr (ex_info 14 False)"
    by (simp add: event_account_def binary_search_by_key_def binary_search_window.simps ex_info_def
        index_slice_def)
  have "from_buffer (data (L 14)) = Inr ex_maker"
    using assms(1) by (simp add: user_account_get_def)
  then show ?thesis
    by (cases sd)
      (simp_all add: ex_trade_fills_def acct assms(2) consume_eval eval_defs, simp_all add: ex_defs
        ex_maker_def assms(2) consume_eval eval_defs from_buffer_put user_valid_def acct [unfolded ex_info_def])
qed

lemma ex_trade_fills_ok:
  "fills_of_order cb sd ex_market ex_summary (book_posted_quote ex_market
     (nop_limit_price (ex_order_params sd)) (unat (total_base_qty_posted ex_summary))) (ex_trade_fills cb sd)"
  "ev \<in> set (ex_trade_fills cb sd) \<Longrightarrow> event_user ev \<in> {10, 14}"
  "cb_fee_tier ex_taker = 0" "cb_fee_tier ex_swapper = 0"
  by (auto simp: fills_of_order_def ex_trade_fills_def ex_summary_def moved_base_def moved_quote_def
      fill_base_def fill_quote_def ex_market_def ex_callback_def pack_fee_tier_def book_posted_quote_def
      ex_order_params_def new_order_callback_info_def swap_callback_info_def ex_order_accounts_def
      ex_swap_accounts_def)

lemma ex_trade_inputs:
  "dex_state_get ex_trade_ledger (key (noa_market ex_order_accounts)) = Inr ex_market"
  "user_account_get ex_trade_ledger (key (noa_user ex_order_accounts)) = Inr ex_user"
  "key (noa_user ex_order_accounts) \<in> {10, 14}" "nop_side (ex_order_params sd) = side_code sd"
  "noa_fee_referral_account ex_order_accounts = None"
  "ds_quote_currency_multiplier ex_market = 1 \<or> 1000 \<le> total_quote_qty ex_summary"
  "unat (total_quote_qty ex_summary) + order_fees ex_market Base (taken_quote ex_summary 1000) < 2 ^ 64"
  by (simp_all add: ex_order_accounts_def ex_order_params_def ex_market_def ex_summary_def
      order_fees_def taken_quote_def)

lemma ex_trade_owed:
  "unat (ds_accumulated_fees ex_market) = 70" "unat (ds_accumulated_royalties ex_market) = 90"
  "ds_quote_currency_multiplier ex_market = 1" "total_base_qty ex_swap_summary = 2500"
  "bid_deposit (unat (total_quote_qty ex_summary)
     + order_fees ex_market Base (taken_quote ex_summary 1000)) (position_of ex_user) = 4001"
  "unat (total_quote_qty ex_swap_summary)
     + order_fees ex_market Base (unat (total_quote_qty ex_swap_summary)) = 5001"
  by (simp_all add: ex_market_def ex_summary_def ex_swap_summary_def order_fees_def taken_quote_def
      ex_user_def position_of_def bid_deposit_def user_account_header_new_def)

lemma ex_trade_swap:
  "swap_parse (ex_env ex_swap_summary []) 100 ex_trade_ledger ex_swap_infos
     (swp_has_discount_token_account (ex_swap_params Bid) \<noteq> 0) = Inr ex_swap_accounts"
  "swap_book_result (ex_env ex_swap_summary []) 100 (ex_swap_params Bid) ex_swap_accounts ex_market
     ex_trade_ledger = Inr (Base, 5997, ex_swap_summary, ex_trade_ledger)"
  "swap_process (ex_env ex_swap_summary []) 100 ex_swap_infos (swap_params_bytes (ex_swap_params Bid))
     ex_trade_ledger = Inr ex_trade_ledger"
  "fills_of_order ex_swapper Bid ex_market ex_swap_summary 0 (ex_trade_fills ex_swapper Bid)"
proof -
  show parse: "swap_parse (ex_env ex_swap_summary []) 100 ex_trade_ledger ex_swap_infos
     (swp_has_discount_token_account (ex_swap_params Bid) \<noteq> 0) = Inr ex_swap_accounts"
    by (simp add: swap_parse_def swap_read_accounts_def ex_swap_infos_def ex_env_def ex_swap_params_def
      next_optional_def ex_swap_accounts_def ex_trade_ledger_def eval_defs)
  show "swap_book_result (ex_env ex_swap_summary []) 100 (ex_swap_params Bid) ex_swap_accounts ex_market
     ex_trade_ledger = Inr (Base, 5997, ex_swap_summary, ex_trade_ledger)"
    by (simp add: swap_book_result_def ex_swap_params_def ex_swap_accounts_def ex_swap_summary_def
      ex_defs swap_eval)
  show "swap_process (ex_env ex_swap_summary []) 100 ex_swap_infos (swap_params_bytes (ex_swap_params Bid))
     ex_trade_ledger = Inr ex_trade_ledger"
    using parse by (simp add: swap_process_def swap_params_codec.try_from_bytes_enc)
      (simp add: ex_swap_params_def ex_swap_accounts_def ex_swap_summary_def ex_defs swap_eval)
  show "fills_of_order ex_swapper Bid ex_market ex_swap_summary 0 (ex_trade_fills ex_swapper Bid)"
    by (auto simp: fills_of_order_def ex_trade_fills_def ex_swap_summary_def moved_base_def moved_quote_def
      fill_base_def fill_quote_def ex_market_def ex_callback_def)
qed

section \<open>Properties\<close>

text \<open>
  C1: A bid and the consumption of the events of its fills, taken together, on a market with quote
  multiplier 1: what the exchange owes in quote tokens, to its users, in fees and in royalties,
  grows by no more than the bid's owner has paid into the quote vault. With a larger multiplier
  it may also grow by the excess \<open>e\<close> of the program's value of the posted part over the order book's,
  which is less than the multiplier, and the difference \<open>e\<close> makes to the fees. What is owed in base
  tokens does not change at all. Users are the accounts of a finite set that contains the bid's
  owner and all makers and no account of an order book; the external programs keep the contract
  \<open>externals_ok\<close>.
  Hypotheses: the order has no referrer; the order book's fills carry the order's callback
  information, meet no order of the same owner, and together with the book's own value of the
  posted part make up its totals; where the multiplier is not 1, the program's value of the
  posted part is at most the total; total and fees stay below 2^64, as the program adds them
  unchecked.
\<close>

theorem bid_trade_solvent:
  assumes "externals_ok env program_id B"
    and "finite A" and "A \<inter> B = {}" and "\<And>k. k \<in> A \<Longrightarrow> \<exists>u. dex_user program_id L k u"
    and "new_order_process env program_id accts (new_order_params_bytes p) L = Inr L'"
    and "new_order_parse env program_id L accts (nop_has_discount_token_account p \<noteq> 0) = Inr a"
    and "dex_state_get L (key (noa_market a)) = Inr s"
    and "user_account_get L (key (noa_user a)) = Inr u"
    and "new_order_book_result env program_id p a s L = Inr (tier, m, posted, L1)"
    and "key (noa_user a) \<in> A" and "nop_side p = side_code Bid"
    and unreferred: "noa_fee_referral_account a = None"
    and rounding: "ds_quote_currency_multiplier s = 1 \<or> posted \<le> total_quote_qty m"
    and range: "unat (total_quote_qty m) + order_fees s tier (taken_quote m posted) < 2 ^ 64"
    and crank: "apply_events held users fills s L' = Inr (s', L'')"
    and book: "fills_of_order (new_order_callback_info a tier) Bid s m
       (book_posted_quote s (nop_limit_price p) (unat (total_base_qty_posted m))) fills"
    and named: "\<And>ev. ev \<in> set fills \<Longrightarrow> event_user ev \<in> A"
  shows "\<exists>q L2. token_invoke env program_id (new_order_funding_cpi a (noa_quote_vault a) q) L1 = Inr L2 \<and>
    unat q = bid_deposit (unat (total_quote_qty m) + order_fees s tier (taken_quote m posted)) (position_of u) \<and>
    total_claim base_claim A L'' = total_claim base_claim A L \<and>
    (let owed = total_claim quote_claim A L + unat (ds_accumulated_fees s) + unat (ds_accumulated_royalties s);
         owed' = total_claim quote_claim A L'' + unat (ds_accumulated_fees s') + unat (ds_accumulated_royalties s');
         matched = (\<Sum>ev\<leftarrow>fills. moved_quote Bid s ev);
         e = unat posted - book_posted_quote s (nop_limit_price p) (unat (total_base_qty_posted m))
     in e < unat (ds_quote_currency_multiplier s) \<and>
        owed' + order_fees s tier (matched - e) \<le> owed + unat q + e + order_fees s tier matched \<and>
        (ds_quote_currency_multiplier s = 1 \<longrightarrow> owed' \<le> owed + unat q))"
proof (rule new_order_claims [OF assms(1-10)])
  fix sd u1 m1 q r L2
  assume "nop_side p = side_code sd"
    and run: "(case sd of Bid \<Rightarrow> new_order_bid s tier u m posted | Ask \<Rightarrow> new_order_ask s tier u m posted)
           = Inr (u1, m1, q, r)"
    and fund: "token_invoke env program_id (new_order_funding_cpi a
           (case sd of Bid \<Rightarrow> noa_quote_vault a | Ask \<Rightarrow> noa_base_vault a) q) L1 = Inr L2"
    and claims: "\<And>claim. total_claim claim A L' + claim (position_of u)
      = total_claim claim A L + claim (position_of u1)"
  then have sd: "sd = Bid"
    using assms(11) by (cases sd) auto
  define e where "e = unat posted - book_posted_quote s (nop_limit_price p) (unat (total_base_qty_posted m))"
  let ?taken = "taken_quote m posted"
  let ?cost = "unat (total_quote_qty m) + order_fees s tier ?taken"
  note pos = new_order_bid_position [OF run [unfolded sd, simplified]]
  have cost: "bid_cost s tier m posted = ?cost"
    using range by (simp add: bid_cost_def)
  note order = place_bid_u64_claims [where p = "position_of u" and cost = ?cost and posted = "unat posted"
      and bought = "unat (total_base_qty m) - unat (total_base_qty_posted m)",
      folded pos(1) [unfolded cost] pos(2) [unfolded cost]]
  note fills = fills_of_order_sums(3,4) [OF book, of Ask] and sums = fills_of_order_parts [OF book]
    and excess = posted_excess [OF assms(9) book rounding, folded e_def]
    and moves = apply_events_claims [OF crank assms(2) named]
  have fees: "unat (ds_accumulated_fees s') + unat (ds_accumulated_royalties s')
      \<le> unat (ds_accumulated_fees s) + unat (ds_accumulated_royalties s)
         + order_fees s tier (\<Sum>ev\<leftarrow>fills. moved_quote Bid s ev)"
    by (rule order_fills_fees [OF crank book]) (simp add: new_order_callback_info_def unreferred)
  have "total_claim base_claim A L'' = total_claim base_claim A L"
    using moves [THEN conjunct1] claims [of base_claim] order(2) fills(2) sums(2) by simp
  moreover have "total_claim quote_claim A L'' + order_fees s tier ?taken
      \<le> total_claim quote_claim A L + unat q + e"
    using moves [THEN conjunct2] claims [of quote_claim] order(1) fills(1) excess(2,3) by simp
  moreover have "?taken = (\<Sum>ev\<leftarrow>fills. moved_quote Bid s ev) - e"
    using excess(2) by simp
  ultimately show ?thesis
    using fund fees excess(1) unfolding Let_def e_def [symmetric]
    by (intro exI [of _ q] exI [of _ L2]) (cases "ds_quote_currency_multiplier s = 1"; simp add: sd pos(2) cost)
qed

theorem bid_trade_solvent_witness:
  "\<exists>L' s' L''. new_order_process (ex_env ex_summary []) 100 ex_order_infos
      (new_order_params_bytes (ex_order_params Bid)) ex_trade_ledger = Inr L' \<and>
    apply_events [3, 5] [ex_info 10 False, ex_info 14 False] (ex_trade_fills ex_taker Bid) ex_market L'
      = Inr (s', L'') \<and>
    total_claim quote_claim {10, 14} L'' + unat (ds_accumulated_fees s') + unat (ds_accumulated_royalties s')
      \<le> total_claim quote_claim {10, 14} ex_trade_ledger + 160 + 4001 \<and>
    total_claim base_claim {10, 14} L'' = total_claim base_claim {10, 14} ex_trade_ledger"
proof -
  obtain L' where run: "new_order_process (ex_env ex_summary []) 100 ex_order_infos
      (new_order_params_bytes (ex_order_params Bid)) ex_trade_ledger = Inr L'"
    and "user_account_get L' 14 = Inr ex_maker"
    by (rule ex_trade_order)
  then obtain s' L'' where crank: "apply_events [3, 5] [ex_info 10 False, ex_info 14 False]
      (ex_trade_fills ex_taker Bid) ex_market L' = Inr (s', L'')"
    using ex_trade_crank ex_trade_fills_ok(3) by blast
  note load = ex_trade_inputs
  from bid_trade_solvent [OF ex_env_ok [of _ _ "{}"] _ _ ex_trade_users run ex_trade_parse load(1,2) ex_trade_book
      load(3-7) crank ex_trade_fills_ok(1) ex_trade_fills_ok(2) [of _ ex_taker Bid]] run crank
  show ?thesis by (auto simp: ex_trade_owed Let_def)
qed

text \<open>
  C2: An ask and the consumption of the events of its fills, taken together: what the exchange owes in
  base tokens grows by no more than the ask's owner has paid into the base vault, and by exactly
  that unless the 64-bit balance of locked tokens wraps; on a market with quote multiplier 1 what
  it owes in quote tokens, to its users, in fees and in royalties, does not grow. With a larger
  multiplier it falls by at least the excess \<open>e\<close> of the program's value of the posted part over the
  order book's, less the difference \<open>e\<close> makes to the fees. Users are the accounts of a finite set
  that contains the ask's owner and all makers and no account of an order book; the external
  programs keep the contract \<open>externals_ok\<close>. Hypotheses: the order has no referrer; the order book's fills carry
  the order's callback information, meet no order of the same owner, and together with the book's
  own value of the posted part make up its totals; where the multiplier is not 1, the program's
  value of the posted part is at most the total, without which the seller is credited a wrapped
  amount.
\<close>

theorem ask_trade_solvent:
  assumes "externals_ok env program_id B"
    and "finite A" and "A \<inter> B = {}" and "\<And>k. k \<in> A \<Longrightarrow> \<exists>u. dex_user program_id L k u"
    and "new_order_process env program_id accts (new_order_params_bytes p) L = Inr L'"
    and "new_order_parse env program_id L accts (nop_has_discount_token_account p \<noteq> 0) = Inr a"
    and "dex_state_get L (key (noa_market a)) = Inr s"
    and "user_account_get L (key (noa_user a)) = Inr u"
    and "new_order_book_result env program_id p a s L = Inr (tier, m, posted, L1)"
    and "key (noa_user a) \<in> A" and "nop_side p = side_code Ask"
    and unreferred: "noa_fee_referral_account a = None"
    and rounding: "ds_quote_currency_multiplier s = 1 \<or> posted \<le> total_quote_qty m"
    and crank: "apply_events held users fills s L' = Inr (s', L'')"
    and book: "fills_of_order (new_order_callback_info a tier) Ask s m
       (book_posted_quote s (nop_limit_price p) (unat (total_base_qty_posted m))) fills"
    and named: "\<And>ev. ev \<in> set fills \<Longrightarrow> event_user ev \<in> A"
  shows "\<exists>q L2. token_invoke env program_id (new_order_funding_cpi a (noa_base_vault a) q) L1 = Inr L2 \<and>
    unat q = ask_deposit (unat (total_base_qty m)) (position_of u) \<and>
    total_claim base_claim A L'' \<le> total_claim base_claim A L + unat q \<and>
    (unat (uh_base_token_locked (ua_header u)) + unat (total_base_qty_posted m) < 2 ^ 64 \<longrightarrow>
      total_claim base_claim A L'' = total_claim base_claim A L + unat q) \<and>
    (let owed = total_claim quote_claim A L + unat (ds_accumulated_fees s) + unat (ds_accumulated_royalties s);
         owed' = total_claim quote_claim A L'' + unat (ds_accumulated_fees s') + unat (ds_accumulated_royalties s');
         matched = (\<Sum>ev\<leftarrow>fills. moved_quote Ask s ev);
         e = unat posted - book_posted_quote s (nop_limit_price p) (unat (total_base_qty_posted m))
     in e < unat (ds_quote_currency_multiplier s) \<and>
        owed' + e + order_fees s tier (matched - e) \<le> owed + order_fees s tier matched \<and>
        (ds_quote_currency_multiplier s = 1 \<longrightarrow> owed' \<le> owed))"
proof (rule new_order_claims [OF assms(1-10)])
  fix sd u1 m1 q r L2
  assume "nop_side p = side_code sd"
    and run: "(case sd of Bid \<Rightarrow> new_order_bid s tier u m posted | Ask \<Rightarrow> new_order_ask s tier u m posted)
           = Inr (u1, m1, q, r)"
    and fund: "token_invoke env program_id (new_order_funding_cpi a
           (case sd of Bid \<Rightarrow> noa_quote_vault a | Ask \<Rightarrow> noa_base_vault a) q) L1 = Inr L2"
    and claims: "\<And>claim. total_claim claim A L' + claim (position_of u)
      = total_claim claim A L + claim (position_of u1)"
  then have sd: "sd = Ask"
    using assms(11) by (cases sd) auto
  define e where "e = unat posted - book_posted_quote s (nop_limit_price p) (unat (total_base_qty_posted m))"
  let ?taken = "taken_quote m posted"
  note pos = new_order_ask_position [OF run [unfolded sd, simplified]]
  note order = place_ask_u64_claims [where p = "position_of u" and amount = "unat (total_base_qty m)"
      and posted = "unat (total_base_qty_posted m)" and proceeds = "?taken - order_fees s tier ?taken",
      folded pos(1,2)]
  note fills = fills_of_order_sums(3,4) [OF book, of Bid] and sums = fills_of_order_parts [OF book]
    and excess = posted_excess [OF assms(9) book rounding, folded e_def]
    and moves = apply_events_claims [OF crank assms(2) named]
  have fees: "unat (ds_accumulated_fees s') + unat (ds_accumulated_royalties s')
      \<le> unat (ds_accumulated_fees s) + unat (ds_accumulated_royalties s)
         + order_fees s tier (\<Sum>ev\<leftarrow>fills. moved_quote Ask s ev)"
    by (rule order_fills_fees [OF crank book]) (simp add: new_order_callback_info_def unreferred)
  have "total_claim base_claim A L'' \<le> total_claim base_claim A L + unat q"
    using moves [THEN conjunct1] claims [of base_claim] order(1) fills(2) sums(2) by simp
  moreover have "total_claim base_claim A L'' = total_claim base_claim A L + unat q"
    if "unat (uh_base_token_locked (ua_header u)) + unat (total_base_qty_posted m) < 2 ^ 64"
    using moves [THEN conjunct1] claims [of base_claim] order(2) that fills(2) sums(2)
    by (simp add: position_of_def Let_def)
  moreover have "total_claim quote_claim A L'' + order_fees s tier ?taken + e
      = total_claim quote_claim A L"
    using moves [THEN conjunct2] claims [of quote_claim] order(3) fills(1) excess(2) pos(3) by simp
  moreover have "?taken = (\<Sum>ev\<leftarrow>fills. moved_quote Ask s ev) - e"
    using excess(2) by simp
  ultimately show ?thesis
    using fund fees excess(1) unfolding Let_def e_def [symmetric]
    by (intro exI [of _ q] exI [of _ L2]) (cases "ds_quote_currency_multiplier s = 1"; simp add: sd pos(2))
qed

theorem ask_trade_solvent_witness:
  "\<exists>L' s' L''. new_order_process (ex_env ex_summary []) 100 ex_order_infos
      (new_order_params_bytes (ex_order_params Ask)) ex_trade_ledger = Inr L' \<and>
    apply_events [3, 5] [ex_info 10 False, ex_info 14 False] (ex_trade_fills ex_taker Ask) ex_market L'
      = Inr (s', L'') \<and>
    total_claim quote_claim {10, 14} L'' + unat (ds_accumulated_fees s') + unat (ds_accumulated_royalties s')
      \<le> total_claim quote_claim {10, 14} ex_trade_ledger + 160"
proof -
  obtain L' where run: "new_order_process (ex_env ex_summary []) 100 ex_order_infos
      (new_order_params_bytes (ex_order_params Ask)) ex_trade_ledger = Inr L'"
    and "user_account_get L' 14 = Inr ex_maker"
    by (rule ex_trade_order)
  then obtain s' L'' where crank: "apply_events [3, 5] [ex_info 10 False, ex_info 14 False]
      (ex_trade_fills ex_taker Ask) ex_market L' = Inr (s', L'')"
    using ex_trade_crank ex_trade_fills_ok(3) by blast
  note load = ex_trade_inputs
  from ask_trade_solvent [OF ex_env_ok [of _ _ "{}"] _ _ ex_trade_users run ex_trade_parse load(1,2) ex_trade_book
      load(3-6) crank ex_trade_fills_ok(1) ex_trade_fills_ok(2) [of _ ex_taker Ask]] run crank
  show ?thesis by (auto simp: ex_trade_owed Let_def)
qed

text \<open>
  C12: A swap without a referrer and the consumption of the events of its fills, taken together: what
  the exchange owes its makers changes by exactly the base tokens the swap moved out of or into
  the base vault, and what it owes in quote tokens, to its users, in fees and in royalties, grows
  by no more than the quote vault has received, respectively falls by at least what the quote
  vault has paid out. Users are the accounts of a finite set that contains all makers and no account
  of an order book; the external programs keep the contract \<open>externals_ok\<close>. Hypotheses: the order
  book posts nothing of an order that may not be
  posted, and its fills carry the swap's callback information and make up its totals; of a bid,
  total and fees stay below 2^64, as the program adds them unchecked. With a referrer the booked
  fees can exceed what was paid, by the rounding of the referral shares.
\<close>

theorem swap_trade_solvent:
  assumes "externals_ok env program_id B"
    and "finite A" and "A \<inter> B = {}" and "\<And>k. k \<in> A \<Longrightarrow> \<exists>u. dex_user program_id L k u"
    and "swap_process env program_id accts (swap_params_bytes p) L = Inr L'"
    and "swap_parse env program_id L accts (swp_has_discount_token_account p \<noteq> 0) = Inr a"
    and "dex_state_get L (key (swa_market a)) = Inr s"
    and "swap_book_result env program_id p a s L = Inr (tier, mq, m, L1)"
    and "swp_side p = side_code sd"
    and unreferred: "swa_fee_referral_account a = None"
    and range: "sd = Bid \<Longrightarrow>
      unat (total_quote_qty m) + order_fees s tier (unat (total_quote_qty m)) < 2 ^ 64"
    and crank: "apply_events held users fills s L' = Inr (s', L'')"
    and book: "total_base_qty_posted m = 0" "fills_of_order (swap_callback_info a tier) sd s m 0 fills"
    and named: "\<And>ev. ev \<in> set fills \<Longrightarrow> event_user ev \<in> A"
  shows "\<exists>q L2 L3. token_invoke env program_id (fst (swap_legs a s sd (total_base_qty m) q)) L1 = Inr L2 \<and>
    token_invoke env program_id (snd (swap_legs a s sd (total_base_qty m) q)) L2 = Inr L3 \<and>
    (let owed = total_claim quote_claim A L + unat (ds_accumulated_fees s) + unat (ds_accumulated_royalties s);
         owed' = total_claim quote_claim A L'' + unat (ds_accumulated_fees s') + unat (ds_accumulated_royalties s')
     in case sd of
       Bid \<Rightarrow> unat q = unat (total_quote_qty m) + order_fees s tier (unat (total_quote_qty m)) \<and>
         total_claim base_claim A L'' + unat (total_base_qty m) = total_claim base_claim A L \<and> owed' \<le> owed + unat q
     | Ask \<Rightarrow> unat q + order_fees s tier (unat (total_quote_qty m)) = unat (total_quote_qty m) \<and>
         total_claim base_claim A L'' = total_claim base_claim A L + unat (total_base_qty m) \<and> owed' + unat q \<le> owed)"
proof (rule swap_processE [OF assms(5-8)])
  fix sd' b q r L2 L3
  assume "swp_side p = side_code sd'"
    and amounts: "swap_amounts s tier sd' (swp_base_qty p) mq m = Inr (True, b, q, r)"
    and legs: "token_invoke env program_id (fst (swap_legs a s sd' b q)) L1 = Inr L2"
      "token_invoke env program_id (snd (swap_legs a s sd' b q)) L2 = Inr L3"
  then have sd: "sd' = sd"
    using assms(9) by simp
  note fills = fills_of_order_sums(3,4) [OF book(2)] and sums = fills_of_order_parts [OF book(2)]
  have fees: "unat (ds_accumulated_fees s') + unat (ds_accumulated_royalties s')
      \<le> unat (ds_accumulated_fees s) + unat (ds_accumulated_royalties s)
         + order_fees s tier (unat (total_quote_qty m))"
    using order_fills_fees [OF crank book(2), of tier] sums(1)
    by (simp add: swap_callback_info_def unreferred)
  have swap: "total_claim claim A L' = total_claim claim A L" for claim
    using swap_step [OF assms(1,5)] assms(3,4) by (rule total_claim_frame)
  note moves = apply_events_claims [OF crank assms(2) named, unfolded swap]
  have "b = total_base_qty m \<and> (let owed = total_claim quote_claim A L + unat (ds_accumulated_fees s) + unat (ds_accumulated_royalties s);
         owed' = total_claim quote_claim A L'' + unat (ds_accumulated_fees s') + unat (ds_accumulated_royalties s')
     in case sd of
       Bid \<Rightarrow> unat q = unat (total_quote_qty m) + order_fees s tier (unat (total_quote_qty m)) \<and>
         total_claim base_claim A L'' + unat (total_base_qty m) = total_claim base_claim A L \<and> owed' \<le> owed + unat q
     | Ask \<Rightarrow> unat q + order_fees s tier (unat (total_quote_qty m)) = unat (total_quote_qty m) \<and>
         total_claim base_claim A L'' = total_claim base_claim A L + unat (total_base_qty m) \<and> owed' + unat q \<le> owed)"
  proof (cases sd)
    case Bid
    note amts = swap_amounts_bid [OF amounts [unfolded sd Bid]]
    have "unat q = unat (total_quote_qty m) + order_fees s tier (unat (total_quote_qty m))"
      using amts(3) range [OF Bid] by simp
    then show ?thesis
      using moves amts(2) fills [of Ask] sums book(1) fees by (simp add: Bid Let_def)
  next
    case Ask
    note amts = swap_amounts_ask [OF amounts [unfolded sd Ask]]
    show ?thesis
      using moves amts(2,3) fills [of Bid] sums book(1) fees by (simp add: Ask Let_def)
  qed
  with legs show ?thesis
    unfolding sd by blast
qed

theorem swap_trade_solvent_witness:
  "\<exists>s' L''. swap_process (ex_env ex_swap_summary []) 100 ex_swap_infos
      (swap_params_bytes (ex_swap_params Bid)) ex_trade_ledger = Inr ex_trade_ledger \<and>
    apply_events [3, 5] [ex_info 10 False, ex_info 14 False] (ex_trade_fills ex_swapper Bid) ex_market
      ex_trade_ledger = Inr (s', L'') \<and>
    total_claim base_claim {10, 14} L'' + 2500 = total_claim base_claim {10, 14} ex_trade_ledger \<and>
    total_claim quote_claim {10, 14} L'' + unat (ds_accumulated_fees s') + unat (ds_accumulated_royalties s')
      \<le> total_claim quote_claim {10, 14} ex_trade_ledger + 160 + 5001"
proof -
  obtain s' L'' where crank: "apply_events [3, 5] [ex_info 10 False, ex_info 14 False]
      (ex_trade_fills ex_swapper Bid) ex_market ex_trade_ledger = Inr (s', L'')"
    using ex_trade_crank [OF ex_trade_load(3) ex_trade_fills_ok(4)] by blast
  have load: "dex_state_get ex_trade_ledger (key (swa_market ex_swap_accounts)) = Inr ex_market"
    "swp_side (ex_swap_params Bid) = side_code Bid" "swa_fee_referral_account ex_swap_accounts = None"
    "unat (total_quote_qty ex_swap_summary)
      + order_fees ex_market Base (unat (total_quote_qty ex_swap_summary)) < 2 ^ 64"
    "total_base_qty_posted ex_swap_summary = 0"
    by (simp_all add: ex_swap_accounts_def ex_swap_params_def ex_swap_summary_def order_fees_def ex_market_def)
  from swap_trade_solvent [OF ex_env_ok [of _ _ "{}"] _ _ ex_trade_users ex_trade_swap(3,1) load(1)
      ex_trade_swap(2) load(2-4) crank load(5) ex_trade_swap(4) ex_trade_fills_ok(2) [of _ ex_swapper Bid]]
    crank ex_trade_swap(3)
  show ?thesis
    by (auto simp: ex_trade_owed Let_def)
qed

text \<open>
  C13: Consuming events creates and destroys nothing: over the users named by the queue, base tokens
  owed change only by what fills of asking takers bring in and fills of bidding takers take out,
  quote tokens owed the other way round, and orders that leave the book change neither. The users
  are user accounts outside the order books, and the external programs keep the contract
  \<open>externals_ok\<close>.
\<close>

theorem consume_events_conserves:
  assumes "externals_ok env program_id B"
    and "finite A" and "A \<inter> B = {}" and "\<And>k. k \<in> A \<Longrightarrow> \<exists>u. dex_user program_id L k u"
    and "consume_events_process env program_id accts (consume_events_params_bytes p) L = Inr L'"
    and "consume_events_parse program_id L accts = Inr a"
    and "dex_state_get L (key (cea_market a)) = Inr s"
    and "event_queue_from_buffer env (data (L (key (cea_event_queue a)))) = Inr events"
    and "\<And>ev. ev \<in> set events \<Longrightarrow> event_user ev \<in> A"
  shows "\<exists>n \<le> length events.
    total_claim base_claim A L' + (\<Sum>ev\<leftarrow>take n events. moved_base Bid s ev)
      = total_claim base_claim A L + (\<Sum>ev\<leftarrow>take n events. moved_base Ask s ev) \<and>
    total_claim quote_claim A L' + (\<Sum>ev\<leftarrow>take n events. moved_quote Ask s ev)
      = total_claim quote_claim A L + (\<Sum>ev\<leftarrow>take n events. moved_quote Bid s ev)"
proof (rule consume_events_processE [OF assms(5-8)])
  fix n' s1 L1
  let ?k = "key (cea_market a)"
  assume loop: "consume_loop [?k, key (cea_event_queue a)] (cea_user_accounts a)
       (take (unat (cep_max_iterations p)) events) 0 s L = Inr (n', s1, L1)"
    and fin: "if n' = 0 then cep_no_op_err p \<noteq> 1 \<and> L' = dex_state_put ?k s1 L1
         else aob_consume_events env program_id (cea_orderbook a) (cea_event_queue a) n'
           (dex_state_put ?k s1 L1) = Inr L'"
  obtain n where "n \<le> min (unat (cep_max_iterations p)) (length events)"
    and run: "apply_events [?k, key (cea_event_queue a)] (cea_user_accounts a) (take n events) s L = Inr (s1, L1)"
    using consume_loop_prefix [OF loop] .
  have "owner (L ?k) = program_id"
    using assms(6) by (auto simp: consume_events_parse_def res_simps)
  with assms(4,7) have out: "?k \<notin> A"
    using not_user_and_market by (metis dex_market_def)
  then have put: "user_account_get (dex_state_put ?k s1 L1) k = user_account_get L1 k" if "k \<in> A" for k
    using that by (metis user.load_cong market.store_other)
  have "\<exists>u. dex_user program_id (dex_state_put ?k s1 L1) k u" if "k \<in> A" for k
    using apply_events_users [OF run assms(4) [OF that]] put [OF that]
    by (simp add: dex_user_def market.store_owner)
  moreover have "dex_frame program_id B B (dex_state_put ?k s1 L1) L'"
    using fin externals_okD(3) [OF assms(1)] by (auto split: if_splits)
  ultimately have "total_claim claim A L' = total_claim claim A L1" for claim
    using total_claim_frame [OF _ assms(3)] total_claim_cong [OF put] by metis
  moreover have "\<And>ev. ev \<in> set (take n events) \<Longrightarrow> event_user ev \<in> A"
    using assms(9) by (meson in_set_takeD)
  note apply_events_claims [OF run assms(2) this]
  ultimately show ?thesis
    using \<open>n \<le> min _ _\<close> by (intro exI [of _ n]) simp
qed

theorem consume_events_conserves_witness:
  "\<exists>L' n. consume_events_process ex_queue_env 100 ex_queue_infos
      (consume_events_params_bytes ex_queue_params) ex_ledger = Inr L' \<and>
    total_claim base_claim {10} L' + (\<Sum>ev\<leftarrow>take n [ex_fill 0 0, ex_out]. moved_base Bid ex_market ev)
      = total_claim base_claim {10} ex_ledger
        + (\<Sum>ev\<leftarrow>take n [ex_fill 0 0, ex_out]. moved_base Ask ex_market ev)"
proof -
  obtain L' where run: "consume_events_process ex_queue_env 100 ex_queue_infos
      (consume_events_params_bytes ex_queue_params) ex_ledger = Inr L'"
    using ex_queue_runs by blast
  have load: "dex_state_get ex_ledger (key (cea_market ex_queue_accounts)) = Inr ex_market"
    "event_queue_from_buffer ex_queue_env (data (ex_ledger (key (cea_event_queue ex_queue_accounts))))
      = Inr [ex_fill 0 0, ex_out]"
    by (simp_all add: ex_queue_accounts_def ex_queue_env_def ex_env_def)
  have ok: "externals_ok ex_queue_env 100 {}"
    by (simp add: ex_queue_env_def ex_env_ok)
  have user: "\<exists>u. dex_user 100 ex_ledger k u" if "k \<in> {10}" for k
    using that by (simp add: dex_user_def)
  have named: "event_user ev \<in> {10}" if "ev \<in> set [ex_fill 0 0, ex_out]" for ev
    using that by (auto simp: ex_fill_def ex_out_def ex_callback_def)
  show ?thesis
    using consume_events_conserves [OF ok _ _ user run ex_queue_parse load named] run by auto
qed

end
