(* ===== verification/Spec2Isabelle.thy ===== *)
theory Spec2Isabelle
  imports Crank_Loop State_Machine Solvency
begin

text \<open>
  A verification development for the Serum DEX v4 program: an on-chain exchange for pairs of SPL
  tokens (\<^verbatim>\<open>src/program\<close>) and the daemon that cranks its event queues (\<^verbatim>\<open>src/cranker\<close>).

  \<^bold>\<open>The program.\<close> A market is an account holding a \<open>DexState\<close>: the two mints, the two vaults, the
  order book it delegates matching to, the admin, the accumulated fees and royalties and the
  currency multipliers. Every user has one account per market, a \<open>UserAccount\<close>: free and locked
  balances of both tokens and a table of open orders. An instruction arrives as a list of
  accounts and a byte string; the program checks signers, owners and addresses, decodes the
  parameters, calls the order book (the crate \<^verbatim>\<open>asset-agnostic-orderbook\<close>), moves tokens through the
  SPL token program and updates the balances. Matching an order does not touch the maker's
  account: it queues an event, which the instruction \<open>consume_events\<close> applies later.

  \<^bold>\<open>The model.\<close> The state of the chain is a \<open>ledger\<close>, a function from public keys to accounts
  (lamports, data bytes, owner). An instruction is a function from the accounts passed, the
  instruction data and the ledger to \<open>ledger program_result\<close>: the new ledger, an error
  (\<open>Err\<close>, which the runtime reports and rolls back) or a \<open>Panic\<close> (a failed \<open>unwrap\<close>, an index out
  of bounds, a division by zero). State structures are read from and written back to the account
  bytes, so two structures at the same key are the same bytes; a \<open>RefMut\<close> that is written
  through while it is held becomes a write at the end of its life, and borrowing an account that
  is already borrowed is a panic or an error, as in Rust. Integers have the widths of the
  source: \<open>+\<close>, \<open>-\<close> and \<open>*\<close> wrap, as the release build for the chain does, \<open>checked_add\<close> and its
  siblings return an option.

  \<^item> \<open>Prelude\<close>: checked and saturating arithmetic, results with panics, and their rules.
  \<^item> \<open>Errors\<close> (\<^verbatim>\<open>error.rs\<close>): \<open>DexError\<close>, its numbering, and the part of \<open>ProgramError\<close> in use.
  \<^item> \<open>Codec\<close>: little-endian encodings of the plain-data structures; the locale \<open>codec\<close> is the
    interface of an encoder and decoder, and every parameter structure interprets it.
  \<^item> \<open>Runtime\<close> (\<^verbatim>\<open>utils.rs\<close>): accounts, the account iterator, borrows, the three account checks;
    the locale \<open>account_view\<close> is the interface of a typed view on an account's data.
  \<^item> \<open>Fixed_Point\<close> (\<^verbatim>\<open>utils.rs\<close>): 32.32 fixed-point multiplication and division.
  \<^item> \<open>State_Types\<close>, \<open>Market_State\<close>, \<open>User_Account\<close>, \<open>Fee_Tier\<close> (\<^verbatim>\<open>state.rs\<close>, constants of
    \<^verbatim>\<open>processor.rs\<close>): tags, sides, \<open>DexState\<close> with its unit conversions, \<open>UserAccount\<close> with its table
    of orders (locale \<open>order_table\<close>), fee tiers and fees.
  \<^item> \<open>Metadata_Checks\<close> (\<^verbatim>\<open>utils.rs\<close>): the checks of a token's metadata account.
  \<^item> \<open>Externals\<close>: what the program calls and the repository does not contain.
  \<^item> \<open>Accounting\<close>: the abstract specification, balances as natural numbers and the movements an
    instruction may make on them.
  \<^item> \<open>Example_World\<close>: a concrete market, user, ledger and environment for the witnesses.
  \<^item> \<open>New_Order\<close>, \<open>Swap\<close>, \<open>Consume_Events\<close>, \<open>Cancel_Order\<close>, \<open>Settle\<close>, \<open>Sweep_Fees\<close>,
    \<open>Create_Market\<close>, \<open>Initialize_Account\<close>, \<open>Close_Account\<close>, \<open>Close_Market\<close>, \<open>Update_Royalties\<close>: one
    theory for each file of \<^verbatim>\<open>src/program/src/processor\<close>, with the parameters, the accounts,
    \<open>Accounts::parse\<close>, \<open>check_accounts\<close>, \<open>process\<close> and its parts, in the order of the source.
  \<^item> \<open>Processor\<close> (\<^verbatim>\<open>processor.rs\<close>, \<^verbatim>\<open>entrypoint.rs\<close>, \<^verbatim>\<open>instruction_auto.rs\<close>): tags and dispatch.
  \<^item> \<open>Instructions\<close> (\<^verbatim>\<open>instruction_auto.rs\<close>): the eleven builders of instructions.
  \<^item> \<open>Cranker\<close>, \<open>Crank_Loop\<close> (\<^verbatim>\<open>src/cranker\<close>): the accounts and parameters of a crank, the no-op filter,
    retrying; then \<open>Context\<close>, one pass of the crank and its loop.
  \<^item> \<open>Dex_Views\<close>, \<open>System\<close>, \<open>State_Machine\<close>: the program as a state machine over its market and user
    accounts. \<open>dex_frame\<close> says which of them a step may change, \<open>System\<close> proves a frame and what is
    kept inside it for each of the eleven handlers, \<open>dex_step\<close> and \<open>reachable\<close> are the steps and the
    ledgers they lead to.
  \<^item> \<open>Solvency\<close>: orders, swaps and cranks taken together, and the total the exchange owes.
  \<^item> This theory: properties that span components and show what referrers do.

  \<^bold>\<open>Code outside the repository.\<close> The order book, the SPL token and system programs, token
  metadata, the address derivation, the clock and the rent of the runtime and the helper crate
  \<^verbatim>\<open>bonfida-utils\<close> are the fields of the record \<open>externals\<close>, an argument of every definition that
  calls them. Nothing is assumed of them globally. A theorem that relies on their behaviour has
  it as a named hypothesis: that the order book keeps to the maximum it was given
  (\<open>book_keeps_maximum\<close>), that the token program leaves the data of the program's accounts alone
  (\<open>token_keeps_data\<close>), refuses a transfer on the authority of a stranger or the closing of an
  account that holds tokens (\<open>token_refuses\<close>), that the key check of \<^verbatim>\<open>bonfida-utils\<close> accepts only the
  key it is given (\<open>key_check\<close>), that the system program allocates as many bytes as it was asked
  for (\<open>allocates\<close>). The theorems
  about the whole program have the contract \<open>externals_ok\<close>: the order book changes no user account
  or market outside the accounts \<open>B\<close> of order books, the token program none at all, and the system
  program allocates zeroed data. The theorems about trades rely on the order book for fills that
  carry the order's callback information and that, with the value at which the book itself accounts
  for the posted part, add up to its totals (\<open>fills_of_order\<close>), those about instructions that are
  built on the layout the derive macro of \<^verbatim>\<open>bonfida-utils\<close> generates (\<open>casts_params\<close>,
  \<open>casts_crank_accounts\<close>). The node a crank talks to, the signing of its transactions and the old
  interface of the order book it reads the queue with are the fields of \<open>crank_client\<close>. Each such
  theorem has a witness over the environment of \<open>Example_World\<close>.

  \<^bold>\<open>What is shown.\<close>
  \<^item> Refinement of the accounting: a bid, an ask, a fill, an order leaving the book, a
    cancellation and a settlement move the balances of a user account as the movements of
    \<open>Accounting\<close> say, and the token transfers carry the same amounts. The source computes the cost
    of a bid, the matched quote quantity of an order (\<open>taken_quote\<close>) and the locked balances of a new
    order without a check; there the theorems hold for the 64-bit arithmetic as it is, and say
    under which conditions it agrees with the natural numbers.
  \<^item> The value of the posted part: the program computes it anew from the base quantity and rounds
    after the conversion by the multipliers, the order book before it. The program's value is the
    book's or larger by less than the quote multiplier (\<open>new_order_posted_near\<close>), so they agree when
    the multiplier is 1; otherwise it can exceed the total of the order, the matched quantity wraps
    and the seller is credited nearly \<open>2 ^ 64\<close> quote tokens.
  \<^item> Solvency: an order or a swap without a referrer, together with the crank of its fills, leaves the
    exchange owing its users, in fees and in royalties, no more than before plus what the vaults
    have received, on a market with quote multiplier 1; with a larger one the difference of the two
    values of the posted part comes on top. The fees of the fills, each rounded down, never
    exceed what the taker paid for the order as a whole. A crank by itself only moves claims
    between the two sides of fills.
  \<^item> The state machine: in every reachable ledger the order tables of user accounts are well formed,
    every user account sits at its derived address, so that an owner has one per market, and the
    multipliers, fee type and royalties of every market are sound; no instruction changes the
    identity of an account; a user account appears, changes or disappears only with the
    signature of its owner or through the event queue.
  \<^item> The event queue: a crank applies a prefix of the queue in order, stops only at its bound or
    at a missing account, removes what it applied. From end to end, the transaction a pass of the
    crank sends makes the program apply the next ten events, and errors of the node never stop
    the loop of the crank.
  \<^item> Life cycle: what creating, updating and closing markets and user accounts establish.
  \<^item> Authority: which signatures, owners and addresses an instruction that succeeds has checked.
  \<^item> Encodings: every accepted instruction has exactly one decoding; an instruction that was built
    reaches its own handler; the table of orders meets its specification as a bag.
  \<^item> Behaviour at odds with the intention or the comments of the source: asks credited with a wrapped
    amount, fee tiers that block the queue, referred orders that cannot succeed, a bid that is
    released for another amount than it locked, a check of the vaults that only the token program
    makes good, swaps that pay another amount than the stated one or less than the stated minimum,
    the rounding of referral fees.

  \<^bold>\<open>Loops and bounds.\<close> All definitions are total. The loops over events and creators are
  structural recursions, binary search has a measure, and the cranker's retry loop, which may run
  forever, is a partial function into \<open>option\<close> with a theorem that says when it returns. The event
  loop counts in a \<open>u64\<close>; the count is exact because it never exceeds the \<open>u64\<close> maximum of the
  instruction. The loop of the crank has no exit: \<open>crank cs ctx n\<close> is its first \<open>n\<close> passes, and
  the theorem about it holds for every \<open>n\<close>.

  \<^bold>\<open>Not modelled.\<close> The JavaScript bindings and the tests; logging; the argument parsing of the
  cranker (\<^verbatim>\<open>main.rs\<close>) and the texts of its two errors, which only ever end in a panic; the module
  declarations of \<^verbatim>\<open>lib.rs\<close>; the build features \<^verbatim>\<open>disable-mpl-checks\<close> and \<^verbatim>\<open>aarch64-test\<close> (the default
  build is modelled). The alignment of byte slices, on which \<open>bytemuck\<close> can also fail, is not
  represented: the instruction data starts at an offset that keeps it aligned. The amounts in the
  vaults are data of the token program: the solvency theorems speak of the transfers the
  program orders, not of the balances behind them.
\<close>

section \<open>The rounding of referral fees\<close>

text \<open>
  With a referrer the rounding goes the other way: the referral fee on the whole matched amount
  can be larger than the sum of the shares held back fill by fill, so that the market books more
  than the taker's fees leave in the vault.
\<close>

theorem referral_rounding_shortfall:
  "\<exists>charged referral s1 s2.
     (taker_fee Base 15002 :: u64 program_result) = Inr charged \<and>
     (referral_fee Base 15002 :: u64 program_result) = Inr referral \<and>
     consume_fill_fees ex_market Base True Base 7501 = Inr s1 \<and>
     consume_fill_fees s1 Base True Base 7501 = Inr s2 \<and>
     unat (ds_accumulated_fees ex_market) + (unat charged - unat referral)
       < unat (ds_accumulated_fees s2)"
  by (simp add: consume_fill_fees_def maker_rebate_def ex_market_def eval_defs)

section \<open>Referred orders\<close>

text \<open>A token account that somebody other than the given authority owns, without a delegate.\<close>

definition foreign_vault :: "externals \<Rightarrow> pubkey \<Rightarrow> pubkey \<Rightarrow> ledger \<Rightarrow> bool" where
  "foreign_vault env vault authority L =
     (case token_unpack env (data (L vault)) of
        Inr acc \<Rightarrow> ta_owner acc \<noteq> authority \<and> ta_delegate acc = None
      | Inl _ \<Rightarrow> False)"

text \<open>
  C35: An order with a referrer cannot succeed: the referrer's share is to be paid out of the quote
  vault on the authority of the user, and the token program refuses a transfer on the authority of
  somebody who is neither owner nor delegate of the source. The hypotheses say that the vault is
  owned by somebody else than the user and has no delegate, that the order book and the token
  program leave that so, and what the token program refuses.
\<close>

theorem referred_order_refused:
  assumes "new_order_parse env program_id L accts (nop_has_discount_token_account p \<noteq> 0) = Inr a"
    and "noa_fee_referral_account a \<noteq> None"
    and "foreign_vault env (key (noa_quote_vault a)) (key (noa_user_owner a)) L"
    and book_keeps: "\<And>aa ip K m K'. aob_new_order env program_id aa ip K = Inr (m, K') \<Longrightarrow>
      foreign_vault env (key (noa_quote_vault a)) (key (noa_user_owner a)) K \<Longrightarrow>
      foreign_vault env (key (noa_quote_vault a)) (key (noa_user_owner a)) K'"
    and token_keeps: "\<And>c K K'. token_invoke env program_id c K = Inr K' \<Longrightarrow>
      foreign_vault env (key (noa_quote_vault a)) (key (noa_user_owner a)) K \<Longrightarrow>
      foreign_vault env (key (noa_quote_vault a)) (key (noa_user_owner a)) K'"
    and token_refuses: "\<And>c K src dst auth n. cpi_instruction c = Transfer src dst auth n \<Longrightarrow>
      foreign_vault env src auth K \<Longrightarrow> \<exists>e. token_invoke env program_id c K = Inl e"
  shows "\<exists>e. new_order_process env program_id accts (new_order_params_bytes p) L = Inl e"
proof (rule ccontr)
  assume "\<not> ?thesis"
  then obtain L' where "new_order_process env program_id accts (new_order_params_bytes p) L = Inr L'"
    by (cases "new_order_process env program_id accts (new_order_params_bytes p) L") auto
  then show False
  proof (rule new_order_processE, goal_cases)
    case (1 p' a' s u ot tier mq ip m0 L1)
    have "p' = p" "a' = a"
      using 1(1,2) assms(1) by (simp_all add: new_order_params_codec.enc_inject)
    note settle = 1(15) [unfolded this] and book = 1(14) [unfolded \<open>a' = a\<close>]
    from settle show False
    proof (rule new_order_settleE, goal_cases)
      case (1 m posted u1 m1 q r L2 L3 u2)
      have "foreign_vault env (key (noa_quote_vault a)) (key (noa_user_owner a)) L2"
        using token_keeps [OF 1(5) book_keeps [OF book assms(3)]] .
      moreover from assms(2) obtain x where x: "noa_fee_referral_account a = Some x"
        by auto
      ultimately obtain e where "token_invoke env program_id (new_order_referral_cpi a s x r) L2 = Inl e"
        using token_refuses [of "new_order_referral_cpi a s x r" "key (noa_quote_vault a)" "key x"
            "key (noa_user_owner a)" r L2]
        by (auto simp: new_order_referral_cpi_def)
      with 1(6) x show False by simp
    qed
  qed
qed

text \<open>
  A token program that refuses foreign authorities, where the user owns the wallet's token
  account and the market signer every other one.
\<close>

definition ex_strict_env :: externals where
  "ex_strict_env = ex_plain_env\<lparr>
     token_unpack := (\<lambda>bs. Inr (if bs = [11] then ex_token_account\<lparr>ta_owner := 12\<rparr> else ex_token_account)),
     token_invoke := (\<lambda>_ c L.
       case cpi_instruction c of
         Transfer src dst auth n \<Rightarrow>
           (if (if data (L src) = [11] then 12 else 13) \<noteq> auth then prog_fail IllegalOwner else Inr L)
       | CloseTokenAccount _ _ _ \<Rightarrow> Inr L)\<rparr>"

definition ex_wallet_ledger :: ledger where
  "ex_wallet_ledger = ex_ledger(11 := \<lparr>lamports = 1, data = [11], owner = 1\<rparr>)"

lemma ex_strict:
  "foreign_vault ex_strict_env v k L \<longleftrightarrow> (if data (L v) = [11] then 12 else 13) \<noteq> k"
  "cpi_instruction c = Transfer src dst auth n \<Longrightarrow> token_invoke ex_strict_env pid c L =
     (if (if data (L src) = [11] then 12 else 13) \<noteq> auth then prog_fail IllegalOwner else Inr L)"
  "token_invoke ex_strict_env pid c L = Inr L' \<Longrightarrow> L' = L"
  "aob_new_order ex_strict_env pid aa ip L = Inr (m, L') \<Longrightarrow> L' = L"
  by (auto simp: foreign_vault_def ex_strict_env_def ex_token_account_def ex_plain_env_def ex_env_def
      split: token_instruction.splits if_splits)

theorem referred_order_refused_witness:
  "\<exists>e. new_order_process ex_strict_env 100 (ex_order_infos @ [ex_info 70 False])
     (new_order_params_bytes (ex_order_params Bid)) ex_wallet_ledger = Inl e"
proof -
  let ?a = "ex_order_accounts\<lparr>noa_fee_referral_account := Some (ex_info 70 False)\<rparr>"
  have parse: "new_order_parse ex_strict_env 100 ex_wallet_ledger (ex_order_infos @ [ex_info 70 False])
      (nop_has_discount_token_account (ex_order_params Bid) \<noteq> 0) = Inr ?a"
    by (simp add: new_order_parse_def new_order_read_accounts_def ex_order_infos_def ex_strict_env_def
        ex_plain_env_def ex_env_def ex_order_params_def next_optional_def ex_order_accounts_def
        ex_wallet_ledger_def eval_defs)
  show ?thesis
  proof (rule referred_order_refused [OF parse], goal_cases)
    case 2
    show ?case
      by (simp add: ex_strict(1) ex_wallet_ledger_def ex_order_accounts_def ex_ledger_def)
  next
    case (3 aa ip K m K')
    then show ?case by (metis ex_strict(4))
  next
    case (4 c K K')
    then show ?case by (metis ex_strict(3))
  next
    case (5 c K src dst auth n)
    then show ?case by (simp add: ex_strict(1,2) split: if_splits)
  qed (simp add: ex_order_accounts_def)
qed

end
